(* ===== verification/Prelude.thy ===== *)
theory Prelude
  imports Main "HOL-Library.Word" "HOL-Library.Sublist"
begin

text \<open>
  Shared vocabulary of the development: the collections of facts the component proofs use,
  decimal printing (the conversion \<open>%d\<close> of the C library), path strings and their components,
  and the little algebra of computations that can throw while they change a state.
\<close>

named_theorems path_simps \<open>component lists of path strings\<close>
named_theorems io_simps \<open>evaluation of the throwing state computations\<close>

type_synonym path = "string list"

section \<open>Decimal printing\<close>

definition digit_char :: "nat \<Rightarrow> char" where
  "digit_char d = ''0123456789'' ! d"

fun show_nat :: "nat \<Rightarrow> string" where
  "show_nat n = (if n < 10 then [digit_char n] else show_nat (n div 10) @ [digit_char (n mod 10)])"

declare show_nat.simps [simp del]

definition show_int :: "int \<Rightarrow> string" where
  "show_int i = (if i < 0 then CHR ''-'' # show_nat (nat (- i)) else show_nat (nat i))"

lemma length_show_nat: "n < 10 ^ k \<Longrightarrow> 0 < k \<Longrightarrow> length (show_nat n) \<le> k"
proof (induction n arbitrary: k rule: show_nat.induct)
  case (1 n)
  show ?case
  proof (cases "n < 10")
    case True
    with "1.prems" show ?thesis by (subst show_nat.simps) simp
  next
    case False
    with "1.prems" have "k \<noteq> 1" by auto
    with "1.prems" obtain j where k: "k = Suc j" and "0 < j" by (cases k) auto
    from "1.prems" k have "n div 10 < 10 ^ j"
      by (simp add: less_mult_imp_div_less mult.commute)
    with "1.IH" False \<open>0 < j\<close> have "length (show_nat (n div 10)) \<le> j" by simp
    with False k show ?thesis by (subst show_nat.simps) simp
  qed
qed

lemma length_show_nat_pos: "0 < length (show_nat n)"
  by (subst show_nat.simps) simp

definition digit_set :: "char set" where
  "digit_set = set ''0123456789''"

lemma set_digit_char: "d < 10 \<Longrightarrow> digit_char d \<in> digit_set"
  by (simp only: digit_char_def digit_set_def) (rule nth_mem, simp)

lemma set_show_nat: "set (show_nat n) \<subseteq> digit_set"
proof (induction n rule: show_nat.induct)
  case (1 n)
  have m: "digit_char (n mod 10) \<in> digit_set" by (rule set_digit_char) simp
  show ?case
  proof (cases "n < 10")
    case True
    then show ?thesis using set_digit_char [OF True] by (subst show_nat.simps) simp
  next
    case False
    with "1.IH" m show ?thesis by (subst show_nat.simps) simp
  qed
qed

lemma set_show_int: "set (show_int i) \<subseteq> insert (CHR ''-'') digit_set"
  using set_show_nat [of "nat i"] set_show_nat [of "nat (- i)"] by (auto simp: show_int_def)

lemma show_int_no_nul: "CHR 0x00 \<notin> set (show_int i)"
  using set_show_nat [of "nat i"] set_show_nat [of "nat (- i)"] by (auto simp: show_int_def digit_set_def)

text \<open>A 32-bit signed value prints in at most eleven characters: a sign and ten digits.\<close>

lemma length_show_int_sint: "length (show_int (sint (w :: 32 word))) \<le> 11"
proof -
  have "sint w < 2 ^ 31" using sint_lt [of w] by simp
  moreover have "- (2 ^ 31) \<le> sint w" using sint_ge [of w] by simp
  ultimately have "nat (sint w) < 10 ^ 10" and "nat (- sint w) < 10 ^ 10" by auto
  then have "length (show_nat (nat (sint w))) \<le> 10" and "length (show_nat (nat (- sint w))) \<le> 10"
    by (simp_all add: length_show_nat)
  then show ?thesis by (simp add: show_int_def)
qed

section \<open>Path strings\<close>

fun split_on :: "char \<Rightarrow> string \<Rightarrow> string list" where
  "split_on c [] = [[]]"
| "split_on c (x # xs) =
     (if x = c then [] # split_on c xs
      else (case split_on c xs of [] \<Rightarrow> [[x]] | y # ys \<Rightarrow> (x # y) # ys))"

text \<open>The components of a path string: empty components (doubled or trailing slashes) vanish.\<close>

definition comps :: "string \<Rightarrow> path" where
  "comps s = filter (\<lambda>c. c \<noteq> []) (split_on (CHR ''/'') s)"

definition path_str :: "path \<Rightarrow> string" where
  "path_str p = concat (map (\<lambda>c. CHR ''/'' # c) p)"

text \<open>A name that is one path component and stands for itself.\<close>

definition simple_name :: "string \<Rightarrow> bool" where
  "simple_name n \<longleftrightarrow> n \<noteq> [] \<and> n \<noteq> ''.'' \<and> n \<noteq> ''..'' \<and> CHR ''/'' \<notin> set n \<and> CHR 0x00 \<notin> set n"

abbreviation simple_path :: "path \<Rightarrow> bool" where
  "simple_path p \<equiv> list_all simple_name p"

lemma split_on_nonempty [simp]: "split_on c s \<noteq> []"
  by (induction s) (auto split: list.splits)

lemma split_on_append_sep: "split_on c (a @ c # b) = split_on c a @ split_on c b"
  by (induction a) (auto split: list.splits)

lemma split_on_no_sep: "c \<notin> set s \<Longrightarrow> split_on c s = [s]"
  by (induction s) auto

lemma comps_append [path_simps]: "comps (a @ CHR ''/'' # b) = comps a @ comps b"
  by (simp add: comps_def split_on_append_sep)

lemma comps_slash [path_simps]: "comps (CHR ''/'' # b) = comps b"
  using comps_append [of "[]" b] by (simp add: comps_def)

lemma comps_simple [path_simps]: "simple_name n \<Longrightarrow> comps n = [n]"
  by (simp add: comps_def simple_name_def split_on_no_sep)

lemma comps_path_str [path_simps]: "simple_path p \<Longrightarrow> comps (path_str p) = p"
proof (induction p rule: rev_induct)
  case Nil
  show ?case by (simp add: path_str_def comps_def)
next
  case (snoc n p)
  have "path_str (p @ [n]) = path_str p @ CHR ''/'' # n" by (simp add: path_str_def)
  with snoc show ?case by (simp add: comps_append comps_simple)
qed

lemma path_str_snoc: "path_str (p @ [n]) = path_str p @ CHR ''/'' # n"
  by (simp add: path_str_def)

lemma path_str_no_nul: "simple_path p \<Longrightarrow> CHR 0x00 \<notin> set (path_str p)"
  by (induction p) (auto simp: path_str_def simple_name_def)

lemma simple_names [simp]:
  "simple_name ''crash.marker''" "simple_name ''mount.marker''" "simple_name ''state.json''"
  "simple_name ''state.json.tmp''" "simple_name ''releases''" "simple_name ''bundle.js''"
  "simple_name ''bundle.js.tmp''" "simple_name ''salve-push''"
  by (simp_all add: simple_name_def)

text \<open>Lexical resolution of the two special components; a simple path resolves to itself.\<close>

definition norm_step :: "path \<Rightarrow> string \<Rightarrow> path" where
  "norm_step acc c = (if c = ''.'' then acc else if c = ''..'' then butlast acc else acc @ [c])"

definition norm :: "path \<Rightarrow> path" where
  "norm p = foldl norm_step [] p"

lemma norm_snoc: "norm (p @ [c]) = norm_step (norm p) c"
  by (simp add: norm_def)

lemma norm_simple [path_simps]: "simple_path p \<Longrightarrow> norm p = p"
proof (induction p rule: rev_induct)
  case Nil
  show ?case by (simp add: norm_def)
next
  case (snoc c p)
  then show ?case by (simp add: norm_snoc norm_step_def simple_name_def)
qed

section \<open>Computations that change a state and may throw\<close>

text \<open>
  A method of the Kotlin, Swift or TypeScript sources is a function from the state to its outcome
  (\<open>Inl\<close> an exception, \<open>Inr\<close> the returned value) and the state it leaves, which keeps every
  effect made before the exception.
\<close>

type_synonym ('s, 'e, 'a) action = "'s \<Rightarrow> ('e + 'a) \<times> 's"

definition ret :: "'a \<Rightarrow> ('s, 'e, 'a) action" where
  "ret a s = (Inr a, s)"

definition throw :: "'e \<Rightarrow> ('s, 'e, 'a) action" where
  "throw e s = (Inl e, s)"

definition bind_io :: "('s, 'e, 'a) action \<Rightarrow> ('a \<Rightarrow> ('s, 'e, 'b) action) \<Rightarrow> ('s, 'e, 'b) action" where
  "bind_io m f s = (case m s of (Inl e, s') \<Rightarrow> (Inl e, s') | (Inr a, s') \<Rightarrow> f a s')"

definition then_io :: "('s, 'e, 'a) action \<Rightarrow> ('s, 'e, 'b) action \<Rightarrow> ('s, 'e, 'b) action" where
  "then_io m k = bind_io m (\<lambda>_. k)"

text \<open>\<open>try { m } catch { h }\<close>; Swift's \<open>try?\<close> is the handler that returns \<open>None\<close>.\<close>

definition catch_io :: "('s, 'e, 'a) action \<Rightarrow> ('e \<Rightarrow> ('s, 'e, 'a) action) \<Rightarrow> ('s, 'e, 'a) action" where
  "catch_io m h s = (case m s of (Inl e, s') \<Rightarrow> h e s' | (Inr a, s') \<Rightarrow> (Inr a, s'))"

definition try_opt :: "('s, 'e, 'a) action \<Rightarrow> ('s, 'e, 'a option) action" where
  "try_opt m = catch_io (bind_io m (\<lambda>a. ret (Some a))) (\<lambda>_. ret None)"

lemma ret_apply [simp, io_simps]: "ret a s = (Inr a, s)"
  by (simp add: ret_def)

lemma throw_apply [simp, io_simps]: "throw e s = (Inl e, s)"
  by (simp add: throw_def)

lemma bind_io_Inr [io_simps]: "m s = (Inr a, s') \<Longrightarrow> bind_io m f s = f a s'"
  by (simp add: bind_io_def)

lemma bind_io_Inl [io_simps]: "m s = (Inl e, s') \<Longrightarrow> bind_io m f s = (Inl e, s')"
  by (simp add: bind_io_def)

lemma then_io_Inr [io_simps]: "m s = (Inr a, s') \<Longrightarrow> then_io m k s = k s'"
  by (simp add: then_io_def bind_io_def)

lemma then_io_Inl [io_simps]: "m s = (Inl e, s') \<Longrightarrow> then_io m k s = (Inl e, s')"
  by (simp add: then_io_def bind_io_def)

lemma try_opt_Inr [io_simps]: "m s = (Inr a, s') \<Longrightarrow> try_opt m s = (Inr (Some a), s')"
  by (simp add: try_opt_def catch_io_def bind_io_def)

lemma try_opt_Inl [io_simps]: "m s = (Inl e, s') \<Longrightarrow> try_opt m s = (Inr None, s')"
  by (simp add: try_opt_def catch_io_def bind_io_def)

end
