(* ===== verification/FileSystem.thy ===== *)
theory FileSystem
  imports Prelude
begin

text \<open>
  The file system of the app's sandbox, shared by the C++ signal handler (through POSIX calls) and
  by the Kotlin and Swift storage (through \<open>java.io.File\<close> and \<open>FileManager\<close>). A file system is an
  association list from canonical paths to nodes; \<open>disk\<close> adds what the environment decides: which
  paths the process may read and write, how many more bytes the device accepts (\<open>None\<close>: no limit),
  and a ghost history of every file system state passed through, so that a kill of the process
  between two calls can be reasoned about. There are no symbolic links, and the special
  components \<open>.\<close> and \<open>..\<close> are resolved lexically.
\<close>

named_theorems fs_simps \<open>reading the file system after a change\<close>

section \<open>Nodes and the raw map\<close>

datatype node = Dir | File string

type_synonym fs = "(path \<times> node) list"

definition fget :: "fs \<Rightarrow> path \<Rightarrow> node option" where
  "fget f p = (if norm p = [] then Some Dir else map_of f (norm p))"

definition fput :: "path \<Rightarrow> node \<Rightarrow> fs \<Rightarrow> fs" where
  "fput p n f = (norm p, n) # filter (\<lambda>(q, _). q \<noteq> norm p) f"

definition fdel :: "path \<Rightarrow> fs \<Rightarrow> fs" where
  "fdel p f = filter (\<lambda>(q, _). q \<noteq> norm p) f"

text \<open>The entries at and below a path, the deepest first: the order of a recursive deletion.\<close>

definition subtree :: "path \<Rightarrow> fs \<Rightarrow> path list" where
  "subtree p f = rev (sort_key length (filter (prefix (norm p)) (remdups (map fst f))))"

definition fdrop :: "path \<Rightarrow> fs \<Rightarrow> fs" where
  "fdrop q f = filter (\<lambda>(k, _). k \<noteq> q) f"

text \<open>The names of the entries of a directory, as \<open>listFiles\<close> enumerates them; an entry's name is one
  path component.\<close>

definition fnames :: "path \<Rightarrow> fs \<Rightarrow> string list" where
  "fnames p f =
     filter simple_name (remdups (map last (filter (\<lambda>q. q \<noteq> [] \<and> butlast q = norm p) (map fst f))))"

lemma map_of_filter_key:
  "map_of (filter (\<lambda>(q, _). P q) f) k = (if P k then map_of f k else None)"
  by (induction f) auto

lemma fget_fput [fs_simps]:
  "norm p \<noteq> [] \<Longrightarrow> fget (fput p n f) q = (if norm q = norm p then Some n else fget f q)"
  by (auto simp: fget_def fput_def map_of_filter_key)

lemma fget_fdel [fs_simps]:
  "norm p \<noteq> [] \<Longrightarrow> fget (fdel p f) q = (if norm q = norm p then None else fget f q)"
  by (simp add: fget_def fdel_def map_of_filter_key)

lemma set_subtree: "set (subtree p f) = {q \<in> fst ` set f. prefix (norm p) q}"
  by (auto simp: subtree_def)

lemma set_fnames: "set (fnames p f) = {n. simple_name n \<and> map_of f (norm p @ [n]) \<noteq> None}"
proof -
  have "n \<in> last ` {q \<in> fst ` set f. q \<noteq> [] \<and> butlast q = norm p} \<longleftrightarrow> norm p @ [n] \<in> fst ` set f" for n
  proof
    assume "n \<in> last ` {q \<in> fst ` set f. q \<noteq> [] \<and> butlast q = norm p}"
    then obtain q where q: "q \<in> fst ` set f" "q \<noteq> []" "butlast q = norm p" "n = last q"
      by auto
    then have "q = norm p @ [n]" by (metis append_butlast_last_id)
    with q(1) show "norm p @ [n] \<in> fst ` set f" by simp
  next
    assume m: "norm p @ [n] \<in> fst ` set f"
    have "last (norm p @ [n]) \<in> last ` {q \<in> fst ` set f. q \<noteq> [] \<and> butlast q = norm p}"
      by (rule imageI) (use m in simp)
    then show "n \<in> last ` {q \<in> fst ` set f. q \<noteq> [] \<and> butlast q = norm p}" by simp
  qed
  then show ?thesis by (auto simp: fnames_def map_of_eq_None_iff)
qed

lemma fget_cong_norm: "norm p = norm q \<Longrightarrow> fget f p = fget f q"
  by (simp add: fget_def)

section \<open>The disk\<close>

record disk =
  d_fs :: fs
  d_hist :: "fs list"
  may_read :: "path \<Rightarrow> bool"
  may_write :: "path \<Rightarrow> bool"
  d_room :: "nat option"

text \<open>Nothing is denied; and, for a healthy disk, the device never runs full.\<close>

definition permissive :: "disk \<Rightarrow> bool" where
  "permissive d \<longleftrightarrow> may_read d = (\<lambda>_. True) \<and> may_write d = (\<lambda>_. True)"

definition healthy :: "disk \<Rightarrow> bool" where
  "healthy d \<longleftrightarrow> permissive d \<and> d_room d = None"

definition set_fs :: "fs \<Rightarrow> disk \<Rightarrow> disk" where
  "set_fs f d = d\<lparr>d_fs := f, d_hist := d_hist d @ [f]\<rparr>"

abbreviation dget :: "disk \<Rightarrow> path \<Rightarrow> node option" where
  "dget d p \<equiv> fget (d_fs d) p"

definition grant :: "disk \<Rightarrow> nat \<Rightarrow> nat" where
  "grant d n = (case d_room d of None \<Rightarrow> n | Some r \<Rightarrow> min r n)"

definition spend :: "nat \<Rightarrow> disk \<Rightarrow> disk" where
  "spend n d = d\<lparr>d_room := map_option (\<lambda>r. r - n) (d_room d)\<rparr>"

definition parent_is_dir :: "disk \<Rightarrow> path \<Rightarrow> bool" where
  "parent_is_dir d p \<longleftrightarrow> dget d (butlast (norm p)) = Some Dir"

section \<open>Operations of the platforms' file libraries\<close>

text \<open>Reading a whole file (\<open>readText\<close>, \<open>Data(contentsOf:)\<close>): \<open>None\<close> is the thrown exception.\<close>

definition read_file :: "path \<Rightarrow> disk \<Rightarrow> string option" where
  "read_file p d =
     (if may_read d (norm p) then (case dget d p of Some (File c) \<Rightarrow> Some c | _ \<Rightarrow> None) else None)"

definition path_exists :: "path \<Rightarrow> disk \<Rightarrow> bool" where
  "path_exists p d \<longleftrightarrow> dget d p \<noteq> None"

text \<open>Creating a directory with its missing ancestors, outermost first.\<close>

fun make_dirs :: "path list \<Rightarrow> disk \<Rightarrow> bool \<times> disk" where
  "make_dirs [] d = (True, d)"
| "make_dirs (q # qs) d =
     (case dget d q of
        Some Dir \<Rightarrow> make_dirs qs d
      | Some (File _) \<Rightarrow> (False, d)
      | None \<Rightarrow> (if may_write d q then make_dirs qs (set_fs (fput q Dir (d_fs d)) d) else (False, d)))"

definition mkdirs :: "path \<Rightarrow> disk \<Rightarrow> bool \<times> disk" where
  "mkdirs p d = make_dirs (tl (prefixes (norm p))) d"

text \<open>
  Writing a whole file in place (\<open>writeText\<close>, \<open>writeBytes\<close>): create or truncate, then write. A
  device that runs full takes a part of the data, and the call fails.
\<close>

definition write_file :: "path \<Rightarrow> string \<Rightarrow> disk \<Rightarrow> bool \<times> disk" where
  "write_file p c d =
     (if \<not> may_write d (norm p) \<or> \<not> parent_is_dir d p \<or> dget d p = Some Dir then (False, d)
      else let d1 = set_fs (fput p (File []) (d_fs d)) d;
               k = grant d1 (length c);
               d2 = spend k (set_fs (fput p (File (take k c)) (d_fs d1)) d1)
           in (k = length c, d2))"

text \<open>Foundation's \<open>.atomic\<close> write: an auxiliary file renamed over the target, all or nothing.\<close>

definition write_file_atomic :: "path \<Rightarrow> string \<Rightarrow> disk \<Rightarrow> bool \<times> disk" where
  "write_file_atomic p c d =
     (if \<not> may_write d (norm p) \<or> \<not> parent_is_dir d p \<or> dget d p = Some Dir
         \<or> grant d (length c) < length c
      then (False, d)
      else (True, spend (length c) (set_fs (fput p (File c) (d_fs d)) d)))"

text \<open>\<open>rename(2)\<close> on a regular file (the only kind the sources rename): replaces the target.\<close>

definition rename_file :: "path \<Rightarrow> path \<Rightarrow> disk \<Rightarrow> bool \<times> disk" where
  "rename_file p q d =
     (case dget d p of
        Some (File c) \<Rightarrow>
          (if may_write d (norm p) \<and> may_write d (norm q) \<and> parent_is_dir d q \<and> dget d q \<noteq> Some Dir
           then (True, set_fs (fput q (File c) (fdel p (d_fs d))) d) else (False, d))
      | _ \<Rightarrow> (False, d))"

text \<open>\<open>File.delete()\<close>: a file or an empty directory.\<close>

definition delete_file :: "path \<Rightarrow> disk \<Rightarrow> bool \<times> disk" where
  "delete_file p d =
     (if \<not> may_write d (norm p) \<or> norm p = [] then (False, d)
      else case dget d p of
             None \<Rightarrow> (False, d)
           | Some (File _) \<Rightarrow> (True, set_fs (fdel p (d_fs d)) d)
           | Some Dir \<Rightarrow> (if fnames p (d_fs d) = [] then (True, set_fs (fdel p (d_fs d)) d) else (False, d)))"

text \<open>\<open>deleteRecursively()\<close>, \<open>removeItem(at:)\<close>: one entry at a time, a directory after its entries.\<close>

definition drop_entry :: "path \<Rightarrow> disk \<Rightarrow> disk" where
  "drop_entry q d = set_fs (fdrop q (d_fs d)) d"

definition delete_tree :: "path \<Rightarrow> disk \<Rightarrow> bool \<times> disk" where
  "delete_tree p d =
     (if \<not> may_write d (norm p) \<or> norm p = [] \<or> dget d p = None then (False, d)
      else (True, fold drop_entry (subtree p (d_fs d)) d))"

text \<open>The entries of a directory, \<open>None\<close> when it cannot be listed.\<close>

definition list_files :: "path \<Rightarrow> disk \<Rightarrow> string list option" where
  "list_files p d = (if may_read d (norm p) \<and> dget d p = Some Dir then Some (fnames p (d_fs d)) else None)"

text \<open>The loop by which both platforms prune a directory: recursive deletion of the entries not to be kept.\<close>

fun prune_entries :: "string list \<Rightarrow> path \<Rightarrow> string list \<Rightarrow> disk \<Rightarrow> disk" where
  "prune_entries keep dir [] d = d"
| "prune_entries keep dir (name # names) d =
     prune_entries keep dir names
       (if name \<in> set keep then d else snd (delete_tree (dir @ [name]) d))"

section \<open>What the operations leave alone\<close>

lemma set_fs_sel [simp]:
  "d_fs (set_fs f d) = f" "may_read (set_fs f d) = may_read d" "may_write (set_fs f d) = may_write d"
  "d_room (set_fs f d) = d_room d" "d_hist (set_fs f d) = d_hist d @ [f]"
  by (simp_all add: set_fs_def)

lemma spend_sel [simp]:
  "d_fs (spend n d) = d_fs d" "may_read (spend n d) = may_read d" "may_write (spend n d) = may_write d"
  "d_hist (spend n d) = d_hist d" "d_room (spend n d) = map_option (\<lambda>r. r - n) (d_room d)"
  by (simp_all add: spend_def)

lemma permissive_sel [simp]:
  assumes "permissive d"
  shows "may_read d p" "may_write d p"
  using assms by (simp_all add: permissive_def)

lemma healthy_permissive: "healthy d \<Longrightarrow> permissive d"
  by (simp add: healthy_def)

lemma healthy_sel [simp]:
  assumes "healthy d"
  shows "may_read d p" "may_write d p" "d_room d = None" "grant d n = n"
  using assms by (simp_all add: healthy_def permissive_def grant_def)

lemma permissive_set_fs [simp]: "permissive (set_fs f d) = permissive d"
  by (simp add: permissive_def)

lemma permissive_spend [simp]: "permissive (spend n d) = permissive d"
  by (simp add: permissive_def)

lemma healthy_set_fs [simp]: "healthy (set_fs f d) = healthy d"
  by (simp add: healthy_def)

lemma grant_set_fs [simp]: "grant (set_fs f d) n = grant d n"
  by (simp add: grant_def)

lemma grant_le: "grant d n \<le> n"
  by (simp add: grant_def split: option.splits)

lemma healthy_spend [simp]: "healthy (spend n d) = healthy d"
  by (cases "d_room d") (simp_all add: healthy_def)

text \<open>On a healthy disk every operation succeeds exactly when its target has the right shape.\<close>

lemma write_file_healthy [fs_simps]:
  assumes "healthy d" and "parent_is_dir d p" and "dget d p \<noteq> Some Dir"
  shows "write_file p c d =
    (True, spend (length c) (set_fs (fput p (File c) (fput p (File []) (d_fs d)))
                               (set_fs (fput p (File []) (d_fs d)) d)))"
  using assms by (simp add: write_file_def Let_def)

lemma write_file_atomic_healthy [fs_simps]:
  assumes "healthy d" and "parent_is_dir d p" and "dget d p \<noteq> Some Dir"
  shows "write_file_atomic p c d = (True, spend (length c) (set_fs (fput p (File c) (d_fs d)) d))"
  using assms by (simp add: write_file_atomic_def)

lemma rename_file_healthy [fs_simps]:
  assumes "healthy d" and "dget d p = Some (File c)" and "parent_is_dir d q" and "dget d q \<noteq> Some Dir"
  shows "rename_file p q d = (True, set_fs (fput q (File c) (fdel p (d_fs d))) d)"
  using assms by (simp add: rename_file_def)

lemma make_dirs_preserves:
  "snd (make_dirs ps d) = d' \<Longrightarrow> may_read d' = may_read d \<and> may_write d' = may_write d \<and> d_room d' = d_room d"
  by (induction ps d arbitrary: d' rule: make_dirs.induct)
    (auto split: option.splits node.splits if_splits)

lemma make_dirs_keeps:
  "\<forall>p \<in> set ps. norm p \<noteq> [] \<Longrightarrow> dget d q \<noteq> None \<Longrightarrow> dget (snd (make_dirs ps d)) q = dget d q"
proof (induction ps d rule: make_dirs.induct)
  case (2 p ps d)
  show ?case
  proof (cases "dget d p")
    case None
    with "2.prems" have "norm q \<noteq> norm p" by (metis fget_cong_norm)
    with None "2" show ?thesis by (simp add: fs_simps)
  next
    case (Some n)
    with "2" show ?thesis by (cases n) simp_all
  qed
qed simp

lemma make_dirs_existing:
  "\<forall>p \<in> set ps. dget d p = Some Dir \<Longrightarrow> make_dirs ps d = (True, d)"
  by (induction ps) auto

end
