(* ===== verification/Posix.thy ===== *)
theory Posix
  imports FileSystem
begin

text \<open>
  The part of the C library and of the kernel's signal interface that the crash handler calls:
  file descriptors over the shared disk, \<open>snprintf\<close> into fixed buffers, \<open>sigaction\<close>, \<open>signal\<close>,
  \<open>raise\<close>. Every call is logged, so that the order of the calls can be stated.
\<close>

unbundle bit_operations_syntax

section \<open>Platform constants\<close>

datatype platform = Android | IOS

text \<open>Signal numbers and the \<open>SA_SIGINFO\<close> flag of the Linux and the Darwin headers.\<close>

abbreviation SIGILL :: int where "SIGILL \<equiv> 4"
abbreviation SIGTRAP :: int where "SIGTRAP \<equiv> 5"
abbreviation SIGABRT :: int where "SIGABRT \<equiv> 6"
abbreviation SIGFPE :: int where "SIGFPE \<equiv> 8"
abbreviation SIGSEGV :: int where "SIGSEGV \<equiv> 11"
abbreviation SIGPIPE :: int where "SIGPIPE \<equiv> 13"

fun SIGBUS :: "platform \<Rightarrow> int" where
  "SIGBUS Android = 7"
| "SIGBUS IOS = 10"

fun SIGSYS :: "platform \<Rightarrow> int" where
  "SIGSYS Android = 31"
| "SIGSYS IOS = 12"

fun SA_SIGINFO :: "platform \<Rightarrow> 32 word" where
  "SA_SIGINFO Android = 4"
| "SA_SIGINFO IOS = 64"

text \<open>A handler is an address; the two distinguished ones are the same on both systems.\<close>

type_synonym addr = "64 word"

definition SIG_DFL :: addr where "SIG_DFL = 0"
definition SIG_IGN :: addr where "SIG_IGN = 1"

section \<open>Process state\<close>

text \<open>\<open>struct sigaction\<close>: the handler union is one address, read under either name.\<close>

record sigact =
  sa_handler :: addr
  sa_flags :: "32 word"
  sa_mask :: "int list"

record ofd =
  ofd_path :: path
  ofd_pos :: nat
  ofd_write :: bool

datatype sysevent =
    EvOpen string
  | EvWrite nat string
  | EvClose nat
  | EvSigaction int
  | EvSignal int
  | EvRaise int

record proc =
  p_disk :: disk
  p_fds :: "nat \<Rightarrow> ofd option"
  p_fdmax :: nat
  p_disp :: "int \<Rightarrow> sigact"
  p_blocked :: "int set"
  p_pending :: "int set"
  p_killed :: "int option"
  p_log :: "sysevent list"

definition log_ev :: "sysevent \<Rightarrow> 'a proc_scheme \<Rightarrow> 'a proc_scheme" where
  "log_ev e p = p\<lparr>p_log := p_log p @ [e]\<rparr>"

section \<open>Fixed-size buffers\<close>

text \<open>The C string held by a buffer, and \<open>snprintf\<close> of an already formatted text into it.\<close>

definition cstr :: "string \<Rightarrow> string" where
  "cstr buf = takeWhile (\<lambda>c. c \<noteq> CHR 0x00) buf"

definition snprintf :: "nat \<Rightarrow> string \<Rightarrow> string \<Rightarrow> nat \<times> string" where
  "snprintf sz out buf =
     (length out,
      if sz = 0 then buf
      else let w = take (sz - 1) out @ [CHR 0x00] in w @ drop (length w) buf)"

text \<open>Reading \<open>n\<close> bytes from the start of a buffer; past its end is undefined behaviour.\<close>

definition buf_read :: "nat \<Rightarrow> string \<Rightarrow> string option" where
  "buf_read n buf = (if n \<le> length buf then Some (take n buf) else None)"

lemma cstr_snprintf:
  "CHR 0x00 \<notin> set out \<Longrightarrow> 0 < sz \<Longrightarrow> cstr (snd (snprintf sz out buf)) = take (sz - 1) out"
proof -
  assume no_nul: "CHR 0x00 \<notin> set out" and "0 < sz"
  moreover have "\<forall>c \<in> set (take (sz - 1) out). c \<noteq> CHR 0x00"
    using no_nul in_set_takeD by fastforce
  ultimately show ?thesis
    by (simp add: snprintf_def cstr_def Let_def takeWhile_append2)
qed

lemma length_snprintf: "sz \<le> length buf \<Longrightarrow> length (snd (snprintf sz out buf)) = length buf"
  by (auto simp: snprintf_def Let_def min_def)

lemma buf_read_snprintf:
  "length out < sz \<Longrightarrow> sz \<le> length buf \<Longrightarrow> buf_read (length out) (snd (snprintf sz out buf)) = Some out"
  by (simp add: buf_read_def snprintf_def Let_def)

section \<open>Files\<close>

datatype open_flag = O_RDONLY | O_WRONLY | O_CREAT | O_TRUNC

definition free_fd :: "'a proc_scheme \<Rightarrow> nat option" where
  "free_fd p = List.find (\<lambda>i. p_fds p i = None) [0..<p_fdmax p]"

definition install_fd :: "nat \<Rightarrow> path \<Rightarrow> bool \<Rightarrow> 'a proc_scheme \<Rightarrow> 'a proc_scheme" where
  "install_fd fd q wr p = p\<lparr>p_fds := (p_fds p)(fd \<mapsto> \<lparr>ofd_path = q, ofd_pos = 0, ofd_write = wr\<rparr>)\<rparr>"

text \<open>
  \<open>open(2)\<close>: fails on an empty name, without a free descriptor, without permission, on a missing
  file unless it is to be created in an existing directory, and on a directory opened for writing.
\<close>

definition sys_open :: "string \<Rightarrow> open_flag list \<Rightarrow> 'a proc_scheme \<Rightarrow> int \<times> 'a proc_scheme" where
  "sys_open name flags p0 =
     (let p = log_ev (EvOpen name) p0; q = comps name; d = p_disk p; wr = O_WRONLY \<in> set flags
      in if name = [] \<or> \<not> (if wr then may_write d (norm q) else may_read d (norm q)) then (-1, p)
         else case free_fd p of
           None \<Rightarrow> (-1, p)
         | Some fd \<Rightarrow>
             (case dget d q of
                None \<Rightarrow>
                  (if O_CREAT \<in> set flags \<and> parent_is_dir d q
                   then (int fd, install_fd fd q wr (p\<lparr>p_disk := set_fs (fput q (File []) (d_fs d)) d\<rparr>))
                   else (-1, p))
              | Some Dir \<Rightarrow> (if wr then (-1, p) else (int fd, install_fd fd q wr p))
              | Some (File c) \<Rightarrow>
                  (if wr \<and> O_TRUNC \<in> set flags
                   then (int fd, install_fd fd q wr (p\<lparr>p_disk := set_fs (fput q (File []) (d_fs d)) d\<rparr>))
                   else (int fd, install_fd fd q wr p))))"

text \<open>\<open>write(2)\<close>: as many bytes as the device takes; none at all is an error.\<close>

definition sys_write :: "int \<Rightarrow> string \<Rightarrow> 'a proc_scheme \<Rightarrow> int \<times> 'a proc_scheme" where
  "sys_write fd data p0 =
     (let p = log_ev (EvWrite (nat fd) data) p0; d = p_disk p
      in case p_fds p (nat fd) of
           None \<Rightarrow> (-1, p)
         | Some o1 \<Rightarrow>
             (case dget d (ofd_path o1) of
                Some (File c) \<Rightarrow>
                  (let k = grant d (length data); pos = ofd_pos o1;
                       c' = take pos (c @ replicate (pos - length c) (CHR 0x00)) @ take k data @ drop (pos + k) c
                   in if \<not> ofd_write o1 \<or> (k = 0 \<and> data \<noteq> []) then (-1, p)
                      else (int k, p\<lparr>p_disk := spend k (set_fs (fput (ofd_path o1) (File c') (d_fs d)) d),
                                     p_fds := (p_fds p)(nat fd \<mapsto> o1\<lparr>ofd_pos := pos + k\<rparr>)\<rparr>))
              | _ \<Rightarrow> (-1, p)))"

definition sys_close :: "int \<Rightarrow> 'a proc_scheme \<Rightarrow> 'a proc_scheme" where
  "sys_close fd p0 = (let p = log_ev (EvClose (nat fd)) p0 in p\<lparr>p_fds := (p_fds p)(nat fd := None)\<rparr>)"

section \<open>Signals\<close>

text \<open>\<open>sigaction(2)\<close>: returns the old action; a null new action changes nothing.\<close>

definition sys_sigaction :: "int \<Rightarrow> sigact option \<Rightarrow> 'a proc_scheme \<Rightarrow> sigact \<times> 'a proc_scheme" where
  "sys_sigaction n act p0 =
     (let p = log_ev (EvSigaction n) p0
      in (p_disp p n, case act of None \<Rightarrow> p | Some a \<Rightarrow> p\<lparr>p_disp := (p_disp p)(n := a)\<rparr>))"

definition sys_signal :: "int \<Rightarrow> addr \<Rightarrow> 'a proc_scheme \<Rightarrow> 'a proc_scheme" where
  "sys_signal n h p0 =
     (let p = log_ev (EvSignal n) p0
      in p\<lparr>p_disp := (p_disp p)(n := \<lparr>sa_handler = h, sa_flags = 0, sa_mask = []\<rparr>)\<rparr>)"

definition kill_by :: "int \<Rightarrow> 'a proc_scheme \<Rightarrow> 'a proc_scheme" where
  "kill_by n p = p\<lparr>p_killed := Some n\<rparr>"

text \<open>
  \<open>raise(3)\<close> on the current thread. A blocked signal stays pending; an unblocked one with the default
  action ends the process (the eight signals of this library all do), an ignored one is dropped,
  a caught one is left pending for the delivery that follows.
\<close>

definition sys_raise :: "int \<Rightarrow> 'a proc_scheme \<Rightarrow> 'a proc_scheme" where
  "sys_raise n p0 =
     (let p = log_ev (EvRaise n) p0; h = sa_handler (p_disp p n)
      in if n \<in> p_blocked p then p\<lparr>p_pending := insert n (p_pending p)\<rparr>
         else if h = SIG_DFL then kill_by n p
         else if h = SIG_IGN then p
         else p\<lparr>p_pending := insert n (p_pending p)\<rparr>)"

text \<open>Entering a handler blocks its signal; leaving it unblocks the signal and acts on a pending one.\<close>

definition enter_handler :: "int \<Rightarrow> 'a proc_scheme \<Rightarrow> 'a proc_scheme" where
  "enter_handler n p = p\<lparr>p_blocked := insert n (p_blocked p)\<rparr>"

definition leave_handler :: "int \<Rightarrow> 'a proc_scheme \<Rightarrow> 'a proc_scheme" where
  "leave_handler n p0 =
     (let p = p0\<lparr>p_blocked := p_blocked p0 - {n}\<rparr>; h = sa_handler (p_disp p n)
      in if n \<notin> p_pending p then p
         else if h = SIG_DFL then kill_by n (p\<lparr>p_pending := p_pending p - {n}\<rparr>)
         else if h = SIG_IGN then p\<lparr>p_pending := p_pending p - {n}\<rparr>
         else p)"

section \<open>Facts on the calls\<close>

lemma log_ev_sel [simp]:
  "p_disk (log_ev e p) = p_disk p" "p_fds (log_ev e p) = p_fds p" "p_fdmax (log_ev e p) = p_fdmax p"
  "p_disp (log_ev e p) = p_disp p" "p_blocked (log_ev e p) = p_blocked p"
  "p_pending (log_ev e p) = p_pending p" "p_killed (log_ev e p) = p_killed p"
  "p_log (log_ev e p) = p_log p @ [e]" "proc.more (log_ev e p) = proc.more p"
  by (simp_all add: log_ev_def)

lemma free_fd_log [simp]: "free_fd (log_ev e p) = free_fd p"
  by (simp add: free_fd_def)

lemma free_fd_None: "free_fd p = Some fd \<Longrightarrow> p_fds p fd = None"
  by (auto simp: free_fd_def find_Some_iff)

lemma sys_open_frame:
  assumes "sys_open name flags p = (fd, p')"
  shows "p_disp p' = p_disp p" "p_blocked p' = p_blocked p" "p_pending p' = p_pending p"
    "p_killed p' = p_killed p" "p_fdmax p' = p_fdmax p" "proc.more p' = proc.more p"
    "p_log p' = p_log p @ [EvOpen name]"
  using assms
  by (auto simp: sys_open_def Let_def install_fd_def split: if_splits option.splits node.splits)

text \<open>A failed open leaves files and descriptors alone; a successful one takes a free descriptor.\<close>

lemma sys_open_fail:
  assumes "sys_open name flags p = (fd, p')" and "fd < 0"
  shows "p' = log_ev (EvOpen name) p"
  using assms by (auto simp: sys_open_def Let_def split: if_splits option.splits node.splits)

lemma sys_open_rdonly:
  assumes "sys_open name [O_RDONLY] p = (fd, p')" and "\<not> fd < 0"
  obtains i where "fd = int i" "p_fds p i = None"
    "p' = install_fd i (comps name) False (log_ev (EvOpen name) p)"
  using assms
  by (auto simp: sys_open_def Let_def dest: free_fd_None split: if_splits option.splits node.splits)

lemma sys_close_install:
  "p_fds p i = None \<Longrightarrow> sys_close (int i) (install_fd i q wr p) = log_ev (EvClose i) p"
  by (simp add: sys_close_def install_fd_def log_ev_def Let_def fun_upd_idem)

end
