(* ===== verification/CrashHandler.thy ===== *)
theory CrashHandler
  imports Posix
begin

text \<open>
  The native crash handler, \<open>cpp/salve_push_crash_handler.cpp\<close>: the two path buffers, the table
  of the previously installed actions, the marker writer, the chaining to the previous handler, the
  signal handler itself and its installation. Handlers that other libraries installed are not part
  of the repository: \<open>foreign\<close> gives the effect of a call to the handler at an address, or
  \<open>None\<close> when control does not come back.
\<close>

section \<open>State\<close>

definition kPathBufferSize :: nat where "kPathBufferSize = 512"
definition kMaxSignalNumber :: int where "kMaxSignalNumber = 32"
definition jsonBufferSize :: nat where "jsonBufferSize = 256"

record process = proc +
  g_crash_marker_path :: string
  g_mount_marker_path :: string
  g_previous_handlers :: "sigact list"

text \<open>The zero-initialised statics of the translation unit.\<close>

definition statics_ok :: "process \<Rightarrow> bool" where
  "statics_ok p \<longleftrightarrow> length (g_crash_marker_path p) = kPathBufferSize
     \<and> length (g_mount_marker_path p) = kPathBufferSize
     \<and> int (length (g_previous_handlers p)) = kMaxSignalNumber"

datatype c_fault = OutOfBounds

text \<open>A call of a three-argument (\<open>sa_sigaction\<close>) or a one-argument (\<open>sa_handler\<close>) handler.\<close>

datatype call_form = WithInfo | SignalOnly

record env =
  plat :: platform
  own :: addr
  foreign :: "addr \<Rightarrow> call_form \<Rightarrow> 32 word \<Rightarrow> process \<Rightarrow> process option"

definition own_ok :: "env \<Rightarrow> bool" where
  "own_ok e \<longleftrightarrow> own e \<noteq> SIG_DFL \<and> own e \<noteq> SIG_IGN"

section \<open>The marker\<close>

definition isMounted :: "process \<Rightarrow> bool \<times> process" where
  "isMounted p =
     (case sys_open (cstr (g_mount_marker_path p)) [O_RDONLY] p of
        (fd, p1) \<Rightarrow> if fd < 0 then (False, p1) else (True, sys_close fd p1))"

definition quoted :: "string \<Rightarrow> string" where
  "quoted s = CHR 0x22 # s @ [CHR 0x22]"

text \<open>The formatted text: \<open>{"signal":%d,"isAutoRollback":%s}\<close>.\<close>

definition marker_json :: "int \<Rightarrow> bool \<Rightarrow> string" where
  "marker_json n b =
     ''{'' @ quoted ''signal'' @ '':'' @ show_int n @ '','' @ quoted ''isAutoRollback'' @ '':''
       @ (if b then ''true'' else ''false'') @ ''}''"

definition writeCrashMarker :: "32 word \<Rightarrow> process \<Rightarrow> c_fault + process" where
  "writeCrashMarker signalNumber p =
     (case isMounted p of (mounted, p1) \<Rightarrow>
      let isAutoRollback = \<not> mounted in
      case sys_open (cstr (g_crash_marker_path p1)) [O_CREAT, O_WRONLY, O_TRUNC] p1 of (fd, p2) \<Rightarrow>
      if fd < 0 then Inr p2
      else
        (case snprintf jsonBufferSize (marker_json (sint signalNumber) isAutoRollback)
                (replicate jsonBufferSize (CHR 0x00)) of (len, json) \<Rightarrow>
         if 0 < len
         then (case buf_read len json of
                 None \<Rightarrow> Inl OutOfBounds
               | Some data \<Rightarrow> Inr (sys_close fd (snd (sys_write fd data p2))))
         else Inr (sys_close fd p2)))"

section \<open>Chaining and the handler\<close>

type_synonym c_result = "(c_fault + process) option"

definition chainToPreviousHandler ::
    "env \<Rightarrow> (addr \<Rightarrow> call_form \<Rightarrow> process \<Rightarrow> c_result) \<Rightarrow> 32 word \<Rightarrow> process \<Rightarrow> c_result" where
  "chainToPreviousHandler e call signalNumber p =
     (if sint signalNumber < 0 \<or> sint signalNumber \<ge> kMaxSignalNumber then Some (Inr p)
      else let previous = g_previous_handlers p ! nat (sint signalNumber) in
        if sa_flags previous AND SA_SIGINFO (plat e) \<noteq> 0
        then (if sa_handler previous \<noteq> 0 then call (sa_handler previous) WithInfo p else Some (Inr p))
        else if sa_handler previous \<noteq> SIG_DFL \<and> sa_handler previous \<noteq> SIG_IGN \<and> sa_handler previous \<noteq> 0
        then call (sa_handler previous) SignalOnly p
        else Some (Inr p))"

definition reraise :: "32 word \<Rightarrow> process \<Rightarrow> process" where
  "reraise signalNumber p = sys_raise (sint signalNumber) (sys_signal (sint signalNumber) SIG_DFL p)"

lemma chain_mono [partial_function_mono]:
  assumes "\<And>a m q. mono_option (\<lambda>f. call f a m q)"
  shows "mono_option (\<lambda>f. chainToPreviousHandler e (call f) n p)"
proof (cases "sint n < 0 \<or> sint n \<ge> kMaxSignalNumber")
  case True
  then show ?thesis by (simp add: chainToPreviousHandler_def option.const_mono)
next
  case False
  let ?h = "g_previous_handlers p ! nat (sint n)"
  have "mono_option (\<lambda>f. if c then call f a m q else Some (Inr p))" for c a m q
    by (cases c) (use assms in \<open>simp_all add: option.const_mono\<close>)
  with assms False show ?thesis
    by (simp add: chainToPreviousHandler_def Let_def
        split del: if_split) (cases "sa_flags ?h AND SA_SIGINFO (plat e) \<noteq> 0"; simp split del: if_split)
qed

text \<open>
  The handler. A chained call to its own address is a recursive call, so it is a partial function:
  \<open>None\<close> means that control never comes back to the interrupted code.
\<close>

partial_function (option) handleSignal :: "env \<Rightarrow> 32 word \<Rightarrow> process \<Rightarrow> c_result" where
  "handleSignal e signalNumber p =
     (case writeCrashMarker signalNumber p of
        Inl err \<Rightarrow> Some (Inl err)
      | Inr p1 \<Rightarrow>
          Option.bind
            (chainToPreviousHandler e
               (\<lambda>a form q. if a = own e then handleSignal e signalNumber q
                           else map_option Inr (foreign e a form signalNumber q))
               signalNumber p1)
            (\<lambda>r. case r of Inl err \<Rightarrow> Some (Inl err) | Inr p2 \<Rightarrow> Some (Inr (reraise signalNumber p2))))"

section \<open>Installation\<close>

definition handled_signals :: "platform \<Rightarrow> int list" where
  "handled_signals pf =
     [SIGABRT, SIGSEGV, SIGILL, SIGBUS pf, SIGFPE, SIGTRAP, SIGPIPE, SIGSYS pf]"

definition our_action :: "env \<Rightarrow> sigact" where
  "our_action e = \<lparr>sa_handler = own e, sa_flags = SA_SIGINFO (plat e), sa_mask = []\<rparr>"

fun install_loop :: "sigact \<Rightarrow> int list \<Rightarrow> process \<Rightarrow> c_fault + process" where
  "install_loop action [] p = Inr p"
| "install_loop action (signalNumber # rest) p =
     (if signalNumber < 0 \<or> int (length (g_previous_handlers p)) \<le> signalNumber then Inl OutOfBounds
      else case sys_sigaction signalNumber None p of (old, p1) \<Rightarrow>
        let p2 = p1\<lparr>g_previous_handlers := (g_previous_handlers p1)[nat signalNumber := old]\<rparr>
        in install_loop action rest (snd (sys_sigaction signalNumber (Some action) p2)))"

definition salve_push_install_crash_handlers :: "env \<Rightarrow> string \<Rightarrow> process \<Rightarrow> c_fault + process" where
  "salve_push_install_crash_handlers e base_directory p =
     (let p1 = p\<lparr>g_crash_marker_path :=
                   snd (snprintf (length (g_crash_marker_path p)) (base_directory @ ''/crash.marker'')
                          (g_crash_marker_path p))\<rparr>;
          p2 = p1\<lparr>g_mount_marker_path :=
                   snd (snprintf (length (g_mount_marker_path p1)) (base_directory @ ''/mount.marker'')
                          (g_mount_marker_path p1))\<rparr>
      in install_loop (our_action e) (handled_signals (plat e)) p2)"

section \<open>The kernel delivers a signal\<close>

definition run_handler :: "env \<Rightarrow> sigact \<Rightarrow> 32 word \<Rightarrow> process \<Rightarrow> c_result" where
  "run_handler e act n p =
     (if sa_handler act = own e then handleSignal e n p
      else map_option Inr
             (foreign e (sa_handler act)
                (if sa_flags act AND SA_SIGINFO (plat e) \<noteq> 0 then WithInfo else SignalOnly) n p))"

definition deliver :: "env \<Rightarrow> 32 word \<Rightarrow> process \<Rightarrow> c_result" where
  "deliver e n p =
     (let act = p_disp p (sint n) in
      if sa_handler act = SIG_DFL then Some (Inr (kill_by (sint n) p))
      else if sa_handler act = SIG_IGN then Some (Inr p)
      else Option.bind (run_handler e act n (enter_handler (sint n) p))
             (\<lambda>r. case r of Inl err \<Rightarrow> Some (Inl err) | Inr q \<Rightarrow> Some (Inr (leave_handler (sint n) q))))"

end
