(* ===== verification/CrashMarker.thy ===== *)
theory CrashMarker
  imports CrashHandler
begin

text \<open>
  Facts on the marker writer: the formatted text fits its buffer, so no byte past it is read; no
  call leaks a descriptor or touches the signal state; on success the marker file holds exactly the
  formatted text and nothing else changes; on failure nothing changes.
\<close>

section \<open>The formatted text\<close>

lemma length_marker_json: "length (marker_json (sint (n :: 32 word)) b) \<le> 45"
  using length_show_int_sint [of n] by (simp add: marker_json_def quoted_def)

lemma marker_json_nonempty: "0 < length (marker_json n b)"
  by (simp add: marker_json_def)

lemma buf_read_marker:
  "buf_read (length (marker_json (sint (n :: 32 word)) b))
     (snd (snprintf jsonBufferSize (marker_json (sint n) b) (replicate jsonBufferSize (CHR 0x00))))
   = Some (marker_json (sint n) b)"
  using length_marker_json [of n b]
  by (intro buf_read_snprintf) (simp_all add: jsonBufferSize_def)

text \<open>The writer with the buffer handling evaluated.\<close>

lemma writeCrashMarker_eq:
  "writeCrashMarker n p =
     (case isMounted p of (mounted, p1) \<Rightarrow>
      case sys_open (cstr (g_crash_marker_path p1)) [O_CREAT, O_WRONLY, O_TRUNC] p1 of (fd, p2) \<Rightarrow>
      if fd < 0 then Inr p2
      else Inr (sys_close fd (snd (sys_write fd (marker_json (sint n) (\<not> mounted)) p2))))"
  using buf_read_marker [of n] marker_json_nonempty [of "sint n"]
  by (simp add: writeCrashMarker_def snprintf_def Let_def split: prod.splits)

lemma writeCrashMarker_Inr: "\<exists>p'. writeCrashMarker n p = Inr p'"
  by (simp add: writeCrashMarker_eq split: prod.splits)

section \<open>What the writer leaves alone\<close>

text \<open>Everything but the disk, the descriptors and the log.\<close>

definition same_rest :: "process \<Rightarrow> process \<Rightarrow> bool" where
  "same_rest p q \<longleftrightarrow> p_disp q = p_disp p \<and> p_blocked q = p_blocked p \<and> p_pending q = p_pending p
     \<and> p_killed q = p_killed p \<and> p_fdmax q = p_fdmax p \<and> proc.more q = proc.more p"

lemma same_rest_refl [simp]: "same_rest p p"
  by (simp add: same_rest_def)

lemma same_rest_trans [trans]: "same_rest p q \<Longrightarrow> same_rest q r \<Longrightarrow> same_rest p r"
  by (simp add: same_rest_def)

lemma more_globals:
  "proc.more q = proc.more (p :: process) \<Longrightarrow>
     g_crash_marker_path q = g_crash_marker_path p \<and> g_mount_marker_path q = g_mount_marker_path p
     \<and> g_previous_handlers q = g_previous_handlers p"
  by (cases q, cases p) simp

lemma same_restD:
  assumes "same_rest p q"
  shows "g_crash_marker_path q = g_crash_marker_path p" "g_mount_marker_path q = g_mount_marker_path p"
    "g_previous_handlers q = g_previous_handlers p" "p_disp q = p_disp p" "p_blocked q = p_blocked p"
    "p_pending q = p_pending p" "p_killed q = p_killed p"
  using assms more_globals [of q p] by (auto simp: same_rest_def)

lemma sys_open_rest: "sys_open name flags p = (fd, p') \<Longrightarrow> same_rest p p'"
  by (simp add: same_rest_def sys_open_frame [of name flags p fd p'])

lemma sys_write_rest: "same_rest p (snd (sys_write fd data p))"
  by (auto simp: same_rest_def sys_write_def Let_def split: option.splits node.splits)

lemma sys_close_rest: "same_rest p (sys_close fd p)"
  by (simp add: same_rest_def sys_close_def Let_def)

lemma isMounted_rest: "isMounted p = (m, p') \<Longrightarrow> same_rest p p'"
  by (auto simp: isMounted_def split: prod.splits if_splits
      intro: sys_open_rest same_rest_trans [OF _ sys_close_rest] dest: sys_open_rest)

lemma writeCrashMarker_rest: "writeCrashMarker n p = Inr p' \<Longrightarrow> same_rest p p'"
  by (auto simp: writeCrashMarker_eq split: prod.splits if_splits
      dest!: isMounted_rest sys_open_rest
      intro: same_rest_trans same_rest_trans [OF sys_write_rest sys_close_rest])

section \<open>No descriptor leaks\<close>

lemma isMounted_disk: "isMounted p = (m, p') \<Longrightarrow> p_disk p' = p_disk p \<and> p_fds p' = p_fds p"
proof -
  assume m: "isMounted p = (m, p')"
  obtain fd p1 where o1: "sys_open (cstr (g_mount_marker_path p)) [O_RDONLY] p = (fd, p1)"
    by fastforce
  show ?thesis
  proof (cases "fd < 0")
    case True
    with o1 m sys_open_fail [OF o1] show ?thesis by (auto simp: isMounted_def)
  next
    case False
    then obtain i where "fd = int i" "p_fds p i = None"
      "p1 = install_fd i (comps (cstr (g_mount_marker_path p))) False
              (log_ev (EvOpen (cstr (g_mount_marker_path p))) p)"
      using sys_open_rdonly [OF o1] by metis
    with o1 m False sys_close_install [of "log_ev (EvOpen (cstr (g_mount_marker_path p))) p" i]
    show ?thesis by (auto simp: isMounted_def)
  qed
qed

lemma sys_open_fds:
  assumes "sys_open name flags p = (fd, p')" and "\<not> fd < 0"
  obtains o1 where "p_fds p (nat fd) = None" "p_fds p' = (p_fds p)(nat fd \<mapsto> o1)"
  using assms
  by (auto simp: sys_open_def Let_def install_fd_def dest: free_fd_None
      split: if_splits option.splits node.splits)

lemma sys_write_fds:
  "p_fds p = f(nat fd \<mapsto> o1) \<Longrightarrow> \<exists>o2. p_fds (snd (sys_write fd data p)) = f(nat fd \<mapsto> o2)"
  by (auto simp: sys_write_def Let_def split: option.splits node.splits)

lemma writeCrashMarker_fds:
  assumes "writeCrashMarker n p = Inr p'"
  shows "p_fds p' = p_fds p"
proof -
  obtain m p1 where m: "isMounted p = (m, p1)" by fastforce
  obtain fd p2 where o1: "sys_open (cstr (g_crash_marker_path p1)) [O_CREAT, O_WRONLY, O_TRUNC] p1 = (fd, p2)"
    by fastforce
  have f1: "p_fds p1 = p_fds p" using isMounted_disk [OF m] by simp
  show ?thesis
  proof (cases "fd < 0")
    case True
    with assms m o1 sys_open_fail [OF o1] f1 show ?thesis by (auto simp: writeCrashMarker_eq)
  next
    case False
    obtain o2 where "p_fds p1 (nat fd) = None" "p_fds p2 = (p_fds p1)(nat fd \<mapsto> o2)"
      using sys_open_fds [OF o1 False] by blast
    moreover from this sys_write_fds obtain o3 where
      "p_fds (snd (sys_write fd (marker_json (sint n) (\<not> m)) p2)) = (p_fds p1)(nat fd \<mapsto> o3)" by blast
    ultimately show ?thesis
      using assms m o1 False f1
      by (auto simp: writeCrashMarker_eq sys_close_def Let_def fun_upd_idem)
  qed
qed

section \<open>The successful write\<close>

text \<open>The marker can be created: permission, a free descriptor, and no directory in the way.\<close>

definition marker_ready :: "path \<Rightarrow> process \<Rightarrow> bool" where
  "marker_ready q p \<longleftrightarrow> permissive (p_disk p) \<and> free_fd p \<noteq> None
     \<and> comps (cstr (g_crash_marker_path p)) = q \<and> cstr (g_crash_marker_path p) \<noteq> []
     \<and> cstr (g_mount_marker_path p) \<noteq> [] \<and> norm q \<noteq> []
     \<and> parent_is_dir (p_disk p) q \<and> dget (p_disk p) q \<noteq> Some Dir"

definition mount_marker_present :: "process \<Rightarrow> bool" where
  "mount_marker_present p \<longleftrightarrow> path_exists (comps (cstr (g_mount_marker_path p))) (p_disk p)"

lemma isMounted_ready:
  assumes "permissive (p_disk p)" and "free_fd p \<noteq> None" and "cstr (g_mount_marker_path p) \<noteq> []"
  shows "fst (isMounted p) = mount_marker_present p"
  using assms
  by (auto simp: isMounted_def sys_open_def Let_def mount_marker_present_def path_exists_def
      split: option.splits node.splits)

lemma free_fd_cong: "p_fds p = p_fds q \<Longrightarrow> p_fdmax p = p_fdmax q \<Longrightarrow> free_fd p = free_fd q"
  by (simp add: free_fd_def)

lemma sys_open_create:
  assumes "permissive (p_disk p)" and "free_fd p = Some fd" and "name \<noteq> []" and "norm (comps name) \<noteq> []"
    and "parent_is_dir (p_disk p) (comps name)" and "dget (p_disk p) (comps name) \<noteq> Some Dir"
  shows "sys_open name [O_CREAT, O_WRONLY, O_TRUNC] p =
    (int fd, install_fd fd (comps name) True
       ((log_ev (EvOpen name) p)\<lparr>p_disk := set_fs (fput (comps name) (File []) (d_fs (p_disk p))) (p_disk p)\<rparr>))"
proof (cases "dget (p_disk p) (comps name)")
  case None
  with assms show ?thesis by (simp add: sys_open_def Let_def)
next
  case (Some nd)
  with assms show ?thesis by (cases nd) (simp_all add: sys_open_def Let_def)
qed

text \<open>Writing into the file just created, then closing: as much of the data as the device takes.\<close>

lemma write_and_close:
  fixes p :: process and fd :: nat and data :: string
  assumes q: "dget (p_disk p) q = Some (File [])" and nq: "norm q \<noteq> []"
  defines "p' \<equiv> sys_close (int fd) (snd (sys_write (int fd) data (install_fd fd q True p)))"
  shows "dget (p_disk p') r =
      (if norm r = norm q then Some (File (take (grant (p_disk p) (length data)) data)) else dget (p_disk p) r)"
    "may_read (p_disk p') = may_read (p_disk p)" "may_write (p_disk p') = may_write (p_disk p)"
    "d_room (p_disk p) = None \<Longrightarrow> d_room (p_disk p') = None"
proof -
  have cong: "dget (p_disk p) r = Some (File [])" if "norm r = norm q"
    using q fget_cong_norm [OF that, of "d_fs (p_disk p)"] by simp
  show "dget (p_disk p') r =
      (if norm r = norm q then Some (File (take (grant (p_disk p) (length data)) data)) else dget (p_disk p) r)"
    using q nq cong by (auto simp: p'_def sys_write_def sys_close_def install_fd_def Let_def fs_simps)
  show "may_read (p_disk p') = may_read (p_disk p)" "may_write (p_disk p') = may_write (p_disk p)"
    "d_room (p_disk p) = None \<Longrightarrow> d_room (p_disk p') = None"
    using q by (simp_all add: p'_def sys_write_def sys_close_def install_fd_def Let_def)
qed

abbreviation marker_text :: "32 word \<Rightarrow> process \<Rightarrow> string" where
  "marker_text n p \<equiv> marker_json (sint n) (\<not> mount_marker_present p)"

lemma writeCrashMarker_disk:
  assumes r: "marker_ready q p" and w: "writeCrashMarker n p = Inr p'"
  shows "dget (p_disk p') r =
      (if norm r = norm q
       then Some (File (take (grant (p_disk p) (length (marker_text n p))) (marker_text n p)))
       else dget (p_disk p) r)"
    and "permissive (p_disk p')" and "healthy (p_disk p) \<Longrightarrow> healthy (p_disk p')"
proof -
  obtain m p1 where m: "isMounted p = (m, p1)" by fastforce
  from isMounted_disk [OF m] isMounted_rest [OF m] have p1: "p_disk p1 = p_disk p"
      "p_fds p1 = p_fds p" "p_fdmax p1 = p_fdmax p" "g_crash_marker_path p1 = g_crash_marker_path p"
    by (auto simp: same_rest_def dest: more_globals)
  from r m have mm: "m = mount_marker_present p"
    using isMounted_ready [of p] by (simp add: marker_ready_def)
  obtain fd where fd: "free_fd p1 = Some fd"
    using r p1 free_fd_cong [of p1 p] by (auto simp: marker_ready_def)
  from r have q: "comps (cstr (g_crash_marker_path p)) = q" by (simp add: marker_ready_def)
  let ?name = "cstr (g_crash_marker_path p)"
  let ?d1 = "set_fs (fput q (File []) (d_fs (p_disk p))) (p_disk p)"
  let ?p2 = "(log_ev (EvOpen ?name) p1)\<lparr>p_disk := ?d1\<rparr>"
  have o1: "sys_open (cstr (g_crash_marker_path p1)) [O_CREAT, O_WRONLY, O_TRUNC] p1 =
      (int fd, install_fd fd q True ?p2)"
    using r p1 q sys_open_create [OF _ fd, of ?name] by (simp add: marker_ready_def)
  from w m o1 mm have p': "p' = sys_close (int fd)
      (snd (sys_write (int fd) (marker_text n p) (install_fd fd q True ?p2)))"
    by (simp add: writeCrashMarker_eq)
  have d2: "dget (p_disk ?p2) q = Some (File [])" and nq: "norm q \<noteq> []"
    using r by (simp_all add: marker_ready_def fs_simps)
  note wc = write_and_close [OF d2 nq, of fd "marker_text n p", folded p']
  show "dget (p_disk p') r =
      (if norm r = norm q
       then Some (File (take (grant (p_disk p) (length (marker_text n p))) (marker_text n p)))
       else dget (p_disk p) r)"
    using wc(1) [of r] nq by (simp add: fs_simps)
  show "permissive (p_disk p')" using wc(2,3) r by (simp add: permissive_def marker_ready_def)
  show "healthy (p_disk p) \<Longrightarrow> healthy (p_disk p')"
    using wc(2-4) by (simp add: healthy_def permissive_def)
qed

end
