(* ===== verification/CrashInstall.thy ===== *)
theory CrashInstall
  imports CrashMarker
begin

text \<open>
  Installation: the eight signals index the 32-entry table on both platforms, the table records
  the actions found, and the two paths are exact up to the length the buffers allow.
\<close>

section \<open>The installation loop\<close>

lemma handled_signals_bounds: "\<forall>n \<in> set (handled_signals pf). 0 < n \<and> n < 32"
  by (cases pf) (simp_all add: handled_signals_def)

lemma distinct_handled_signals: "distinct (handled_signals pf)"
  by (cases pf) (simp_all add: handled_signals_def)

text \<open>Everything but the dispositions, the table and the log.\<close>

definition same_files :: "process \<Rightarrow> process \<Rightarrow> bool" where
  "same_files p q \<longleftrightarrow> p_disk q = p_disk p \<and> p_fds q = p_fds p \<and> p_fdmax q = p_fdmax p
     \<and> p_blocked q = p_blocked p \<and> p_pending q = p_pending p \<and> p_killed q = p_killed p
     \<and> g_crash_marker_path q = g_crash_marker_path p \<and> g_mount_marker_path q = g_mount_marker_path p"

text \<open>The process after one round of the loop.\<close>

definition after_round :: "sigact \<Rightarrow> int \<Rightarrow> process \<Rightarrow> process" where
  "after_round action n p = snd (sys_sigaction n (Some action)
     ((snd (sys_sigaction n None p))\<lparr>g_previous_handlers := (g_previous_handlers p)[nat n := p_disp p n]\<rparr>))"

lemma after_round_sel:
  "p_disp (after_round action n p) = (p_disp p)(n := action)"
  "g_previous_handlers (after_round action n p) = (g_previous_handlers p)[nat n := p_disp p n]"
  "same_files p (after_round action n p)"
  by (simp_all add: after_round_def sys_sigaction_def Let_def same_files_def log_ev_def)

lemma install_loop_Cons:
  assumes "0 \<le> n" and "n < int (length (g_previous_handlers p))"
  shows "install_loop action (n # ns) p = install_loop action ns (after_round action n p)"
  using assms by (simp add: after_round_def sys_sigaction_def Let_def log_ev_def)

lemma install_loop_result:
  assumes "\<forall>n \<in> set ns. 0 \<le> n \<and> n < int (length (g_previous_handlers p))" and "distinct ns"
  shows "\<exists>p'. install_loop action ns p = Inr p'
    \<and> p_disp p' = (\<lambda>m. if m \<in> set ns then action else p_disp p m)
    \<and> length (g_previous_handlers p') = length (g_previous_handlers p)
    \<and> (\<forall>m. 0 \<le> m \<longrightarrow> g_previous_handlers p' ! nat m
          = (if m \<in> set ns then p_disp p m else g_previous_handlers p ! nat m))
    \<and> same_files p p'"
  using assms
proof (induction ns arbitrary: p)
  case Nil
  then show ?case by (simp add: same_files_def)
next
  case (Cons n ns)
  let ?q = "after_round action n p"
  note q = after_round_sel [where action = action and n = n and p = p]
  from Cons.prems have b: "0 \<le> n" "n < int (length (g_previous_handlers p))" by auto
  have l: "length (g_previous_handlers ?q) = length (g_previous_handlers p)"
    by (simp only: q(2) length_list_update)
  from Cons.prems l have "\<forall>m \<in> set ns. 0 \<le> m \<and> m < int (length (g_previous_handlers ?q))" by auto
  with Cons.IH [of ?q] Cons.prems obtain p' where p': "install_loop action ns ?q = Inr p'"
    "p_disp p' = (\<lambda>m. if m \<in> set ns then action else p_disp ?q m)"
    "length (g_previous_handlers p') = length (g_previous_handlers ?q)"
    "\<forall>m. 0 \<le> m \<longrightarrow> g_previous_handlers p' ! nat m
        = (if m \<in> set ns then p_disp ?q m else g_previous_handlers ?q ! nat m)"
    "same_files ?q p'" by auto
  have "same_files p p'" using q(3) p'(5) by (simp add: same_files_def)
  moreover have "p_disp p' = (\<lambda>m. if m \<in> set (n # ns) then action else p_disp p m)"
    using p'(2) by (auto simp: q(1))
  moreover have "g_previous_handlers p' ! nat m
      = (if m \<in> set (n # ns) then p_disp p m else g_previous_handlers p ! nat m)" if "0 \<le> m" for m
  proof (cases "m = n")
    case True
    with p'(4) that b Cons.prems(2) show ?thesis by (simp add: q(2))
  next
    case False
    with that b have "nat m \<noteq> nat n" by auto
    with p'(4) that False show ?thesis by (simp add: q(1,2))
  qed
  ultimately show ?case using p' l install_loop_Cons [OF b] by auto
qed

section \<open>The whole installation\<close>

lemma install_result:
  assumes "statics_ok p" and "CHR 0x00 \<notin> set base"
  shows "\<exists>p'. salve_push_install_crash_handlers e base p = Inr p'
    \<and> p_disp p' = (\<lambda>m. if m \<in> set (handled_signals (plat e)) then our_action e else p_disp p m)
    \<and> (\<forall>m \<in> set (handled_signals (plat e)). g_previous_handlers p' ! nat m = p_disp p m)
    \<and> statics_ok p'
    \<and> cstr (g_crash_marker_path p') = take 511 (base @ ''/crash.marker'')
    \<and> cstr (g_mount_marker_path p') = take 511 (base @ ''/mount.marker'')
    \<and> p_disk p' = p_disk p \<and> p_fds p' = p_fds p \<and> p_fdmax p' = p_fdmax p \<and> p_killed p' = p_killed p
    \<and> p_blocked p' = p_blocked p \<and> p_pending p' = p_pending p"
proof -
  let ?c = "snd (snprintf 512 (base @ ''/crash.marker'') (g_crash_marker_path p))"
  let ?m = "snd (snprintf 512 (base @ ''/mount.marker'') (g_mount_marker_path p))"
  let ?p = "p\<lparr>g_crash_marker_path := ?c, g_mount_marker_path := ?m\<rparr>"
  from assms(1) have len: "length (g_crash_marker_path p) = 512" "length (g_mount_marker_path p) = 512"
      "length (g_previous_handlers p) = 32"
    by (simp_all add: statics_ok_def kPathBufferSize_def kMaxSignalNumber_def)
  have eq: "salve_push_install_crash_handlers e base p
      = install_loop (our_action e) (handled_signals (plat e)) ?p"
    by (simp add: salve_push_install_crash_handlers_def Let_def len)
  have "\<forall>n \<in> set (handled_signals (plat e)). 0 \<le> n \<and> n < int (length (g_previous_handlers ?p))"
    using handled_signals_bounds [of "plat e"] len by fastforce
  from install_loop_result [OF this distinct_handled_signals, of "our_action e"]
  obtain p' where p': "install_loop (our_action e) (handled_signals (plat e)) ?p = Inr p'"
    "p_disp p' = (\<lambda>m. if m \<in> set (handled_signals (plat e)) then our_action e else p_disp ?p m)"
    "length (g_previous_handlers p') = length (g_previous_handlers ?p)"
    "\<forall>m. 0 \<le> m \<longrightarrow> g_previous_handlers p' ! nat m
      = (if m \<in> set (handled_signals (plat e)) then p_disp ?p m else g_previous_handlers ?p ! nat m)"
    "same_files ?p p'"
    by blast
  have sel: "p_disp ?p = p_disp p" "g_previous_handlers ?p = g_previous_handlers p" by simp_all
  note p' = p' [unfolded sel]
  have "\<forall>m \<in> set (handled_signals (plat e)). g_previous_handlers p' ! nat m = p_disp p m"
    using p'(4) handled_signals_bounds [of "plat e"] by fastforce
  moreover have "cstr ?c = take 511 (base @ ''/crash.marker'')" "cstr ?m = take 511 (base @ ''/mount.marker'')"
    using assms(2) by (simp_all add: cstr_snprintf)
  moreover have "length ?c = 512" "length ?m = 512" using len by (simp_all add: length_snprintf)
  ultimately show ?thesis
    using p' eq len by (simp add: same_files_def statics_ok_def kPathBufferSize_def kMaxSignalNumber_def)
qed

lemma install_facts:
  assumes "statics_ok p" and "CHR 0x00 \<notin> set base" and "salve_push_install_crash_handlers e base p = Inr p'"
  shows "p_disp p' = (\<lambda>m. if m \<in> set (handled_signals (plat e)) then our_action e else p_disp p m)"
    "n \<in> set (handled_signals (plat e)) \<Longrightarrow> g_previous_handlers p' ! nat n = p_disp p n"
    "statics_ok p'"
    "cstr (g_crash_marker_path p') = take 511 (base @ ''/crash.marker'')"
    "cstr (g_mount_marker_path p') = take 511 (base @ ''/mount.marker'')"
    "p_disk p' = p_disk p" "p_fds p' = p_fds p" "p_fdmax p' = p_fdmax p" "p_killed p' = p_killed p"
    "p_blocked p' = p_blocked p" "p_pending p' = p_pending p"
  using install_result [OF assms(1,2), of e] assms(3) by auto

text \<open>The paths as components, for a base directory the buffers can hold.\<close>

lemma installed_paths:
  assumes "statics_ok p" and "simple_path base" and "length (path_str base) \<le> 498"
    and "salve_push_install_crash_handlers e (path_str base) p = Inr p'"
  shows "cstr (g_crash_marker_path p') = path_str (base @ [''crash.marker''])"
    "cstr (g_mount_marker_path p') = path_str (base @ [''mount.marker''])"
    "comps (cstr (g_crash_marker_path p')) = base @ [''crash.marker'']"
    "comps (cstr (g_mount_marker_path p')) = base @ [''mount.marker'']"
proof -
  note f = install_facts [OF assms(1) path_str_no_nul [OF assms(2)] assms(4)]
  show c: "cstr (g_crash_marker_path p') = path_str (base @ [''crash.marker''])"
    and m: "cstr (g_mount_marker_path p') = path_str (base @ [''mount.marker''])"
    using assms(3) by (simp_all add: f(4,5) path_str_snoc)
  show "comps (cstr (g_crash_marker_path p')) = base @ [''crash.marker'']"
    "comps (cstr (g_mount_marker_path p')) = base @ [''mount.marker'']"
    using assms(2) by (simp_all add: c m comps_path_str)
qed

end
