(* ===== verification/CrashSignal.thy ===== *)
theory CrashSignal
  imports CrashInstall
begin

text \<open>
  The life of a signal: the handler writes the marker, chains once to the handler it found, restores
  the default action and raises the signal again, so that leaving the handler ends the process. The
  exceptions to this are stated as well: a handler that chains to itself never returns, and a signal
  the app had chosen to ignore becomes fatal.
\<close>

lemmas c_result_splits = sum.splits option.splits

section \<open>One round of the handler\<close>

text \<open>A previous action that has nothing to call.\<close>

definition inert :: "platform \<Rightarrow> sigact \<Rightarrow> bool" where
  "inert pf a \<longleftrightarrow> (if sa_flags a AND SA_SIGINFO pf \<noteq> 0 then sa_handler a = 0
                  else sa_handler a = SIG_DFL \<or> sa_handler a = SIG_IGN)"

definition in_table :: "32 word \<Rightarrow> bool" where
  "in_table n \<longleftrightarrow> 0 \<le> sint n \<and> sint n < kMaxSignalNumber"

abbreviation previous_of :: "process \<Rightarrow> 32 word \<Rightarrow> sigact" where
  "previous_of p n \<equiv> g_previous_handlers p ! nat (sint n)"

lemma handled_in_table: "sint n \<in> set (handled_signals pf) \<Longrightarrow> in_table n"
  using handled_signals_bounds [of pf] by (fastforce simp: in_table_def kMaxSignalNumber_def)

lemma chain_inert: "inert (plat e) (previous_of p n) \<Longrightarrow> chainToPreviousHandler e call n p = Some (Inr p)"
  by (auto simp: chainToPreviousHandler_def inert_def Let_def)

lemma chain_out_of_table: "\<not> in_table n \<Longrightarrow> chainToPreviousHandler e call n p = Some (Inr p)"
  by (auto simp: chainToPreviousHandler_def in_table_def not_le)

lemma handleSignal_inert:
  assumes "writeCrashMarker n p = Inr p1" and "inert (plat e) (previous_of p n)"
  shows "handleSignal e n p = Some (Inr (reraise n p1))"
proof -
  from assms have "inert (plat e) (previous_of p1 n)" by (simp add: same_restD(3) [OF writeCrashMarker_rest])
  with assms(1) show ?thesis by (subst handleSignal.simps) (simp add: chain_inert)
qed

lemma SA_SIGINFO_nonzero: "SA_SIGINFO pf AND SA_SIGINFO pf \<noteq> 0"
  by (cases pf) simp_all

section \<open>Leaving the handler after the signal was raised again\<close>

lemma reraise_frame:
  "p_disk (reraise n p) = p_disk p" "p_fds (reraise n p) = p_fds p" "p_blocked (reraise n p) = p_blocked p"
  by (simp_all add: reraise_def sys_raise_def sys_signal_def kill_by_def Let_def)

text \<open>The default action is in place, so the signal is fatal at once, or on the way out when it is blocked.\<close>

lemma leave_reraise:
  "p_killed (leave_handler (sint n) (reraise n p)) = Some (sint n)"
  "p_disk (leave_handler (sint n) (reraise n p)) = p_disk p"
  "p_fds (leave_handler (sint n) (reraise n p)) = p_fds p"
  by (simp_all add: leave_handler_def reraise_def sys_raise_def sys_signal_def kill_by_def Let_def)

lemma enter_handler_sel [simp]:
  "p_disk (enter_handler n p) = p_disk p" "p_fds (enter_handler n p) = p_fds p"
  "p_disp (enter_handler n p) = p_disp p" "p_killed (enter_handler n p) = p_killed p"
  "p_fdmax (enter_handler n p) = p_fdmax p" "p_log (enter_handler n p) = p_log p"
  "p_blocked (enter_handler n p) = insert n (p_blocked p)" "proc.more (enter_handler n p) = proc.more p"
  by (simp_all add: enter_handler_def)

lemma enter_handler_globals [simp]:
  "g_crash_marker_path (enter_handler n (p :: process)) = g_crash_marker_path p"
  "g_mount_marker_path (enter_handler n p) = g_mount_marker_path p"
  "g_previous_handlers (enter_handler n p) = g_previous_handlers p"
  by (simp_all add: enter_handler_def)

text \<open>A delivered signal whose chained handler comes back ends the process.\<close>

lemma deliver_ours:
  assumes "own_ok e" and "p_disp p (sint n) = our_action e"
    and "handleSignal e n (enter_handler (sint n) p) = Some (Inr (reraise n q))"
  shows "deliver e n p = Some (Inr (leave_handler (sint n) (reraise n q)))"
  using assms by (simp add: deliver_def our_action_def own_ok_def run_handler_def Let_def)

lemma deliver_inert:
  assumes "own_ok e" and "p_disp p (sint n) = our_action e" and "inert (plat e) (previous_of p n)"
    and w: "writeCrashMarker n (enter_handler (sint n) p) = Inr q"
  shows "deliver e n p = Some (Inr (leave_handler (sint n) (reraise n q)))"
proof -
  have "handleSignal e n (enter_handler (sint n) p) = Some (Inr (reraise n q))"
    by (rule handleSignal_inert [OF w]) (simp add: assms(3))
  with assms(1,2) show ?thesis by (rule deliver_ours)
qed

lemma deliver_inert_kills:
  assumes "own_ok e" and "p_disp p (sint n) = our_action e" and "inert (plat e) (previous_of p n)"
  shows "\<exists>q. deliver e n p = Some (Inr q) \<and> p_killed q = Some (sint n) \<and> p_fds q = p_fds p"
proof -
  obtain p1 where w: "writeCrashMarker n (enter_handler (sint n) p) = Inr p1"
    using writeCrashMarker_Inr by blast
  from deliver_inert [OF assms w] leave_reraise writeCrashMarker_fds [OF w] show ?thesis by simp
qed

text \<open>A handler that does not come back to the interrupted code.\<close>

lemma deliver_stuck:
  assumes "own_ok e" and "p_disp p (sint n) = our_action e" and "handleSignal e n (enter_handler (sint n) p) = None"
  shows "deliver e n p = None"
  using assms by (simp add: deliver_def run_handler_def our_action_def own_ok_def Let_def)

section \<open>Chaining\<close>

text \<open>The call form an action asks for, if it has something to call.\<close>

definition chain_form :: "platform \<Rightarrow> sigact \<Rightarrow> call_form option" where
  "chain_form pf a =
     (if inert pf a then None
      else Some (if sa_flags a AND SA_SIGINFO pf \<noteq> 0 then WithInfo else SignalOnly))"

lemma chain_calls:
  "in_table n \<Longrightarrow> chain_form (plat e) (previous_of p n) = Some form \<Longrightarrow>
     chainToPreviousHandler e call n p = call (sa_handler (previous_of p n)) form p"
  by (auto simp: chainToPreviousHandler_def chain_form_def inert_def in_table_def Let_def SIG_DFL_def
      split: if_splits)

lemma handleSignal_chains:
  assumes "in_table n" and "chain_form (plat e) (previous_of p n) = Some form"
    and "sa_handler (previous_of p n) \<noteq> own e" and w: "writeCrashMarker n p = Inr p1"
  shows "handleSignal e n p
    = map_option (\<lambda>q. Inr (reraise n q)) (foreign e (sa_handler (previous_of p n)) form n p1)"
proof -
  have "previous_of p1 n = previous_of p n" by (simp add: same_restD(3) [OF writeCrashMarker_rest [OF w]])
  with assms show ?thesis
    by (subst handleSignal.simps)
      (cases "foreign e (sa_handler (previous_of p n)) form n p1"; simp add: chain_calls)
qed

section \<open>A handler that chains to itself\<close>

definition self_chained :: "env \<Rightarrow> 32 word \<Rightarrow> process \<Rightarrow> bool" where
  "self_chained e n p \<longleftrightarrow> own_ok e \<and> in_table n \<and> sa_handler (previous_of p n) = own e"

lemma chain_self:
  assumes "self_chained e n p"
  shows "\<exists>form. chainToPreviousHandler e call n p = call (own e) form p"
proof -
  have "\<not> inert (plat e) (previous_of p n)"
    using assms by (auto simp: self_chained_def inert_def own_ok_def SIG_DFL_def split: if_splits)
  then obtain form where "chain_form (plat e) (previous_of p n) = Some form" by (simp add: chain_form_def)
  from chain_calls [OF _ this] assms show ?thesis by (auto simp: self_chained_def)
qed

lemma self_chained_marker: "self_chained e n p \<Longrightarrow> writeCrashMarker n p = Inr p1 \<Longrightarrow> self_chained e n p1"
  by (simp add: self_chained_def same_restD(3) [OF writeCrashMarker_rest])

lemma self_chained_never_returns: "handleSignal e n p = Some r \<Longrightarrow> \<not> self_chained e n p"
proof (rule handleSignal.raw_induct [where P = "\<lambda>e n p r. \<not> self_chained e n p"])
  fix f e n p r
  assume IH: "\<And>e n p r. f e n p = Some r \<Longrightarrow> \<not> self_chained e n p"
    and eq: "(case writeCrashMarker n p of Inl err \<Rightarrow> Some (Inl err)
      | Inr p1 \<Rightarrow> Option.bind
          (chainToPreviousHandler e (\<lambda>a form q. if a = own e then f e n q
              else map_option Inr (foreign e a form n q)) n p1)
          (\<lambda>r. case r of Inl err \<Rightarrow> Some (Inl err) | Inr p2 \<Rightarrow> Some (Inr (reraise n p2)))) = Some r"
  obtain p1 where w: "writeCrashMarker n p = Inr p1" using writeCrashMarker_Inr by blast
  show "\<not> self_chained e n p"
  proof
    assume s: "self_chained e n p"
    then have s1: "self_chained e n p1" using w by (rule self_chained_marker)
    have "chainToPreviousHandler e (\<lambda>a form q. if a = own e then f e n q
        else map_option Inr (foreign e a form n q)) n p1 = f e n p1"
      using chain_self [OF s1, of "\<lambda>a form q. if a = own e then f e n q else map_option Inr (foreign e a form n q)"] by auto
    with eq w have "Option.bind (f e n p1)
        (\<lambda>r. case r of Inl err \<Rightarrow> Some (Inl err) | Inr p2 \<Rightarrow> Some (Inr (reraise n p2))) = Some r" by simp
    then obtain r' where "f e n p1 = Some r'" by (cases "f e n p1") auto
    then have "\<not> self_chained e n p1" by (rule IH)
    with s1 show False by blast
  qed
qed

lemma deliver_self_chained:
  assumes "own_ok e" and "p_disp p (sint n) = our_action e" and "in_table n" and "sa_handler (previous_of p n) = own e"
  shows "deliver e n p = None"
proof (rule deliver_stuck [OF assms(1,2)])
  have "self_chained e n (enter_handler (sint n) p)" using assms by (simp add: self_chained_def)
  then show "handleSignal e n (enter_handler (sint n) p) = None"
    using self_chained_never_returns by (cases "handleSignal e n (enter_handler (sint n) p)") blast+
qed

end
