(* ===== verification/CrashProps.thy ===== *)
theory CrashProps
  imports CrashSignal
begin

text \<open>
  The properties of the crash handler, each with a concrete run of the model that meets its
  hypotheses. The sample process is freshly started: zeroed statics, no signal handled, and a
  sandbox with the storage directory \<open>/data\<close>.
\<close>

section \<open>Sample processes\<close>

definition no_action :: sigact where
  "no_action = \<lparr>sa_handler = SIG_DFL, sa_flags = 0, sa_mask = []\<rparr>"

definition sample_env :: "platform \<Rightarrow> env" where
  "sample_env pf = \<lparr>plat = pf, own = 4096, foreign = (\<lambda>_ _ _ _. None)\<rparr>"

definition sample_disk :: disk where
  "sample_disk = \<lparr>d_fs = [([''data''], Dir)], d_hist = [], may_read = (\<lambda>_. True),
     may_write = (\<lambda>_. True), d_room = None\<rparr>"

definition fresh_process :: "disk \<Rightarrow> process" where
  "fresh_process d = \<lparr>p_disk = d, p_fds = Map.empty, p_fdmax = 16, p_disp = (\<lambda>_. no_action),
     p_blocked = {}, p_pending = {}, p_killed = None, p_log = [],
     g_crash_marker_path = replicate 512 (CHR 0x00), g_mount_marker_path = replicate 512 (CHR 0x00),
     g_previous_handlers = replicate 32 no_action\<rparr>"

lemma sample_env_ok [simp]: "own_ok (sample_env pf)" "plat (sample_env pf) = pf"
  by (simp_all add: own_ok_def sample_env_def SIG_DFL_def SIG_IGN_def)

lemma fresh_process_ok [simp]:
  "statics_ok (fresh_process d)" "p_disk (fresh_process d) = d" "p_disp (fresh_process d) n = no_action"
  "p_killed (fresh_process d) = None" "p_fds (fresh_process d) = Map.empty" "free_fd (fresh_process d) = Some 0"
  by (simp_all add: fresh_process_def statics_ok_def kPathBufferSize_def kMaxSignalNumber_def
      free_fd_def upt_conv_Cons)

lemma sample_disk_ok [simp]:
  "healthy sample_disk" "simple_path [''data'']" "dget sample_disk [''data''] = Some Dir"
  "d_fs sample_disk = [([''data''], Dir)]"
  by (simp_all add: healthy_def permissive_def sample_disk_def simple_name_def fget_def norm_def norm_step_def)

lemma no_action_inert [simp]: "inert pf no_action"
  by (simp add: inert_def no_action_def)

section \<open>The paths\<close>

lemma take_all_append: "length a + length b \<le> k \<Longrightarrow> take k (a @ b) = a @ b"
  by simp

text \<open>After installation the statics hold the two marker paths exactly when the base directory
  has at most 498 characters; a longer one is cut off.\<close>

lemma marker_path_exact_iff:
  "length sfx = 13 \<Longrightarrow> take 511 (base @ sfx) = base @ sfx \<longleftrightarrow> length base \<le> 498"
proof
  assume s: "length sfx = 13" and eq: "take 511 (base @ sfx) = base @ sfx"
  then have "length (take 511 (base @ sfx)) = length base + 13" by simp
  then show "length base \<le> 498" by simp
qed simp

text \<open>C40. Installing the handlers leaves the two path buffers with the C strings
  \<open><base>/crash.marker\<close> and \<open><base>/mount.marker\<close> exactly when the base directory has at most
  498 characters, the room its 512-byte buffers leave; a longer base directory gets other paths.\<close>

theorem install_paths_exact:
  assumes "statics_ok p" and "CHR 0x00 \<notin> set base"
    and "salve_push_install_crash_handlers e base p = Inr p'"
  shows "cstr (g_crash_marker_path p') = base @ ''/crash.marker''
           \<and> cstr (g_mount_marker_path p') = base @ ''/mount.marker'' \<longleftrightarrow> length base \<le> 498"
  by (simp add: install_facts(4,5) [OF assms] marker_path_exact_iff del: take_append)

theorem install_paths_exact_witness:
  "\<exists>p'. salve_push_install_crash_handlers (sample_env Android) ''/data'' (fresh_process sample_disk) = Inr p'
     \<and> cstr (g_crash_marker_path p') = ''/data/crash.marker''"
proof -
  have n: "CHR 0x00 \<notin> set ''/data''" by simp
  obtain p' where i: "salve_push_install_crash_handlers (sample_env Android) ''/data'' (fresh_process sample_disk) = Inr p'"
    using install_result [OF fresh_process_ok(1) n] by blast
  from install_paths_exact [OF fresh_process_ok(1) n i] i show ?thesis by simp
qed

text \<open>A base directory of 511 or more characters makes the crash marker and the mount marker one
  and the same path, so the handler then tests its own marker for the confirmed boot.\<close>

theorem install_paths_collide:
  assumes "statics_ok p" and "CHR 0x00 \<notin> set base" and "511 \<le> length base"
    and "salve_push_install_crash_handlers e base p = Inr p'"
  shows "cstr (g_crash_marker_path p') = cstr (g_mount_marker_path p')"
  using assms(3) by (simp add: install_facts(4,5) [OF assms(1,2,4)])

theorem install_paths_collide_witness:
  "\<exists>p'. salve_push_install_crash_handlers (sample_env IOS) (replicate 600 (CHR ''a'')) (fresh_process sample_disk)
           = Inr p' \<and> cstr (g_crash_marker_path p') = cstr (g_mount_marker_path p')"
proof -
  let ?base = "replicate 600 (CHR ''a'')"
  have n: "CHR 0x00 \<notin> set ?base" and l: "511 \<le> length ?base" by simp_all
  obtain p' where i: "salve_push_install_crash_handlers (sample_env IOS) ?base (fresh_process sample_disk) = Inr p'"
    using install_result [OF fresh_process_ok(1) n] by blast
  from install_paths_collide [OF fresh_process_ok(1) n l i] i show ?thesis by blast
qed

section \<open>The marker writer\<close>

text \<open>C39. For every signal number, every disk and every failure of the environment, the marker writer
  reads no byte outside its 256-byte buffer, leaks no descriptor, and leaves the dispositions, the signal
  mask, the pending signals and the statics as they were.\<close>

theorem writeCrashMarker_safe:
  "\<exists>p'. writeCrashMarker n p = Inr p' \<and> p_fds p' = p_fds p \<and> same_rest p p'"
  using writeCrashMarker_Inr [of n p] writeCrashMarker_fds writeCrashMarker_rest by blast

text \<open>When the marker file can be created, the writer leaves in it as much of
  \<open>{"signal":N,"isAutoRollback":B}\<close> as the device takes, all of it when there is room; \<open>B\<close> is true
  exactly when the mount marker is absent, and no other file changes.\<close>

theorem writeCrashMarker_content:
  assumes "marker_ready q p" and "writeCrashMarker n p = Inr p'"
  shows "dget (p_disk p') r =
    (if norm r = norm q
     then Some (File (take (grant (p_disk p) (length (marker_json (sint n) (\<not> mount_marker_present p))))
                        (marker_json (sint n) (\<not> mount_marker_present p))))
     else dget (p_disk p) r)"
  by (rule writeCrashMarker_disk(1) [OF assms])

definition installed_sample :: "platform \<Rightarrow> process" where
  "installed_sample pf =
     (case salve_push_install_crash_handlers (sample_env pf) (path_str [''data'']) (fresh_process sample_disk) of
        Inr p \<Rightarrow> p | Inl _ \<Rightarrow> fresh_process sample_disk)"

lemma installed_sample:
  "salve_push_install_crash_handlers (sample_env pf) (path_str [''data'']) (fresh_process sample_disk)
     = Inr (installed_sample pf)"
proof -
  obtain p' where "salve_push_install_crash_handlers (sample_env pf) (path_str [''data'']) (fresh_process sample_disk)
      = Inr p'"
    using install_result [OF fresh_process_ok(1) path_str_no_nul [OF sample_disk_ok(2)]] by blast
  then show ?thesis by (simp add: installed_sample_def)
qed

lemma path_str_data: "length (path_str [''data'']) \<le> 498"
  by (simp add: path_str_def)

lemmas installed_sample_facts =
  install_facts [OF fresh_process_ok(1) path_str_no_nul [OF sample_disk_ok(2)] installed_sample]
lemmas installed_sample_paths =
  installed_paths [OF fresh_process_ok(1) sample_disk_ok(2) path_str_data installed_sample]

lemma installed_sample_ready:
  "marker_ready [''data'', ''crash.marker''] (installed_sample pf)"
  "\<not> mount_marker_present (installed_sample pf)"
proof -
  have fd: "free_fd (installed_sample pf) = Some 0"
    using free_fd_cong [OF installed_sample_facts(7,8), of pf] by simp
  show "marker_ready [''data'', ''crash.marker''] (installed_sample pf)"
    using fd installed_sample_paths [of pf] installed_sample_facts(6) [of pf]
    by (simp add: marker_ready_def healthy_permissive parent_is_dir_def fget_def norm_def norm_step_def path_str_def)
  show "\<not> mount_marker_present (installed_sample pf)"
    using installed_sample_paths [of pf] installed_sample_facts(6) [of pf]
    by (simp add: mount_marker_present_def path_exists_def fget_def norm_def norm_step_def)
qed

theorem writeCrashMarker_content_witness:
  "\<exists>p'. writeCrashMarker 11 (installed_sample Android) = Inr p'
     \<and> dget (p_disk p') [''data'', ''crash.marker''] = Some (File (marker_json 11 True))"
proof -
  obtain p' where w: "writeCrashMarker 11 (installed_sample Android) = Inr p'"
    using writeCrashMarker_Inr by blast
  from writeCrashMarker_content [OF installed_sample_ready(1) w, of "[''data'', ''crash.marker'']"] w
  show ?thesis
    using installed_sample_ready(2) [of Android] installed_sample_facts(6) [of Android] by simp
qed

section \<open>The handler\<close>

text \<open>C21. Outcome of a signal delivered to the installed handler, whatever fails while the marker is written. When the
  previous action has nothing to call, the process dies of that very signal, and no descriptor leaks. When it has a handler
  of another library, and this one comes back, the process dies of the signal too, with the disk and the
  descriptors that handler left; when it does not come back, neither does the delivery. When the previous handler is the
  library's own, as after a second installation, the delivery never ends.\<close>

theorem delivered_signal_outcome:
  assumes "own_ok e" and "p_disp p (sint n) = our_action e" and "in_table n"
  shows "\<exists>p1. writeCrashMarker n (enter_handler (sint n) p) = Inr p1 \<and>
    (case chain_form (plat e) (previous_of p n) of
       None \<Rightarrow> \<exists>q. deliver e n p = Some (Inr q) \<and> p_killed q = Some (sint n) \<and> p_fds q = p_fds p
     | Some form \<Rightarrow>
         if sa_handler (previous_of p n) = own e then deliver e n p = None
         else (case foreign e (sa_handler (previous_of p n)) form n p1 of
                 None \<Rightarrow> deliver e n p = None
               | Some p2 \<Rightarrow> \<exists>q. deliver e n p = Some (Inr q) \<and> p_killed q = Some (sint n)
                   \<and> p_disk q = p_disk p2 \<and> p_fds q = p_fds p2))"
proof -
  let ?prev = "previous_of p n"
  obtain p1 where w: "writeCrashMarker n (enter_handler (sint n) p) = Inr p1" using writeCrashMarker_Inr by blast
  show ?thesis
  proof (cases "chain_form (plat e) ?prev")
    case None
    then have "inert (plat e) ?prev" by (simp add: chain_form_def split: if_splits)
    from deliver_inert_kills [OF assms(1,2) this] w None show ?thesis by simp
  next
    case form: (Some form)
    show ?thesis
    proof (cases "sa_handler ?prev = own e")
      case True
      from deliver_self_chained [OF assms True] w form True show ?thesis by simp
    next
      case False
      have h: "handleSignal e n (enter_handler (sint n) p)
          = map_option (\<lambda>q. Inr (reraise n q)) (foreign e (sa_handler ?prev) form n p1)"
        using handleSignal_chains [OF assms(3) _ _ w, of e form] form False by simp
      show ?thesis
      proof (cases "foreign e (sa_handler ?prev) form n p1")
        case None
        with deliver_stuck [OF assms(1,2)] h w form False show ?thesis by simp
      next
        case (Some p2)
        with deliver_ours [OF assms(1,2), of p2] h have "deliver e n p = Some (Inr (leave_handler (sint n) (reraise n p2)))" by simp
        with leave_reraise w form False Some show ?thesis by simp
      qed
    qed
  qed
qed

lemma installed_sample_ours:
  assumes "sint n \<in> set (handled_signals pf)"
  shows "p_disp (installed_sample pf) (sint n) = our_action (sample_env pf)"
    "inert pf (previous_of (installed_sample pf) n)"
  using assms installed_sample_facts(1) [of pf] installed_sample_facts(2) [of "sint n" pf] by simp_all

theorem delivered_signal_outcome_witness:
  "\<exists>q. deliver (sample_env IOS) 11 (installed_sample IOS) = Some (Inr q) \<and> p_killed q = Some 11
     \<and> p_fds q = p_fds (installed_sample IOS)"
proof -
  have h: "sint (11 :: 32 word) \<in> set (handled_signals IOS)" by (simp add: handled_signals_def)
  note ours = installed_sample_ours [OF h]
  then have "chain_form (plat (sample_env IOS)) (previous_of (installed_sample IOS) 11) = None" by (simp add: chain_form_def)
  with delivered_signal_outcome [OF sample_env_ok(1) ours(1) handled_in_table [OF h]] show ?thesis by auto
qed

text \<open>C30. A previously installed handler is called exactly once, in the form its flags ask for, with the
  marker already written and closed and before the default action is restored; when it comes back with the
  signal still blocked, the process ends by that signal with the disk the handler left.\<close>

theorem previous_handler_called_once:
  assumes "own_ok e" and "p_disp p (sint n) = our_action e" and "in_table n"
    and "chain_form (plat e) (previous_of p n) = Some form" and "sa_handler (previous_of p n) \<noteq> own e"
    and "writeCrashMarker n (enter_handler (sint n) p) = Inr p1"
  shows "handleSignal e n (enter_handler (sint n) p)
      = map_option (\<lambda>q. Inr (reraise n q)) (foreign e (sa_handler (previous_of p n)) form n p1)
    \<and> (\<forall>q. foreign e (sa_handler (previous_of p n)) form n p1 = Some q \<longrightarrow> sint n \<in> p_blocked q \<longrightarrow>
        (\<exists>q'. deliver e n p = Some (Inr q') \<and> p_killed q' = Some (sint n) \<and> p_disk q' = p_disk q))"
proof -
  have h: "handleSignal e n (enter_handler (sint n) p)
      = map_option (\<lambda>q. Inr (reraise n q)) (foreign e (sa_handler (previous_of p n)) form n p1)"
    using assms(3-6) by (subst handleSignal_chains [of _ _ _ form p1]) simp_all
  have "\<exists>q'. deliver e n p = Some (Inr q') \<and> p_killed q' = Some (sint n) \<and> p_disk q' = p_disk q"
    if "foreign e (sa_handler (previous_of p n)) form n p1 = Some q" "sint n \<in> p_blocked q" for q
    using deliver_ours [OF assms(1,2), of q] h that leave_reraise by simp
  with h show ?thesis by blast
qed

text \<open>A crash reporter installed before this library: it records nothing and comes back.\<close>

definition reporter_env :: env where
  "reporter_env = \<lparr>plat = Android, own = 4096, foreign = (\<lambda>_ _ _ q. Some q)\<rparr>"

definition reporter_process :: process where
  "reporter_process = (installed_sample Android)\<lparr>
     g_previous_handlers := replicate 32 \<lparr>sa_handler = 8192, sa_flags = 4, sa_mask = []\<rparr>\<rparr>"

theorem previous_handler_called_once_witness:
  "\<exists>q. deliver reporter_env 11 reporter_process = Some (Inr q) \<and> p_killed q = Some 11"
proof -
  have own: "own_ok reporter_env" by (simp add: reporter_env_def own_ok_def SIG_DFL_def SIG_IGN_def)
  have h: "sint (11 :: 32 word) \<in> set (handled_signals Android)" by (simp add: handled_signals_def)
  have ours: "p_disp reporter_process (sint (11 :: 32 word)) = our_action reporter_env"
    using installed_sample_ours(1) [OF h]
    by (simp add: reporter_process_def reporter_env_def our_action_def sample_env_def)
  have prev: "previous_of reporter_process 11 = \<lparr>sa_handler = 8192, sa_flags = 4, sa_mask = []\<rparr>"
    by (simp add: reporter_process_def)
  have form: "chain_form (plat reporter_env) (previous_of reporter_process 11) = Some WithInfo"
    unfolding prev by (simp add: chain_form_def inert_def reporter_env_def)
  have other: "sa_handler (previous_of reporter_process 11) \<noteq> own reporter_env"
    unfolding prev by (simp add: reporter_env_def)
  obtain p1 where w: "writeCrashMarker 11 (enter_handler (sint (11 :: 32 word)) reporter_process) = Inr p1"
    using writeCrashMarker_Inr by blast
  have b: "sint (11 :: 32 word) \<in> p_blocked p1"
    using same_restD(5) [OF writeCrashMarker_rest [OF w]] by simp
  have f: "foreign reporter_env a form 11 p1 = Some p1" for a form by (simp add: reporter_env_def)
  from previous_handler_called_once [OF own ours handled_in_table [OF h] form other w] f b
  show ?thesis by auto
qed

text \<open>The kernel ignores a signal the app chose to ignore; once the handlers are installed, the same
  signal writes a crash marker and ends the process, because the handler restores the default action and
  not the previous one before it raises the signal again.\<close>

theorem ignored_signal_becomes_fatal:
  assumes "own_ok e" and "statics_ok p" and "CHR 0x00 \<notin> set base"
    and "sint n \<in> set (handled_signals (plat e))"
    and "p_disp p (sint n) = \<lparr>sa_handler = SIG_IGN, sa_flags = 0, sa_mask = []\<rparr>"
    and "salve_push_install_crash_handlers e base p = Inr p'"
  shows "deliver e n p = Some (Inr p)
    \<and> (\<exists>q. deliver e n p' = Some (Inr q) \<and> p_killed q = Some (sint n))"
proof
  show "deliver e n p = Some (Inr p)"
    using assms(5) by (simp add: deliver_def Let_def SIG_IGN_def SIG_DFL_def)
  note f = install_facts [OF assms(2,3,6)]
  have "p_disp p' (sint n) = our_action e" using assms(4) by (simp add: f(1))
  moreover have "inert (plat e) (previous_of p' n)"
    using assms(4,5) by (simp add: f(2) inert_def)
  ultimately show "\<exists>q. deliver e n p' = Some (Inr q) \<and> p_killed q = Some (sint n)"
    using deliver_inert_kills [OF assms(1)] by blast
qed

theorem ignored_signal_becomes_fatal_witness:
  "\<exists>p p' q. p_killed p = None \<and> deliver (sample_env Android) 13 p = Some (Inr p)
     \<and> salve_push_install_crash_handlers (sample_env Android) ''/data'' p = Inr p'
     \<and> deliver (sample_env Android) 13 p' = Some (Inr q) \<and> p_killed q = Some 13"
proof -
  let ?p = "(fresh_process sample_disk)\<lparr>p_disp := (\<lambda>_. \<lparr>sa_handler = SIG_IGN, sa_flags = 0, sa_mask = []\<rparr>)\<rparr>"
  have st: "statics_ok ?p" and n: "CHR 0x00 \<notin> set ''/data''"
    using fresh_process_ok(1) [of sample_disk] by (simp_all add: statics_ok_def)
  have h: "sint (13 :: 32 word) \<in> set (handled_signals (plat (sample_env Android)))"
    by (simp add: handled_signals_def)
  have ign: "p_disp ?p (sint (13 :: 32 word)) = \<lparr>sa_handler = SIG_IGN, sa_flags = 0, sa_mask = []\<rparr>" by simp
  obtain p' where i: "salve_push_install_crash_handlers (sample_env Android) ''/data'' ?p = Inr p'"
    using install_result [OF st n] by blast
  have k: "p_killed ?p = None" by simp
  from ignored_signal_becomes_fatal [OF sample_env_ok(1) st n h ign i] obtain q where
    "deliver (sample_env Android) 13 ?p = Some (Inr ?p)"
    "deliver (sample_env Android) 13 p' = Some (Inr q)" "p_killed q = Some (sint (13 :: 32 word))"
    by blast
  with k i show ?thesis by (intro exI [of _ ?p] exI [of _ p'] exI [of _ q] conjI) simp_all
qed

text \<open>Installing the handlers twice saves the library's own handler as the previous one: every handled
  signal then makes the handler call itself without end, so the signal is never raised again and control
  never comes back.\<close>

theorem second_install_never_returns:
  assumes "own_ok e" and "statics_ok p" and "CHR 0x00 \<notin> set base" and "CHR 0x00 \<notin> set base'"
    and "salve_push_install_crash_handlers e base p = Inr p1"
    and "salve_push_install_crash_handlers e base' p1 = Inr p2"
    and "sint n \<in> set (handled_signals (plat e))"
  shows "deliver e n p2 = None"
proof -
  note f1 = install_facts [OF assms(2,3,5)]
  note f2 = install_facts [OF f1(3) assms(4,6)]
  have "p_disp p2 (sint n) = our_action e" using assms(7) by (simp add: f2(1))
  moreover have "sa_handler (previous_of p2 n) = own e" using f2(2) [OF assms(7)] assms(7) by (simp add: f1(1) our_action_def)
  ultimately show ?thesis using deliver_self_chained [OF assms(1)] handled_in_table [OF assms(7)] by blast
qed

theorem second_install_never_returns_witness:
  "\<exists>p1 p2. salve_push_install_crash_handlers (sample_env IOS) ''/data'' (fresh_process sample_disk) = Inr p1
     \<and> salve_push_install_crash_handlers (sample_env IOS) ''/data'' p1 = Inr p2
     \<and> deliver (sample_env IOS) 6 p2 = None"
proof -
  have n: "CHR 0x00 \<notin> set ''/data''" by simp
  obtain p1 where i1: "salve_push_install_crash_handlers (sample_env IOS) ''/data'' (fresh_process sample_disk) = Inr p1"
    using install_result [OF fresh_process_ok(1) n] by blast
  have s1: "statics_ok p1" by (rule install_facts(3) [OF fresh_process_ok(1) n i1])
  obtain p2 where i2: "salve_push_install_crash_handlers (sample_env IOS) ''/data'' p1 = Inr p2"
    using install_result [OF s1 n] by blast
  have h: "sint (6 :: 32 word) \<in> set (handled_signals (plat (sample_env IOS)))" by (simp add: handled_signals_def)
  from second_install_never_returns [OF sample_env_ok(1) fresh_process_ok(1) n n i1 i2 h] i1 i2
  show ?thesis by blast
qed

section \<open>From the installation to the marker on disk\<close>

text \<open>The installation hooks exactly the eight signals, none of them outside the 32-entry table, saves
  the action it found for each, and changes no other disposition, no file and no descriptor.\<close>

theorem install_registers:
  assumes "statics_ok p" and "CHR 0x00 \<notin> set base"
  shows "\<exists>p'. salve_push_install_crash_handlers e base p = Inr p'
    \<and> (\<forall>m. p_disp p' m = (if m \<in> set (handled_signals (plat e)) then our_action e else p_disp p m))
    \<and> (\<forall>m \<in> set (handled_signals (plat e)). g_previous_handlers p' ! nat m = p_disp p m)
    \<and> length (handled_signals (plat e)) = 8 \<and> statics_ok p' \<and> p_disk p' = p_disk p \<and> p_fds p' = p_fds p"
proof -
  have "length (handled_signals (plat e)) = 8" by (simp add: handled_signals_def)
  then show ?thesis using install_result [OF assms, of e] by auto
qed

theorem install_registers_witness:
  "\<exists>p'. salve_push_install_crash_handlers (sample_env IOS) ''/data'' (fresh_process sample_disk) = Inr p'
     \<and> p_disp p' 12 = our_action (sample_env IOS) \<and> p_disp p' 7 = no_action"
proof -
  have n: "CHR 0x00 \<notin> set ''/data''" by simp
  from install_registers [OF fresh_process_ok(1) [of sample_disk] n, of "sample_env IOS"]
  obtain p' where "salve_push_install_crash_handlers (sample_env IOS) ''/data'' (fresh_process sample_disk) = Inr p'"
    "\<forall>m. p_disp p' m = (if m \<in> set (handled_signals IOS) then our_action (sample_env IOS) else no_action)"
    by auto
  then show ?thesis by (auto simp: handled_signals_def)
qed

text \<open>The marker is ready once the handlers are installed over an existing directory.\<close>

lemma installed_ready:
  assumes "statics_ok p" and "simple_path base" and "length (path_str base) \<le> 498"
    and i: "salve_push_install_crash_handlers e (path_str base) p = Inr p1"
    and "permissive (p_disk p)" and "free_fd p \<noteq> None" and "dget (p_disk p) base = Some Dir"
    and "dget (p_disk p) (base @ [''crash.marker'']) \<noteq> Some Dir"
  shows "marker_ready (base @ [''crash.marker'']) (enter_handler m p1)"
    "mount_marker_present (enter_handler m p1) \<longleftrightarrow> dget (p_disk p) (base @ [''mount.marker'']) \<noteq> None"
proof -
  note f = install_facts [OF assms(1) path_str_no_nul [OF assms(2)] i]
  note c = installed_paths [OF assms(1-3) i]
  have fd: "free_fd (enter_handler m p1) \<noteq> None"
    using assms(6) free_fd_cong [of "enter_handler m p1" p] f by simp
  have n: "norm (base @ [''crash.marker'']) = base @ [''crash.marker'']"
    using assms(2) by (simp add: norm_simple)
  have "path_str (base @ [x]) \<noteq> []" for x by (simp add: path_str_snoc)
  with fd n c assms(5,7,8) f(6) show "marker_ready (base @ [''crash.marker'']) (enter_handler m p1)"
    by (simp add: marker_ready_def parent_is_dir_def)
  show "mount_marker_present (enter_handler m p1) \<longleftrightarrow> dget (p_disk p) (base @ [''mount.marker'']) \<noteq> None"
    using c(4) f(6) by (simp add: mount_marker_present_def path_exists_def)
qed

text \<open>A handled signal leaves the crash marker; the storage takes this over as its event \<open>Signal\<close>.\<close>

lemma signal_leaves_marker:
  assumes "own_ok e" and "statics_ok p" and "simple_path base" and "length (path_str base) \<le> 498"
    and "salve_push_install_crash_handlers e (path_str base) p = Inr p1"
    and "healthy (p_disk p)" and "free_fd p \<noteq> None" and "dget (p_disk p) base = Some Dir"
    and "dget (p_disk p) (base @ [''crash.marker'']) \<noteq> Some Dir"
    and "sint n \<in> set (handled_signals (plat e))" and "inert (plat e) (p_disp p (sint n))"
  shows "\<exists>p2. deliver e n p1 = Some (Inr p2) \<and> p_killed p2 = Some (sint n) \<and> p_fds p2 = p_fds p
    \<and> healthy (p_disk p2)
    \<and> (\<forall>r. dget (p_disk p2) r =
         (if norm r = base @ [''crash.marker'']
          then Some (File (marker_json (sint n) (dget (p_disk p) (base @ [''mount.marker'']) = None)))
          else dget (p_disk p) r))"
proof -
  note f = install_facts [OF assms(2) path_str_no_nul [OF assms(3)] assms(5)]
  note r = installed_ready [OF assms(2-5) healthy_permissive [OF assms(6)] assms(7-9), of "sint n"]
  obtain q where w: "writeCrashMarker n (enter_handler (sint n) p1) = Inr q"
    using writeCrashMarker_Inr by blast
  have ours: "p_disp p1 (sint n) = our_action e" using assms(10) by (simp add: f(1))
  have prev: "inert (plat e) (previous_of p1 n)" using assms(10,11) by (simp add: f(2))
  note d = deliver_inert [OF assms(1) ours prev w]
  have n: "norm (base @ [''crash.marker'']) = base @ [''crash.marker'']"
    using assms(3) by (simp add: norm_simple)
  show ?thesis
    using d leave_reraise writeCrashMarker_fds [OF w] writeCrashMarker_disk(1,3) [OF r(1) w]
      r(2) f(6,7) n assms(6) by auto
qed

text \<open>C1. End to end: after installation over a healthy storage directory, each of the eight signals that no
  one else handled ends the process by that signal and leaves \<open><base>/crash.marker\<close> with exactly
  \<open>{"signal":N,"isAutoRollback":B}\<close>, where \<open>B\<close> says that the mount marker was absent; every other file
  and every descriptor is as before.\<close>

theorem crash_recorded:
  assumes "own_ok e" and "statics_ok p" and "simple_path base" and "length (path_str base) \<le> 498"
    and "salve_push_install_crash_handlers e (path_str base) p = Inr p1"
    and "healthy (p_disk p)" and "free_fd p \<noteq> None" and "dget (p_disk p) base = Some Dir"
    and "dget (p_disk p) (base @ [''crash.marker'']) \<noteq> Some Dir"
    and "sint n \<in> set (handled_signals (plat e))" and "inert (plat e) (p_disp p (sint n))"
  shows "\<exists>p2. deliver e n p1 = Some (Inr p2) \<and> p_killed p2 = Some (sint n) \<and> p_fds p2 = p_fds p
    \<and> healthy (p_disk p2)
    \<and> (\<forall>r. dget (p_disk p2) r =
         (if norm r = base @ [''crash.marker'']
          then Some (File (marker_json (sint n) (dget (p_disk p) (base @ [''mount.marker'']) = None)))
          else dget (p_disk p) r))"
  by (rule signal_leaves_marker [OF assms])

theorem crash_recorded_witness:
  "\<exists>p2. deliver (sample_env Android) 11 (installed_sample Android) = Some (Inr p2)
     \<and> p_killed p2 = Some 11
     \<and> dget (p_disk p2) [''data'', ''crash.marker''] = Some (File (marker_json 11 True))"
proof -
  have h: "sint (11 :: 32 word) \<in> set (handled_signals (plat (sample_env Android)))"
    by (simp add: handled_signals_def)
  have fd: "free_fd (fresh_process sample_disk) \<noteq> None" by simp
  have no: "dget (p_disk (fresh_process sample_disk)) ([''data''] @ [''crash.marker'']) = None"
    "dget (p_disk (fresh_process sample_disk)) ([''data''] @ [''mount.marker'']) = None"
    by (simp_all add: fget_def norm_def norm_step_def)
  have nd: "dget (p_disk (fresh_process sample_disk)) ([''data''] @ [''crash.marker'']) \<noteq> Some Dir"
    and inr: "inert (plat (sample_env Android)) (p_disp (fresh_process sample_disk) (sint (11 :: 32 word)))"
    using no by simp_all
  have hd: "healthy (p_disk (fresh_process sample_disk))" by simp
  have bd: "dget (p_disk (fresh_process sample_disk)) [''data''] = Some Dir"
    by (simp add: fget_def norm_def norm_step_def)
  from crash_recorded [OF sample_env_ok(1) fresh_process_ok(1) sample_disk_ok(2) path_str_data
      installed_sample hd fd bd nd h inr, unfolded no(2)]
  obtain p2 where p2: "deliver (sample_env Android) 11 (installed_sample Android) = Some (Inr p2)"
    "p_killed p2 = Some (sint (11 :: 32 word))"
    "\<forall>r. dget (p_disk p2) r = (if norm r = [''data''] @ [''crash.marker'']
        then Some (File (marker_json (sint (11 :: 32 word)) (None = (None :: node option))))
        else dget (p_disk (fresh_process sample_disk)) r)" by blast
  have "dget (p_disk p2) [''data'', ''crash.marker''] = Some (File (marker_json 11 True))"
    using p2(3) by (simp add: norm_def norm_step_def)
  with p2(1,2) show ?thesis by simp
qed

text \<open>An action saved with the flag \<open>SA_SIGINFO\<close> and the handler \<open>SIG_IGN\<close> is called: the null test of
  the three-argument branch lets the address 1 through.\<close>

theorem siginfo_ignore_is_called:
  assumes "in_table n" and "sa_flags (previous_of p n) AND SA_SIGINFO (plat e) \<noteq> 0"
    and "sa_handler (previous_of p n) = SIG_IGN" and "own e \<noteq> SIG_IGN" and "writeCrashMarker n p = Inr p1"
  shows "handleSignal e n p = map_option (\<lambda>q. Inr (reraise n q)) (foreign e SIG_IGN WithInfo n p1)"
  using handleSignal_chains [of n e p WithInfo p1] assms
  by (simp add: chain_form_def inert_def SIG_IGN_def)

theorem siginfo_ignore_is_called_witness:
  "handleSignal (sample_env Android) 13 (fresh_process sample_disk\<lparr>g_previous_handlers :=
     replicate 32 \<lparr>sa_handler = SIG_IGN, sa_flags = 4, sa_mask = []\<rparr>\<rparr>) = None"
proof -
  let ?p = "fresh_process sample_disk\<lparr>g_previous_handlers :=
     replicate 32 \<lparr>sa_handler = SIG_IGN, sa_flags = 4, sa_mask = []\<rparr>\<rparr>"
  obtain p1 where w: "writeCrashMarker 13 ?p = Inr p1" using writeCrashMarker_Inr by blast
  have t: "in_table (13 :: 32 word)" by (simp add: in_table_def kMaxSignalNumber_def)
  have fl: "sa_flags (previous_of ?p 13) AND SA_SIGINFO (plat (sample_env Android)) \<noteq> 0"
    and h: "sa_handler (previous_of ?p 13) = SIG_IGN" by simp_all
  have o1: "own (sample_env Android) \<noteq> SIG_IGN" by (simp add: sample_env_def SIG_IGN_def)
  from siginfo_ignore_is_called [OF t fl h o1 w] show ?thesis by (simp add: sample_env_def)
qed

end
