(* ===== verification/ReleaseSpec.thy ===== *)
theory ReleaseSpec
  imports Prelude
begin

text \<open>
  What the on-device storage of releases promises, apart from files, markers and JSON: which release is
  current, which one a rollback goes back to, whether the current one has confirmed a boot, whether a
  crash of it is waiting to be looked at, and which bundles are kept. \<open>pstate\<close> is the persisted pointer
  state, the class \<open>SalvePushState\<close> of both platforms. The last section shows what any implementation
  of the operations gives the app over a whole history of events.
\<close>

section \<open>States\<close>

record pstate =
  currentReleaseId :: "string option"
  previousReleaseId :: "string option"
  bootStatus :: string

definition confirmedEmpty :: pstate where
  "confirmedEmpty = \<lparr>currentReleaseId = None, previousReleaseId = None, bootStatus = ''confirmed''\<rparr>"

text \<open>\<open>a_crash\<close> is the unprocessed crash marker, with the answer to whether it asks for a rollback.\<close>

record astate =
  a_state :: pstate
  a_mounted :: bool
  a_crash :: "bool option"
  a_bundle :: "string \<Rightarrow> string option"

definition a_empty :: astate where
  "a_empty = \<lparr>a_state = confirmedEmpty, a_mounted = False, a_crash = None, a_bundle = Map.empty\<rparr>"

abbreviation a_current :: "astate \<Rightarrow> string option" where
  "a_current a \<equiv> currentReleaseId (a_state a)"

abbreviation a_previous :: "astate \<Rightarrow> string option" where
  "a_previous a \<equiv> previousReleaseId (a_state a)"

section \<open>Operations\<close>

definition install_state :: "string \<Rightarrow> pstate \<Rightarrow> pstate" where
  "install_state i s =
     s\<lparr>previousReleaseId := currentReleaseId s, currentReleaseId := Some i, bootStatus := ''pending''\<rparr>"

definition confirm_state :: "pstate \<Rightarrow> pstate" where
  "confirm_state s = s\<lparr>bootStatus := ''confirmed''\<rparr>"

definition rollback_state :: "string \<Rightarrow> pstate \<Rightarrow> pstate" where
  "rollback_state p s =
     s\<lparr>currentReleaseId := Some p, previousReleaseId := None, bootStatus := ''confirmed''\<rparr>"

definition keep_only :: "string option set \<Rightarrow> (string \<Rightarrow> string option) \<Rightarrow> string \<Rightarrow> string option" where
  "keep_only K b i = (if Some i \<in> K then b i else None)"

definition a_install :: "string \<Rightarrow> string \<Rightarrow> astate \<Rightarrow> astate" where
  "a_install i c a =
     a\<lparr>a_state := install_state i (a_state a), a_mounted := False,
       a_bundle := keep_only {Some i, a_current a} ((a_bundle a)(i \<mapsto> c))\<rparr>"

definition a_confirm :: "astate \<Rightarrow> astate" where
  "a_confirm a = a\<lparr>a_mounted := True, a_state := confirm_state (a_state a)\<rparr>"

definition a_rollback :: "astate \<Rightarrow> astate" where
  "a_rollback a =
     (case a_previous a of None \<Rightarrow> a
      | Some p \<Rightarrow> a\<lparr>a_state := rollback_state p (a_state a), a_mounted := True\<rparr>)"

definition a_rollback_unconfirmed :: "astate \<Rightarrow> astate" where
  "a_rollback_unconfirmed a = (if a_mounted a then a else a_rollback a)"

definition a_process_crash :: "astate \<Rightarrow> astate" where
  "a_process_crash a =
     (let a' = a\<lparr>a_crash := None\<rparr> in if a_crash a = Some True then a_rollback a' else a')"

text \<open>The release to boot: \<open>None\<close> is the bundle embedded in the app.\<close>

definition a_boot :: "astate \<Rightarrow> string option" where
  "a_boot a = (case a_current a of None \<Rightarrow> None | Some i \<Rightarrow> if a_bundle a i = None then None else Some i)"

definition a_signal :: "astate \<Rightarrow> astate" where
  "a_signal a = a\<lparr>a_crash := Some (\<not> a_mounted a)\<rparr>"

lemmas spec_defs = a_install_def a_confirm_def a_rollback_def a_rollback_unconfirmed_def
  a_process_crash_def a_signal_def install_state_def confirm_state_def rollback_state_def keep_only_def

section \<open>The states on the way of an installation\<close>

text \<open>A set of bundles between the kept ones and all of them.\<close>

definition pruned :: "string set \<Rightarrow> (string \<Rightarrow> string option) \<Rightarrow> (string \<Rightarrow> string option) \<Rightarrow> bool" where
  "pruned keep b b' \<longleftrightarrow> (\<forall>j. b' j = b j \<or> j \<notin> keep \<and> b' j = None)"

text \<open>The states an installation may be in, in the order in which it reaches them.\<close>

definition install_stage :: "string \<Rightarrow> string \<Rightarrow> astate \<Rightarrow> astate \<Rightarrow> bool" where
  "install_stage i c a x \<longleftrightarrow>
     x \<in> {a, a\<lparr>a_bundle := (a_bundle a)(i := None)\<rparr>, a\<lparr>a_bundle := (a_bundle a)(i \<mapsto> c)\<rparr>,
          a\<lparr>a_bundle := (a_bundle a)(i \<mapsto> c), a_state := install_state i (a_state a)\<rparr>}
     \<or> (\<exists>b. pruned ({i} \<union> set_option (a_current a)) ((a_bundle a)(i \<mapsto> c)) b
          \<and> x = a\<lparr>a_bundle := b, a_state := install_state i (a_state a), a_mounted := False\<rparr>)"

section \<open>Histories\<close>

text \<open>
  What happens to the storage over the life of an app: the app asks which bundle to boot, installs a
  release, confirms its boot, reports an uncaught exception, or dies of a signal.
\<close>

datatype event = Boot | Install string string | Confirm | UncaughtException | Signal

fun a_step :: "event \<Rightarrow> astate \<Rightarrow> astate" where
  "a_step Boot a = a_process_crash a"
| "a_step (Install i c) a = a_install i c a"
| "a_step Confirm a = a_confirm a"
| "a_step UncaughtException a = a_rollback_unconfirmed a"
| "a_step Signal a = a_signal a"

inductive a_reach :: "astate \<Rightarrow> bool" where
  start: "a_reach a_empty"
| step: "a_reach a \<Longrightarrow> a_reach (a_step e a)"

inductive_cases a_reachE: "a_reach a"

text \<open>
  The invariant: a release the pointers name has its bundle, at most two bundles are kept, and without a
  current release there is no previous one.
\<close>

definition kept :: "astate \<Rightarrow> string set" where
  "kept a = dom (a_bundle a)"

definition a_inv :: "astate \<Rightarrow> bool" where
  "a_inv a \<longleftrightarrow>
     (\<forall>i. Some i \<in> {a_current a, a_previous a} \<longrightarrow> i \<in> kept a)
     \<and> (\<exists>x y. kept a \<subseteq> {x, y}) \<and> (a_current a = None \<longrightarrow> a_previous a = None)"

lemma a_inv_empty: "a_inv a_empty"
  by (simp add: a_inv_def a_empty_def confirmedEmpty_def kept_def)

lemma a_inv_rollback: "a_inv a \<Longrightarrow> a_inv (a_rollback a)"
  by (auto simp: a_inv_def a_rollback_def rollback_state_def kept_def split: option.splits)

lemma a_inv_crash [simp]: "a_inv (a\<lparr>a_crash := c\<rparr>) = a_inv a"
  by (simp add: a_inv_def kept_def)

lemma kept_install: "kept (a_install i c a) \<subseteq> {i, the (a_current a)}"
  by (auto simp: kept_def a_install_def keep_only_def split: if_splits) (metis option.sel)

lemma a_inv_install: "a_inv a \<Longrightarrow> a_inv (a_install i c a)"
proof -
  assume a: "a_inv a"
  have "\<exists>x y. kept (a_install i c a) \<subseteq> {x, y}" using kept_install by blast
  moreover from a have "\<forall>j. a_current a = Some j \<longrightarrow> j \<in> kept a" by (simp add: a_inv_def)
  then have "\<forall>j. Some j \<in> {a_current (a_install i c a), a_previous (a_install i c a)}
      \<longrightarrow> j \<in> kept (a_install i c a)"
    by (auto simp: a_install_def install_state_def kept_def keep_only_def) (metis domD)
  ultimately show ?thesis by (simp add: a_inv_def a_install_def install_state_def)
qed

lemma a_inv_step: "a_inv a \<Longrightarrow> a_inv (a_step e a)"
  by (cases e)
    (auto simp: a_inv_install a_inv_rollback a_rollback_unconfirmed_def a_process_crash_def Let_def
      a_signal_def, simp add: a_inv_def a_confirm_def confirm_state_def kept_def)

lemma a_reach_inv: "a_reach a \<Longrightarrow> a_inv a"
  by (induction rule: a_reach.induct) (simp_all add: a_inv_empty a_inv_step)

lemma a_inv_boot: "a_inv a \<Longrightarrow> a_boot a = a_current a"
  by (auto simp: a_inv_def a_boot_def kept_def dom_def split: option.splits)

lemma a_inv_card: "a_inv a \<Longrightarrow> finite (kept a) \<and> card (kept a) \<le> 2"
proof -
  assume "a_inv a"
  then obtain x y where s: "kept a \<subseteq> {x, y}" by (auto simp: a_inv_def)
  moreover have "card {x, y} \<le> 2" by (cases "x = y") simp_all
  ultimately show ?thesis using card_mono [OF _ s] finite_subset [OF s] by auto
qed

text \<open>Runs of events.\<close>

definition a_run :: "event list \<Rightarrow> astate \<Rightarrow> astate" where
  "a_run es a = fold a_step es a"

lemma a_run_simps [simp]: "a_run [] a = a" "a_run (e # es) a = a_run es (a_step e a)"
  by (simp_all add: a_run_def)

lemma a_run_append: "a_run (es @ fs) a = a_run fs (a_run es a)"
  by (simp add: a_run_def)

lemma a_run_inv: "a_inv a \<Longrightarrow> a_inv (a_run es a)"
  by (induction es arbitrary: a) (simp_all add: a_inv_step)

lemma a_run_reach: "a_reach a \<Longrightarrow> a_reach (a_run es a)"
  by (induction es arbitrary: a) (simp_all add: a_reach.step)

text \<open>A crash of a release that has not confirmed its boot takes the next boot back to the release before it.\<close>

lemma crash_goes_back:
  "\<not> a_mounted a \<Longrightarrow> a_previous a = Some p \<Longrightarrow> a_run [Signal, Boot] a = a_rollback (a\<lparr>a_crash := None\<rparr>)"
  by (simp add: a_signal_def a_process_crash_def)

lemma rollback_target:
  "a_previous a = Some p \<Longrightarrow> a_current (a_rollback a) = Some p \<and> a_mounted (a_rollback a)
     \<and> a_previous (a_rollback a) = None"
  by (simp add: a_rollback_def rollback_state_def)

text \<open>A release that has confirmed stays current whatever crash or exception follows.\<close>

lemma confirmed_stays:
  "a_mounted a \<Longrightarrow> set es \<subseteq> {Boot, Signal, Confirm, UncaughtException} \<Longrightarrow> a_crash a \<noteq> Some True \<Longrightarrow>
     a_current (a_run es a) = a_current a \<and> a_mounted (a_run es a) \<and> a_crash (a_run es a) \<noteq> Some True"
proof (induction es arbitrary: a)
  case (Cons e es)
  then have "a_mounted (a_step e a) \<and> a_current (a_step e a) = a_current a \<and> a_crash (a_step e a) \<noteq> Some True"
    by (cases e) (auto simp: spec_defs Let_def)
  with Cons show ?case by simp
qed simp

text \<open>With no release to go back to, a crash changes nothing: the same release boots again.\<close>

lemma nothing_to_go_back_to:
  "a_previous a = None \<Longrightarrow> set es \<subseteq> {Boot, Signal, UncaughtException} \<Longrightarrow> a_state (a_run es a) = a_state a"
proof (induction es arbitrary: a)
  case (Cons e es)
  then have "a_state (a_step e a) = a_state a" by (cases e) (auto simp: spec_defs Let_def)
  with Cons show ?case by simp
qed simp

text \<open>The bytes most recently installed under an id, and that they are what a kept bundle holds.\<close>

fun last_installed :: "event list \<Rightarrow> string \<Rightarrow> string option" where
  "last_installed [] i = None"
| "last_installed (e # es) i =
     (case last_installed es i of
        Some c \<Rightarrow> Some c
      | None \<Rightarrow> (case e of Install j c \<Rightarrow> if j = i then Some c else None | _ \<Rightarrow> None))"

lemma last_installed_snoc:
  "last_installed (es @ [e]) i =
     (case e of Install j c \<Rightarrow> if j = i then Some c else last_installed es i | _ \<Rightarrow> last_installed es i)"
  by (induction es) (auto split: option.splits event.splits)

lemma bundle_step:
  "a_bundle (a_step e a) i = Some c \<Longrightarrow>
     (case e of Install j c' \<Rightarrow> if j = i then c = c' else a_bundle a i = Some c | _ \<Rightarrow> a_bundle a i = Some c)"
  by (cases e) (auto simp: spec_defs Let_def split: if_splits option.splits)

lemma bundle_is_last_installed:
  "a_bundle (a_run es a_empty) i = Some c \<Longrightarrow> last_installed es i = Some c"
proof (induction es arbitrary: c rule: rev_induct)
  case Nil
  then show ?case by (simp add: a_empty_def)
next
  case (snoc e es)
  then have "a_bundle (a_step e (a_run es a_empty)) i = Some c" by (simp add: a_run_append)
  from bundle_step [OF this] snoc.IH show ?case
    by (auto simp: last_installed_snoc split: event.splits if_splits)
qed

text \<open>Which releases the current one can be: one that was installed.\<close>

lemma current_kept: "a_inv a \<Longrightarrow> a_current a = Some i \<Longrightarrow> \<exists>c. a_bundle a i = Some c"
  by (auto simp: a_inv_def kept_def dom_def)

text \<open>
  What a kill during an installation leaves boots the release that would have booted without it or the current one,
  with the bundle it had, or the new one, whole. Only when the release that would have booted is installed
  again, there is a moment without its bundle.
\<close>

lemma process_crash_sel:
  "a_current (a_process_crash x) = (if a_crash x = Some True \<and> a_previous x \<noteq> None then a_previous x else a_current x)"
  "a_bundle (a_process_crash x) = a_bundle x"
  by (auto simp: a_process_crash_def a_rollback_def rollback_state_def Let_def split: option.splits)

lemma stage_boots:
  assumes "install_stage i c a x" and "a_inv a"
  defines "y \<equiv> a_process_crash x" and "z \<equiv> a_process_crash a"
  shows "(a_boot y = a_current a \<or> a_boot y = a_current z) \<and> (\<forall>j. a_boot y = Some j \<longrightarrow> a_bundle y j = a_bundle a j)
    \<or> a_boot y = Some i \<and> a_bundle y i = Some c \<or> a_boot y = None \<and> a_current z = Some i"
proof -
  have a: "a_boot a = a_current a" "a_boot z = a_current z" "a_current a = None \<Longrightarrow> a_previous a = None"
    using assms(2) a_inv_boot [OF assms(2)] a_inv_boot [OF a_inv_step [OF assms(2), of Boot]] by (simp_all add: a_inv_def z_def)
  have zb: "a_bundle z = a_bundle a" and yb: "a_bundle y = a_bundle x" by (simp_all add: z_def y_def process_crash_sel)
  consider (before) "a_state x = a_state a" "a_crash x = a_crash a" "\<forall>j. j \<noteq> i \<longrightarrow> a_bundle x j = a_bundle a j"
      "a_bundle x i \<in> {a_bundle a i, None, Some c}"
    | (after) "a_state x = install_state i (a_state a)" "a_crash x = a_crash a" "a_bundle x i = Some c"
      "\<forall>j. j \<noteq> i \<longrightarrow> a_current a = Some j \<longrightarrow> a_bundle x j = a_bundle a j"
  proof -
    from assms(1) consider "x \<in> {a, a\<lparr>a_bundle := (a_bundle a)(i := None)\<rparr>, a\<lparr>a_bundle := (a_bundle a)(i \<mapsto> c)\<rparr>}"
      | "x = a\<lparr>a_bundle := (a_bundle a)(i \<mapsto> c), a_state := install_state i (a_state a)\<rparr>"
      | bs where "pruned ({i} \<union> set_option (a_current a)) ((a_bundle a)(i \<mapsto> c)) bs"
          "x = a\<lparr>a_bundle := bs, a_state := install_state i (a_state a), a_mounted := False\<rparr>"
      by (auto simp: install_stage_def)
    then show ?thesis
    proof cases
      case 1
      then show ?thesis by (intro before) auto
    next
      case 2
      then show ?thesis by (intro after) auto
    next
      case (3 bs)
      have "bs i = Some c" using 3(1) [unfolded pruned_def, rule_format, of i] by simp
      moreover have "bs j = a_bundle a j" if "j \<noteq> i" "a_current a = Some j" for j
        using 3(1) [unfolded pruned_def, rule_format, of j] that by auto
      ultimately show ?thesis using 3(2) by (intro after) auto
    qed
  qed
  then show ?thesis
  proof cases
    case before
    then have cur: "a_current y = a_current z" unfolding y_def z_def process_crash_sel by auto
    show ?thesis
    proof (cases "a_current z = Some i")
      case True
      then have "a_boot y = (if a_bundle x i = None then None else Some i)" by (simp add: a_boot_def cur yb)
      with True before(4) show ?thesis by (auto simp: yb)
    next
      case False
      then have "a_boot y = a_boot z" using before(3) by (cases "a_current z") (auto simp: a_boot_def cur yb zb)
      with a(2) False before(3) show ?thesis by (auto simp: yb)
    qed
  next
    case after
    then have cur: "a_current y = (if a_crash a = Some True \<and> a_current a \<noteq> None then a_current a else Some i)"
      unfolding y_def process_crash_sel by (auto simp: install_state_def)
    show ?thesis
    proof (cases "a_current y = Some i")
      case True
      with after(3) show ?thesis by (simp add: a_boot_def yb)
    next
      case False
      then obtain j where j: "a_current a = Some j" "a_current y = Some j" "j \<noteq> i" using cur by (auto split: if_splits)
      then have "a_bundle x j = a_bundle a j" "a_bundle a j \<noteq> None"
        using after(4) current_kept [OF assms(2)] by auto
      with j show ?thesis by (auto simp: a_boot_def yb)
    qed
  qed
qed

end
