(* ===== verification/JsonText.thy ===== *)
theory JsonText
  imports CrashHandler
begin

text \<open>
  JSON values and the JSON libraries of the platforms (\<open>org.json\<close>, Foundation), which are not part
  of the repository: a library is a printer, a parser and Java's \<open>String.valueOf\<close>, and \<open>json_ok\<close> is the
  documented behaviour the storage relies on. The second half defines a small library that has this
  behaviour, so that results which assume it can be applied.
\<close>

section \<open>Values and libraries\<close>

datatype json =
    JNull
  | JBool bool
  | JNum int
  | JStr string
  | JObj "(string \<times> json) list"

record json_lib =
  jprint :: "json \<Rightarrow> string"
  jparse :: "string \<Rightarrow> json option"
  value_of :: "json \<Rightarrow> string"

text \<open>The objects the storage prints: distinct keys, string members.\<close>

definition flat_object :: "(string \<times> json) list \<Rightarrow> bool" where
  "flat_object kvs \<longleftrightarrow> distinct (map fst kvs) \<and> list_all (\<lambda>(_, v). case v of JStr _ \<Rightarrow> True | _ \<Rightarrow> False) kvs"

text \<open>
  Printing and parsing such an object gives its members back, in some order; the text of the crash
  marker parses to its two members; a marker text cut short is no JSON value.
\<close>

definition json_ok :: "json_lib \<Rightarrow> bool" where
  "json_ok J \<longleftrightarrow>
     (\<forall>kvs. flat_object kvs \<longrightarrow> (\<exists>m. jparse J (jprint J (JObj kvs)) = Some (JObj m) \<and> map_of m = map_of kvs))
     \<and> (\<forall>n b. \<exists>m. jparse J (marker_json n b) = Some (JObj m)
           \<and> map_of m = [''signal'' \<mapsto> JNum n, ''isAutoRollback'' \<mapsto> JBool b])
     \<and> (\<forall>n b k. k < length (marker_json n b) \<longrightarrow> jparse J (take k (marker_json n b)) = None)"

lemma json_ok_print:
  assumes "json_ok J" and "flat_object kvs"
  obtains m where "jparse J (jprint J (JObj kvs)) = Some (JObj m)" and "map_of m = map_of kvs"
  using assms by (auto simp: json_ok_def)

lemma json_ok_marker:
  assumes "json_ok J"
  obtains m where "jparse J (marker_json n b) = Some (JObj m)"
    and "map_of m = [''signal'' \<mapsto> JNum n, ''isAutoRollback'' \<mapsto> JBool b]"
  using assms unfolding json_ok_def by blast

lemma json_ok_cut:
  "json_ok J \<Longrightarrow> k < length (marker_json n b) \<Longrightarrow> jparse J (take k (marker_json n b)) = None"
  by (simp add: json_ok_def)

section \<open>A library with this behaviour\<close>

abbreviation bslash :: char where "bslash \<equiv> CHR 0x5C"
abbreviation dquote :: char where "dquote \<equiv> CHR 0x22"

fun escape :: "string \<Rightarrow> string" where
  "escape [] = []"
| "escape (c # s) = (if c = dquote \<or> c = bslash then bslash # c # escape s else c # escape s)"

fun pchars :: "string \<Rightarrow> (string \<times> string) option" where
  "pchars [] = None"
| "pchars (c # s) =
     (if c = dquote then Some ([], s)
      else if c = bslash
      then (case s of [] \<Rightarrow> None | x # s' \<Rightarrow> map_option (\<lambda>(a, r). (x # a, r)) (pchars s'))
      else map_option (\<lambda>(a, r). (c # a, r)) (pchars s))"

definition expect :: "char \<Rightarrow> string \<Rightarrow> string option" where
  "expect c s = (case s of [] \<Rightarrow> None | x # r \<Rightarrow> if x = c then Some r else None)"

definition pstring :: "string \<Rightarrow> (string \<times> string) option" where
  "pstring s = Option.bind (expect dquote s) pchars"

definition digit_value :: "char \<Rightarrow> nat" where
  "digit_value c = of_char c - 48"

definition read_nat :: "string \<Rightarrow> nat" where
  "read_nat ds = foldl (\<lambda>a c. 10 * a + digit_value c) 0 ds"

definition pvalue :: "string \<Rightarrow> (json \<times> string) option" where
  "pvalue s =
     (if take 1 s = [dquote] then map_option (\<lambda>(a, r). (JStr a, r)) (pstring s)
      else if take 4 s = ''true'' then Some (JBool True, drop 4 s)
      else if take 5 s = ''false'' then Some (JBool False, drop 5 s)
      else if take 1 s = ''-''
      then Some (JNum (- int (read_nat (takeWhile (\<lambda>c. c \<in> digit_set) (drop 1 s)))),
                 dropWhile (\<lambda>c. c \<in> digit_set) (drop 1 s))
      else if takeWhile (\<lambda>c. c \<in> digit_set) s \<noteq> []
      then Some (JNum (int (read_nat (takeWhile (\<lambda>c. c \<in> digit_set) s))), dropWhile (\<lambda>c. c \<in> digit_set) s)
      else None)"

fun pmembers :: "nat \<Rightarrow> string \<Rightarrow> ((string \<times> json) list \<times> string) option" where
  "pmembers 0 s = None"
| "pmembers (Suc fuel) s =
     Option.bind (pstring s) (\<lambda>(k, r).
     Option.bind (expect (CHR '':'') r) (\<lambda>r1.
     Option.bind (pvalue r1) (\<lambda>(v, r2).
       case expect (CHR '','') r2 of
         Some r3 \<Rightarrow> map_option (\<lambda>(kvs, r'). ((k, v) # kvs, r')) (pmembers fuel r3)
       | None \<Rightarrow> map_option (\<lambda>r3. ([(k, v)], r3)) (expect (CHR ''}'') r2))))"

definition sample_parse :: "string \<Rightarrow> json option" where
  "sample_parse s =
     (if s = [] \<or> last s \<noteq> CHR ''}'' then None
      else if s = ''{}'' then Some (JObj [])
      else Option.bind (expect (CHR ''{'') s) (\<lambda>r.
        case pmembers (length r) r of Some (kvs, []) \<Rightarrow> Some (JObj kvs) | _ \<Rightarrow> None))"

fun pr_string :: "string \<Rightarrow> string" where
  "pr_string s = dquote # escape s @ [dquote]"

fun pr_members :: "(string \<times> json) list \<Rightarrow> string" where
  "pr_members [] = []"
| "pr_members [(k, JStr v)] = pr_string k @ CHR '':'' # pr_string v"
| "pr_members ((k, JStr v) # kvs) = pr_string k @ CHR '':'' # pr_string v @ CHR '','' # pr_members kvs"
| "pr_members (_ # kvs) = pr_members kvs"

definition sample_print :: "json \<Rightarrow> string" where
  "sample_print j = (case j of JObj kvs \<Rightarrow> CHR ''{'' # pr_members kvs @ ''}'' | _ \<Rightarrow> ''null'')"

definition sample_json :: json_lib where
  "sample_json = \<lparr>jprint = sample_print, jparse = sample_parse, value_of = (\<lambda>_. [])\<rparr>"

lemma pchars_escape: "pchars (escape s @ dquote # r) = Some (s, r)"
  by (induction s) auto

lemma pstring_pr: "pstring (pr_string s @ r) = Some (s, r)"
  by (simp add: pstring_def expect_def pchars_escape)

lemma pvalue_str: "pvalue (pr_string v @ r) = Some (JStr v, r)"
  using pstring_pr [of v r] by (simp add: pvalue_def)

lemma pmembers_pr:
  assumes "list_all (\<lambda>(_, v). case v of JStr _ \<Rightarrow> True | _ \<Rightarrow> False) kvs" and "kvs \<noteq> []"
    and "length kvs \<le> fuel"
  shows "pmembers fuel (pr_members kvs @ ''}'') = Some (kvs, [])"
  using assms
proof (induction kvs arbitrary: fuel rule: pr_members.induct)
  case (2 k v)
  then obtain f where "fuel = Suc f" by (cases fuel) auto
  then show ?case
    using pstring_pr [of k "CHR '':'' # pr_string v @ ''}''"] pvalue_str [of v "''}''"]
    by (simp add: expect_def del: pr_string.simps)
next
  case (3 k v kv kvs)
  then obtain f where f: "fuel = Suc f" by (cases fuel) auto
  from 3 f have "pmembers f (pr_members (kv # kvs) @ ''}'') = Some (kv # kvs, [])" by simp
  then show ?case
    using f pstring_pr [of k "CHR '':'' # pr_string v @ CHR '','' # pr_members (kv # kvs) @ ''}''"]
      pvalue_str [of v "CHR '','' # pr_members (kv # kvs) @ ''}''"]
    by (simp add: expect_def del: pr_string.simps)
qed auto

lemma length_pr_members:
  "list_all (\<lambda>(_, v). case v of JStr _ \<Rightarrow> True | _ \<Rightarrow> False) kvs \<Longrightarrow> length kvs \<le> length (pr_members kvs)"
  by (induction kvs rule: pr_members.induct) auto

lemma sample_print_parse: "flat_object kvs \<Longrightarrow> sample_parse (sample_print (JObj kvs)) = Some (JObj kvs)"
proof (cases "kvs = []")
  case False
  assume fl: "flat_object kvs"
  then have all: "list_all (\<lambda>(_, v). case v of JStr _ \<Rightarrow> True | _ \<Rightarrow> False) kvs"
    by (simp add: flat_object_def)
  from False length_pr_members [OF all] have ne: "pr_members kvs \<noteq> []" by auto
  have "pmembers (length (pr_members kvs @ ''}'')) (pr_members kvs @ ''}'') = Some (kvs, [])"
    using all False length_pr_members [OF all] by (intro pmembers_pr) simp_all
  with ne show ?thesis by (simp add: sample_parse_def sample_print_def expect_def)
qed (simp add: sample_print_def sample_parse_def)

subsection \<open>It reads the marker\<close>

lemma digit_values: "list_all (\<lambda>d. digit_value (digit_char d) = d) [0..<10]"
  by code_simp

lemma digit_value_char: "d < 10 \<Longrightarrow> digit_value (digit_char d) = d"
  using digit_values by (simp add: list_all_iff)

lemma read_show_nat: "read_nat (show_nat n) = n"
proof (induction n rule: show_nat.induct)
  case (1 n)
  show ?case
  proof (cases "n < 10")
    case True
    then show ?thesis by (subst show_nat.simps) (simp add: read_nat_def digit_value_char)
  next
    case False
    with "1.IH" have "foldl (\<lambda>a c. 10 * a + digit_value c) 0 (show_nat (n div 10)) = n div 10"
      by (simp add: read_nat_def)
    with False show ?thesis by (subst show_nat.simps) (simp add: read_nat_def digit_value_char)
  qed
qed

lemma digits_prefix:
  assumes "c \<notin> digit_set"
  shows "takeWhile (\<lambda>c. c \<in> digit_set) (show_nat n @ c # r) = show_nat n"
    "dropWhile (\<lambda>c. c \<in> digit_set) (show_nat n @ c # r) = c # r"
  using set_show_nat [of n] assms by (auto simp: takeWhile_append2 dropWhile_append2 subset_iff)

lemma comma_not_digit: "CHR '','' \<notin> digit_set" "dquote \<notin> digit_set" "CHR ''-'' \<notin> digit_set"
  "CHR ''t'' \<notin> digit_set" "CHR ''f'' \<notin> digit_set"
  by (simp_all add: digit_set_def)

lemma show_nat_head: "\<exists>c r. show_nat n = c # r \<and> c \<in> digit_set"
  using length_show_nat_pos [of n] set_show_nat [of n] by (cases "show_nat n") auto

lemma pvalue_int: "pvalue (show_int i @ CHR '','' # r) = Some (JNum i, CHR '','' # r)"
proof (cases "i < 0")
  case True
  then show ?thesis
    by (simp add: pvalue_def show_int_def digits_prefix comma_not_digit read_show_nat)
next
  case False
  obtain c s where s: "show_nat (nat i) = c # s" and c: "c \<in> digit_set"
    using show_nat_head [of "nat i"] by blast
  from c have ne: "c \<noteq> dquote" "c \<noteq> CHR ''t''" "c \<noteq> CHR ''f''" "c \<noteq> CHR ''-''"
    using comma_not_digit by auto
  note d = digits_prefix [OF comma_not_digit(1), of "nat i" r]
  have "pvalue (show_nat (nat i) @ CHR '','' # r)
      = Some (JNum (int (read_nat (show_nat (nat i)))), CHR '','' # r)"
    using d ne s by (simp add: pvalue_def)
  with False show ?thesis by (simp add: show_int_def read_show_nat)
qed

lemma pvalue_bool: "pvalue ((if b then ''true'' else ''false'') @ r) = Some (JBool b, r)"
  by (simp add: pvalue_def)

lemma quoted_pr: "quoted ''signal'' = pr_string ''signal''" "quoted ''isAutoRollback'' = pr_string ''isAutoRollback''"
  by (simp_all add: quoted_def)

lemma sample_parse_marker:
  "sample_parse (marker_json n b) = Some (JObj [(''signal'', JNum n), (''isAutoRollback'', JBool b)])"
proof -
  let ?bool = "if b then ''true'' else ''false''"
  let ?tl = "pr_string ''isAutoRollback'' @ CHR '':'' # ?bool @ ''}''"
  let ?body = "pr_string ''signal'' @ CHR '':'' # show_int n @ CHR '','' # ?tl"
  have m: "marker_json n b = CHR ''{'' # ?body" by (simp add: marker_json_def quoted_pr)
  have t: "pmembers (Suc k) ?tl = Some ([(''isAutoRollback'', JBool b)], [])" for k
    using pstring_pr [of "''isAutoRollback''" "CHR '':'' # ?bool @ ''}''"] pvalue_bool [of b "''}''"]
    by (simp add: expect_def del: pr_string.simps)
  have "pmembers (Suc (Suc k)) ?body = Some ([(''signal'', JNum n), (''isAutoRollback'', JBool b)], [])" for k
    using pstring_pr [of "''signal''" "CHR '':'' # show_int n @ CHR '','' # ?tl"] pvalue_int [of n ?tl] t [of k]
    by (simp add: expect_def del: pr_string.simps pmembers.simps(2) add: pmembers.simps(2) [of "Suc k"])
  moreover obtain k where "length ?body = Suc (Suc k)" by simp
  ultimately show ?thesis by (simp add: sample_parse_def m expect_def del: pr_string.simps)
qed

lemma sample_parse_cut: "k < length (marker_json n b) \<Longrightarrow> sample_parse (take k (marker_json n b)) = None"
proof -
  assume k: "k < length (marker_json n b)"
  define body where "body = ''{'' @ quoted ''signal'' @ '':'' @ show_int n @ '','' @ quoted ''isAutoRollback'' @ '':''
       @ (if b then ''true'' else ''false'')"
  have m: "marker_json n b = body @ ''}''" by (simp add: marker_json_def body_def)
  have "CHR ''}'' \<notin> set (show_int n)"
    using set_show_int [of n] by (auto simp: digit_set_def)
  then have "CHR ''}'' \<notin> set body" by (simp add: body_def quoted_def)
  then have "CHR ''}'' \<notin> set (butlast (marker_json n b))" by (simp add: m)
  moreover have "set (take k (marker_json n b)) \<subseteq> set (butlast (marker_json n b))"
    using k by (simp only: butlast_conv_take) (rule set_take_subset_set_take, simp)
  ultimately have nb: "CHR ''}'' \<notin> set (take k (marker_json n b))" by blast
  show ?thesis
  proof (cases "take k (marker_json n b) = []")
    case True
    then show ?thesis by (simp only: sample_parse_def) simp
  next
    case False
    then have "last (take k (marker_json n b)) \<in> set (take k (marker_json n b))" by (rule last_in_set)
    with nb have "last (take k (marker_json n b)) \<noteq> CHR ''}''" by metis
    then show ?thesis by (simp only: sample_parse_def simp_thms if_True)
  qed
qed

lemma sample_json_ok [simp]: "json_ok sample_json"
  by (auto simp: json_ok_def sample_json_def sample_print_parse sample_parse_marker sample_parse_cut)

end
