(* ===== verification/KotlinStorage.thy ===== *)
theory KotlinStorage
  imports FileSystem ReleaseSpec JsonText
begin

text \<open>
  The Android storage, \<open>SalvePushStorage.kt\<close>, with the state class \<open>SalvePushState.kt\<close> and the helper
  \<open>JSONObject+optNullableString.kt\<close>. The context is represented by \<open>filesDir\<close>, the directory
  \<open>Context.getFilesDir()\<close> names. A method is a computation on the disk that may throw; results that the
  source drops (\<open>mkdirs\<close>, \<open>delete\<close>, \<open>renameTo\<close>) are dropped here.
\<close>

section \<open>java.io.File and org.json\<close>

datatype kexn = IOException | JSONException

type_synonym 'a kio = "(disk, kexn, 'a) action"

text \<open>\<open>File(parent, child)\<close>.\<close>

definition file_child :: "path \<Rightarrow> string \<Rightarrow> path" where
  "file_child dir name = dir @ comps name"

definition ignored :: "(disk \<Rightarrow> bool \<times> disk) \<Rightarrow> unit kio" where
  "ignored op d = (Inr (), snd (op d))"

definition readText :: "path \<Rightarrow> string kio" where
  "readText p d = (case read_file p d of None \<Rightarrow> (Inl IOException, d) | Some t \<Rightarrow> (Inr t, d))"

text \<open>\<open>writeText\<close> and \<open>writeBytes\<close>.\<close>

definition writeText :: "path \<Rightarrow> string \<Rightarrow> unit kio" where
  "writeText p c d = (case write_file p c d of (ok, d') \<Rightarrow> (if ok then Inr () else Inl IOException, d'))"

definition createNewFile :: "path \<Rightarrow> unit kio" where
  "createNewFile p d = (if path_exists p d then (Inr (), d) else writeText p [] d)"

text \<open>\<open>JSONObject.put\<close>: a null value removes the name, a known name keeps its place.\<close>

fun json_put :: "string \<Rightarrow> string option \<Rightarrow> (string \<times> json) list \<Rightarrow> (string \<times> json) list" where
  "json_put k None obj = filter (\<lambda>(k', _). k' \<noteq> k) obj"
| "json_put k (Some s) obj =
     (if k \<in> fst ` set obj then map (\<lambda>(k', v). if k' = k then (k', JStr s) else (k', v)) obj
      else obj @ [(k, JStr s)])"

text \<open>\<open>JSONObject(raw)\<close>: text that is no object throws.\<close>

definition json_object :: "json_lib \<Rightarrow> string \<Rightarrow> (string \<times> json) list kio" where
  "json_object J raw = (case jparse J raw of Some (JObj m) \<Rightarrow> ret m | _ \<Rightarrow> throw JSONException)"

text \<open>\<open>getString\<close>, \<open>optString\<close> and \<open>optBoolean\<close> with their conversions.\<close>

definition as_string :: "json_lib \<Rightarrow> json \<Rightarrow> string" where
  "as_string J v = (case v of JStr s \<Rightarrow> s | _ \<Rightarrow> value_of J v)"

definition optString :: "json_lib \<Rightarrow> (string \<times> json) list \<Rightarrow> string \<Rightarrow> string \<Rightarrow> string" where
  "optString J m k fallback = (case map_of m k of None \<Rightarrow> fallback | Some v \<Rightarrow> as_string J v)"

definition lower :: "char \<Rightarrow> char" where
  "lower c = (if 65 \<le> (of_char c :: nat) \<and> (of_char c :: nat) \<le> 90 then char_of ((of_char c :: nat) + 32) else c)"

definition optBoolean :: "(string \<times> json) list \<Rightarrow> string \<Rightarrow> bool \<Rightarrow> bool" where
  "optBoolean m k fallback =
     (case map_of m k of
        Some (JBool b) \<Rightarrow> b
      | Some (JStr s) \<Rightarrow>
          (if map lower s = ''true'' then True else if map lower s = ''false'' then False else fallback)
      | _ \<Rightarrow> fallback)"

section \<open>The pointer state\<close>

definition optNullableString :: "json_lib \<Rightarrow> (string \<times> json) list \<Rightarrow> string \<Rightarrow> string option" where
  "optNullableString J m k =
     (case map_of m k of None \<Rightarrow> None | Some JNull \<Rightarrow> None | Some v \<Rightarrow> Some (as_string J v))"

definition toJson :: "json_lib \<Rightarrow> pstate \<Rightarrow> string" where
  "toJson J s =
     jprint J (JObj (json_put ''bootStatus'' (Some (bootStatus s))
       (json_put ''previousReleaseId'' (previousReleaseId s)
         (json_put ''currentReleaseId'' (currentReleaseId s) []))))"

definition fromJson :: "json_lib \<Rightarrow> string \<Rightarrow> pstate kio" where
  "fromJson J raw =
     bind_io (json_object J raw) (\<lambda>json.
       ret \<lparr>currentReleaseId = optNullableString J json ''currentReleaseId'',
            previousReleaseId = optNullableString J json ''previousReleaseId'',
            bootStatus = optString J json ''bootStatus'' ''confirmed''\<rparr>)"

section \<open>Paths\<close>

definition kt_baseDirectory :: "path \<Rightarrow> path kio" where
  "kt_baseDirectory filesDir =
     (let dir = file_child filesDir ''salve-push'' in then_io (ignored (mkdirs dir)) (ret dir))"

definition kt_releasesDirectory :: "path \<Rightarrow> path kio" where
  "kt_releasesDirectory filesDir =
     bind_io (kt_baseDirectory filesDir) (\<lambda>base.
       let dir = file_child base ''releases'' in then_io (ignored (mkdirs dir)) (ret dir))"

definition kt_bundlePath :: "path \<Rightarrow> string \<Rightarrow> path kio" where
  "kt_bundlePath filesDir releaseId =
     bind_io (kt_releasesDirectory filesDir) (\<lambda>dir.
       ret (file_child (file_child dir releaseId) ''bundle.js''))"

definition kt_statePath :: "path \<Rightarrow> path kio" where
  "kt_statePath filesDir = bind_io (kt_baseDirectory filesDir) (\<lambda>base. ret (file_child base ''state.json''))"

definition kt_mountMarkerPath :: "path \<Rightarrow> path kio" where
  "kt_mountMarkerPath filesDir = bind_io (kt_baseDirectory filesDir) (\<lambda>base. ret (file_child base ''mount.marker''))"

definition kt_crashMarkerPath :: "path \<Rightarrow> path kio" where
  "kt_crashMarkerPath filesDir = bind_io (kt_baseDirectory filesDir) (\<lambda>base. ret (file_child base ''crash.marker''))"

section \<open>State and markers\<close>

definition kt_readState :: "json_lib \<Rightarrow> path \<Rightarrow> pstate kio" where
  "kt_readState J filesDir =
     catch_io
       (bind_io (kt_statePath filesDir) (\<lambda>p. bind_io (readText p) (fromJson J)))
       (\<lambda>_. ret confirmedEmpty)"

definition kt_writeState :: "json_lib \<Rightarrow> path \<Rightarrow> pstate \<Rightarrow> unit kio" where
  "kt_writeState J filesDir state =
     bind_io (kt_baseDirectory filesDir) (\<lambda>base.
       let tmp = file_child base ''state.json.tmp'' in
       then_io (writeText tmp (toJson J state))
         (bind_io (kt_statePath filesDir) (\<lambda>p. ignored (rename_file tmp p))))"

definition kt_markMounted :: "path \<Rightarrow> unit kio" where
  "kt_markMounted filesDir = bind_io (kt_mountMarkerPath filesDir) createNewFile"

definition kt_clearMountedMarker :: "path \<Rightarrow> unit kio" where
  "kt_clearMountedMarker filesDir = bind_io (kt_mountMarkerPath filesDir) (\<lambda>p. ignored (delete_file p))"

definition kt_isMounted :: "path \<Rightarrow> bool kio" where
  "kt_isMounted filesDir = bind_io (kt_mountMarkerPath filesDir) (\<lambda>p d. (Inr (path_exists p d), d))"

section \<open>Operations\<close>

definition kt_pruneOldReleases :: "path \<Rightarrow> string list \<Rightarrow> unit kio" where
  "kt_pruneOldReleases filesDir keep =
     bind_io (kt_releasesDirectory filesDir) (\<lambda>dir d.
       case list_files dir d of None \<Rightarrow> (Inr (), d) | Some names \<Rightarrow> (Inr (), prune_entries keep dir names d))"

definition kt_place_bundle :: "path \<Rightarrow> string \<Rightarrow> string \<Rightarrow> unit kio" where
  "kt_place_bundle filesDir releaseId bundle =
     bind_io (kt_releasesDirectory filesDir) (\<lambda>releases.
       let releaseDir = file_child releases releaseId;
           finalFile = file_child releaseDir ''bundle.js'';
           tempFile = file_child releaseDir ''bundle.js.tmp''
       in then_io (ignored (mkdirs releaseDir))
           (then_io (writeText tempFile bundle)
             (then_io (\<lambda>d. if path_exists finalFile d then ignored (delete_file finalFile) d else ret () d)
               (ignored (rename_file tempFile finalFile)))))"

definition kt_installUpdate :: "json_lib \<Rightarrow> path \<Rightarrow> string \<Rightarrow> string \<Rightarrow> unit kio" where
  "kt_installUpdate J filesDir releaseId bundle =
     then_io (kt_place_bundle filesDir releaseId bundle)
       (bind_io (kt_readState J filesDir) (\<lambda>previousState.
          let previous = currentReleaseId previousState in
          then_io
            (kt_writeState J filesDir (previousState\<lparr>previousReleaseId := previous,
               currentReleaseId := Some releaseId, bootStatus := ''pending''\<rparr>))
            (then_io (kt_clearMountedMarker filesDir)
              (kt_pruneOldReleases filesDir
                (releaseId # (case previous of None \<Rightarrow> [] | Some p \<Rightarrow> [p]))))))"

definition kt_confirmBoot :: "json_lib \<Rightarrow> path \<Rightarrow> unit kio" where
  "kt_confirmBoot J filesDir =
     then_io (kt_markMounted filesDir)
       (bind_io (kt_readState J filesDir) (\<lambda>s. kt_writeState J filesDir (s\<lparr>bootStatus := ''confirmed''\<rparr>)))"

definition kt_getCurrentReleaseId :: "json_lib \<Rightarrow> path \<Rightarrow> string kio" where
  "kt_getCurrentReleaseId J filesDir =
     bind_io (kt_readState J filesDir) (\<lambda>s. ret (case currentReleaseId s of None \<Rightarrow> [] | Some i \<Rightarrow> i))"

definition kt_rollbackToPrevious :: "json_lib \<Rightarrow> path \<Rightarrow> unit kio" where
  "kt_rollbackToPrevious J filesDir =
     bind_io (kt_readState J filesDir) (\<lambda>state.
       case previousReleaseId state of
         None \<Rightarrow> ret ()
       | Some previous \<Rightarrow>
           then_io
             (kt_writeState J filesDir (state\<lparr>currentReleaseId := Some previous,
                previousReleaseId := None, bootStatus := ''confirmed''\<rparr>))
             (kt_markMounted filesDir))"

definition kt_rollbackToPreviousIfUnconfirmed :: "json_lib \<Rightarrow> path \<Rightarrow> unit kio" where
  "kt_rollbackToPreviousIfUnconfirmed J filesDir =
     bind_io (kt_isMounted filesDir) (\<lambda>mounted.
       if \<not> mounted then kt_rollbackToPrevious J filesDir else ret ())"

definition kt_processCrashMarkerIfPresent :: "json_lib \<Rightarrow> path \<Rightarrow> unit kio" where
  "kt_processCrashMarkerIfPresent J filesDir =
     bind_io (kt_crashMarkerPath filesDir) (\<lambda>marker d.
       if \<not> path_exists marker d then ret () d
       else bind_io (try_opt (bind_io (readText marker) (json_object J))) (\<lambda>content.
              then_io (ignored (delete_file marker))
                (if (case content of None \<Rightarrow> False | Some m \<Rightarrow> optBoolean m ''isAutoRollback'' False)
                 then kt_rollbackToPrevious J filesDir else ret ())) d)"

definition kt_resolveBundlePath :: "json_lib \<Rightarrow> path \<Rightarrow> string option kio" where
  "kt_resolveBundlePath J filesDir =
     then_io (kt_processCrashMarkerIfPresent J filesDir)
       (bind_io (kt_readState J filesDir) (\<lambda>s.
          case currentReleaseId s of
            None \<Rightarrow> ret None
          | Some currentId \<Rightarrow>
              bind_io (kt_bundlePath filesDir currentId) (\<lambda>path d.
                (Inr (if path_exists path d then Some (path_str path) else None), d))))"

text \<open>\<open>SalvePushBundleResolver.resolveBundleFile\<close>.\<close>

definition kt_resolveBundleFile :: "json_lib \<Rightarrow> path \<Rightarrow> string option \<Rightarrow> string option kio" where
  "kt_resolveBundleFile J filesDir defaultBundleFile =
     bind_io (kt_resolveBundlePath J filesDir) (\<lambda>path.
       ret (case path of None \<Rightarrow> defaultBundleFile | Some p \<Rightarrow> Some p))"

end
