(* ===== verification/StoreView.thy ===== *)
theory StoreView
  imports FileSystem
begin

text \<open>
  The storage proofs look at a disk through its view: the map from simple paths to nodes. For a disk on
  which nothing is denied and the device never runs full, each operation of the file libraries is an
  update of the view; \<open>chg Q d u d'\<close> says that \<open>d'\<close> is such a disk with view \<open>u\<close>, and that every file
  system state passed through on the way from \<open>d\<close> satisfies \<open>Q\<close>, so that a kill of the process
  between two calls leaves a state in \<open>Q\<close>.
\<close>

named_theorems view_simps \<open>reading a view after an update\<close>

type_synonym view = "path \<Rightarrow> node option"

section \<open>Views\<close>

definition fview :: "fs \<Rightarrow> view" where
  "fview f r = (if simple_path r then fget f r else None)"

abbreviation dview :: "disk \<Rightarrow> view" where
  "dview d \<equiv> fview (d_fs d)"

text \<open>Every node but the root lies in a directory.\<close>

definition tree :: "view \<Rightarrow> bool" where
  "tree v \<longleftrightarrow> (\<forall>p. p \<noteq> [] \<longrightarrow> v p \<noteq> None \<longrightarrow> v (butlast p) = Some Dir)"

definition good :: "disk \<Rightarrow> bool" where
  "good d \<longleftrightarrow> healthy d \<and> tree (dview d)"

lemma good_healthy [simp]: "good d \<Longrightarrow> healthy d"
  by (simp add: good_def)

lemma good_tree: "good d \<Longrightarrow> tree (dview d)"
  by (simp add: good_def)

lemma treeD: "tree v \<Longrightarrow> v p \<noteq> None \<Longrightarrow> p \<noteq> [] \<Longrightarrow> v (butlast p) = Some Dir"
  by (simp add: tree_def)

lemma tree_prefix: "tree v \<Longrightarrow> v p \<noteq> None \<Longrightarrow> strict_prefix q p \<Longrightarrow> v q = Some Dir"
proof (induction p rule: rev_induct)
  case (snoc x p)
  from treeD [OF snoc.prems(1,2)] have "v p = Some Dir" by simp
  with snoc show ?case by (cases "q = p") (auto simp: strict_prefix_def)
qed simp

lemma tree_file: "tree v \<Longrightarrow> v p = Some (File c) \<Longrightarrow> strict_prefix p q \<Longrightarrow> v q = None"
  using tree_prefix [of v q p] by (cases "v q") auto

lemma fview_root [simp]: "fview f [] = Some Dir"
  by (simp add: fview_def fget_def norm_def)

lemma fview_simple: "simple_path p \<Longrightarrow> fget f p = fview f p"
  by (simp add: fview_def)

lemma fview_None [simp]: "\<not> simple_path p \<Longrightarrow> fview f p = None"
  by (simp add: fview_def)

lemma fview_fput [view_simps]:
  "simple_path p \<Longrightarrow> p \<noteq> [] \<Longrightarrow> fview (fput p n f) = (fview f)(p \<mapsto> n)"
  by (rule ext) (simp add: fview_def fs_simps norm_simple)

lemma fview_fdel [view_simps]:
  "simple_path p \<Longrightarrow> p \<noteq> [] \<Longrightarrow> fview (fdel p f) = (fview f)(p := None)"
  by (rule ext) (simp add: fview_def fs_simps norm_simple)

lemma fview_filter:
  "fview (filter (\<lambda>(k, _). P k) f) = (\<lambda>q. if q = [] \<or> P q then fview f q else None)"
  by (rule ext) (auto simp: fview_def fget_def norm_simple map_of_filter_key)

lemma simple_butlast: "simple_path p \<Longrightarrow> simple_path (butlast p)"
  by (auto simp: list_all_iff dest: in_set_butlastD)

lemma simple_prefix: "simple_path p \<Longrightarrow> prefix q p \<Longrightarrow> simple_path q"
  by (auto simp: prefix_def)

lemma parent_view: "simple_path p \<Longrightarrow> parent_is_dir d p \<longleftrightarrow> dview d (butlast p) = Some Dir"
  by (simp add: parent_is_dir_def norm_simple fview_simple simple_butlast)

lemma fnames_view:
  "simple_path p \<Longrightarrow> n \<in> set (fnames p f) \<longleftrightarrow> fview f (p @ [n]) \<noteq> None"
  by (auto simp: set_fnames norm_simple fview_def fget_def)

lemma read_view:
  "good d \<Longrightarrow> simple_path p \<Longrightarrow>
     read_file p d = (case dview d p of Some (File c) \<Rightarrow> Some c | _ \<Rightarrow> None)"
  by (simp add: read_file_def fview_simple)

lemma exists_view: "simple_path p \<Longrightarrow> path_exists p d \<longleftrightarrow> dview d p \<noteq> None"
  by (simp add: path_exists_def fview_simple)

section \<open>Tracked changes\<close>

definition via :: "(view \<Rightarrow> bool) \<Rightarrow> disk \<Rightarrow> disk \<Rightarrow> bool" where
  "via Q d d' \<longleftrightarrow> (\<exists>fs. d_hist d' = d_hist d @ fs \<and> (\<forall>f \<in> set fs. Q (fview f)))"

definition chg :: "(view \<Rightarrow> bool) \<Rightarrow> disk \<Rightarrow> view \<Rightarrow> disk \<Rightarrow> bool" where
  "chg Q d u d' \<longleftrightarrow> good d' \<and> dview d' = u \<and> via Q d d'"

lemma chgD [dest]: "chg Q d u d' \<Longrightarrow> good d'" "chg Q d u d' \<Longrightarrow> dview d' = u"
  "chg Q d u d' \<Longrightarrow> via Q d d'"
  by (simp_all add: chg_def)

lemma via_trans: "via Q d d1 \<Longrightarrow> via Q d1 d2 \<Longrightarrow> via Q d d2"
  by (fastforce simp: via_def)

lemma via_mono: "via Q d d' \<Longrightarrow> (\<And>v. Q v \<Longrightarrow> R v) \<Longrightarrow> via R d d'"
  by (auto simp: via_def)

lemma chg_mono: "chg Q d u d' \<Longrightarrow> (\<And>v. Q v \<Longrightarrow> R v) \<Longrightarrow> chg R d u d'"
  by (auto simp: chg_def intro: via_mono)

lemma chg_refl: "good d \<Longrightarrow> chg Q d (dview d) d"
  by (auto simp: chg_def via_def)

lemma chg_trans: "chg Q d u d1 \<Longrightarrow> chg Q d1 w d2 \<Longrightarrow> chg Q d w d2"
  by (auto simp: chg_def intro: via_trans)


lemma via_step: "Q (fview f) \<Longrightarrow> via Q d (set_fs f d)"
  by (auto simp: via_def)

lemma via_spend: "via Q d d' \<Longrightarrow> via Q d (spend n d')"
  by (simp add: via_def)

lemma good_step: "good d \<Longrightarrow> tree (fview f) \<Longrightarrow> good (set_fs f d)"
  by (simp add: good_def)

lemma good_spend: "good d \<Longrightarrow> good (spend n d)"
  by (simp add: good_def)

lemma tree_put:
  assumes "tree v" and "v (butlast p) = Some Dir" and "v p \<noteq> Some Dir \<or> n = Dir"
  shows "tree (v(p \<mapsto> n))"
  unfolding tree_def
proof (intro allI impI)
  fix q assume q: "q \<noteq> []" and e: "(v(p \<mapsto> n)) q \<noteq> None"
  show "(v(p \<mapsto> n)) (butlast q) = Some Dir"
  proof (cases "q = p")
    case True
    then show ?thesis using assms by (cases "butlast p = p") (auto simp: q)
  next
    case False
    with e have "v q \<noteq> None" by simp
    from treeD [OF assms(1) this q] assms(3) show ?thesis by auto
  qed
qed

lemma tree_del:
  assumes "tree v" and "v p = Some (File c)"
  shows "tree (v(p := None))"
  unfolding tree_def
proof (intro allI impI)
  fix q assume q: "q \<noteq> []" and e: "(v(p := None)) q \<noteq> None"
  then have "v q \<noteq> None" by (auto split: if_splits)
  from treeD [OF assms(1) this q] assms(2) show "(v(p := None)) (butlast q) = Some Dir" by auto
qed

lemma tree_del_tree:
  assumes "tree v"
  shows "tree (\<lambda>q. if prefix p q then None else v q)"
  unfolding tree_def
proof (intro allI impI)
  fix q assume q: "q \<noteq> []" and e: "(if prefix p q then None else v q) \<noteq> None"
  then have n: "\<not> prefix p q" and "v q \<noteq> None" by (auto split: if_splits)
  from treeD [OF assms this(2) q] have "v (butlast q) = Some Dir" .
  moreover have "\<not> prefix p (butlast q)" using n prefix_order.trans [OF _ prefixeq_butlast [of q]] by blast
  ultimately show "(if prefix p (butlast q) then None else v (butlast q)) = Some Dir" by simp
qed

section \<open>The operations as view updates\<close>

lemma chg_set_fs:
  assumes "good d" and "fview f = u" and "tree u" and "Q u"
  shows "chg Q d u (set_fs f d)"
  using assms by (auto simp: chg_def intro: good_step via_step)

lemma chg_spend: "chg Q d u d' \<Longrightarrow> chg Q d u (spend n d')"
  by (simp add: chg_def good_spend via_spend)

lemma write_view:
  assumes g: "good d" and p: "simple_path p" and par: "dview d (butlast p) = Some Dir"
    and nd: "dview d p \<noteq> Some Dir"
  obtains d' where "write_file p c d = (True, d')"
    and "chg (\<lambda>w. w = (dview d)(p \<mapsto> File []) \<or> w = (dview d)(p \<mapsto> File c)) d ((dview d)(p \<mapsto> File c)) d'"
proof -
  from nd have ne: "p \<noteq> []" by auto
  let ?Q = "\<lambda>w. w = (dview d)(p \<mapsto> File []) \<or> w = (dview d)(p \<mapsto> File c)"
  let ?f1 = "fput p (File []) (d_fs d)"
  let ?d1 = "set_fs ?f1 d"
  have v1: "fview ?f1 = (dview d)(p \<mapsto> File [])" by (simp add: fview_fput p ne)
  have v2: "fview (fput p (File c) ?f1) = (dview d)(p \<mapsto> File c)" by (simp add: fview_fput p ne v1)
  have t: "tree ((dview d)(p \<mapsto> File x))" for x by (rule tree_put [OF good_tree [OF g] par]) (simp add: nd)
  have c1: "chg ?Q d ((dview d)(p \<mapsto> File [])) ?d1" by (rule chg_set_fs [OF g v1 t]) simp
  have c2: "chg ?Q ?d1 ((dview d)(p \<mapsto> File c)) (set_fs (fput p (File c) ?f1) ?d1)"
    by (rule chg_set_fs [OF chgD(1) [OF c1] v2 t]) simp
  from that write_file_healthy [OF good_healthy [OF g]] chg_spend [OF chg_trans [OF c1 c2]] g par nd p
  show ?thesis by (simp add: parent_view fview_simple)
qed

lemma write_atomic_view:
  assumes g: "good d" and p: "simple_path p" and par: "dview d (butlast p) = Some Dir"
    and nd: "dview d p \<noteq> Some Dir"
  obtains d' where "write_file_atomic p c d = (True, d')"
    and "chg (\<lambda>w. w = (dview d)(p \<mapsto> File c)) d ((dview d)(p \<mapsto> File c)) d'"
proof -
  from nd have ne: "p \<noteq> []" by auto
  have t: "tree ((dview d)(p \<mapsto> File c))" by (rule tree_put [OF good_tree [OF g] par]) (simp add: nd)
  have "chg (\<lambda>w. w = (dview d)(p \<mapsto> File c)) d ((dview d)(p \<mapsto> File c)) (set_fs (fput p (File c) (d_fs d)) d)"
    by (rule chg_set_fs [OF g _ t]) (simp_all add: fview_fput p ne)
  from that write_file_atomic_healthy [OF good_healthy [OF g]] chg_spend [OF this] par nd p
  show ?thesis by (simp add: parent_view fview_simple)
qed

lemma rename_view:
  assumes g: "good d" and p: "simple_path p" and q: "simple_path q" and f: "dview d p = Some (File c)"
    and par: "dview d (butlast q) = Some Dir" and nd: "dview d q \<noteq> Some Dir"
  obtains d' where "rename_file p q d = (True, d')"
    and "chg (\<lambda>w. w = (dview d)(p := None, q \<mapsto> File c)) d ((dview d)(p := None, q \<mapsto> File c)) d'"
proof -
  from f nd have ne: "p \<noteq> []" "q \<noteq> []" by auto
  let ?u = "(dview d)(p := None, q \<mapsto> File c)"
  have "tree ((dview d)(p := None))" by (rule tree_del [OF good_tree [OF g] f])
  moreover have "((dview d)(p := None)) (butlast q) = Some Dir" using par f by auto
  ultimately have t: "tree ?u" by (rule tree_put) (use nd in simp)
  have "chg (\<lambda>w. w = ?u) d ?u (set_fs (fput q (File c) (fdel p (d_fs d))) d)"
    by (rule chg_set_fs [OF g _ t]) (simp_all add: fview_fput fview_fdel p q ne)
  with that show ?thesis
    using rename_file_healthy [OF good_healthy [OF g], of p c q] f par nd p q
    by (simp add: parent_view fview_simple)
qed

lemma delete_file_view:
  assumes g: "good d" and p: "simple_path p" and f: "dview d p = Some (File c)"
  obtains d' where "delete_file p d = (True, d')"
    and "chg (\<lambda>w. w = (dview d)(p := None)) d ((dview d)(p := None)) d'"
proof -
  from f have ne: "p \<noteq> []" by auto
  have "chg (\<lambda>w. w = (dview d)(p := None)) d ((dview d)(p := None)) (set_fs (fdel p (d_fs d)) d)"
    by (rule chg_set_fs [OF g _ tree_del [OF good_tree [OF g] f]]) (simp_all add: fview_fdel p ne)
  with that show ?thesis
    using g f p ne by (simp add: delete_file_def norm_simple fview_simple)
qed

text \<open>A recursive deletion passes through views that lack some of the entries below the path.\<close>

definition thinned :: "path \<Rightarrow> view \<Rightarrow> view \<Rightarrow> bool" where
  "thinned p v w \<longleftrightarrow> (\<forall>q. w q = v q \<or> prefix p q \<and> w q = None)"

lemma drop_entry_sel:
  "d_fs (drop_entry q d) = fdrop q (d_fs d)" "d_hist (drop_entry q d) = d_hist d @ [fdrop q (d_fs d)]"
  "healthy (drop_entry q d) = healthy d"
  by (simp_all add: drop_entry_def)

lemma drop_entries:
  assumes "healthy d"
  shows "healthy (fold drop_entry ks d)
    \<and> d_fs (fold drop_entry ks d) = filter (\<lambda>(k, _). k \<notin> set ks) (d_fs d)
    \<and> (\<exists>fs. d_hist (fold drop_entry ks d) = d_hist d @ fs
         \<and> (\<forall>f \<in> set fs. \<exists>K \<subseteq> set ks. f = filter (\<lambda>(k, _). k \<notin> K) (d_fs d)))"
  using assms
proof (induction ks rule: rev_induct)
  case (snoc q ks)
  from snoc obtain fs where h: "d_hist (fold drop_entry ks d) = d_hist d @ fs"
    and fs: "\<forall>f \<in> set fs. \<exists>K \<subseteq> set ks. f = filter (\<lambda>(k, _). k \<notin> K) (d_fs d)" by auto
  have f: "d_fs (fold drop_entry (ks @ [q]) d) = filter (\<lambda>(k, _). k \<notin> set (ks @ [q])) (d_fs d)"
    using snoc by (auto simp: drop_entry_sel fdrop_def intro!: filter_cong)
  have hist: "d_hist (fold drop_entry (ks @ [q]) d) = d_hist d @ fs @ [d_fs (fold drop_entry (ks @ [q]) d)]"
    using h by (simp add: drop_entry_sel)
  have "\<forall>g \<in> set (fs @ [d_fs (fold drop_entry (ks @ [q]) d)]).
      \<exists>K \<subseteq> set (ks @ [q]). g = filter (\<lambda>(k, _). k \<notin> K) (d_fs d)"
  proof
    fix g assume g: "g \<in> set (fs @ [d_fs (fold drop_entry (ks @ [q]) d)])"
    show "\<exists>K \<subseteq> set (ks @ [q]). g = filter (\<lambda>(k, _). k \<notin> K) (d_fs d)"
    proof (cases "g \<in> set fs")
      case True
      with fs obtain K where "K \<subseteq> set ks" and "g = filter (\<lambda>(k, _). k \<notin> K) (d_fs d)" by blast
      then show ?thesis by (intro exI [of _ K]) auto
    next
      case False
      with g f show ?thesis by (intro exI [of _ "set (ks @ [q])"]) simp
    qed
  qed
  moreover have "healthy (fold drop_entry (ks @ [q]) d)" using snoc by (simp add: drop_entry_sel)
  ultimately show ?case using f hist by blast
qed simp

lemma delete_tree_view:
  assumes g: "good d" and p: "simple_path p" and ne: "p \<noteq> []" and e: "dview d p \<noteq> None"
  obtains d' where "delete_tree p d = (True, d')"
    and "chg (thinned p (dview d)) d (\<lambda>q. if prefix p q then None else dview d q) d'"
proof -
  let ?u = "\<lambda>q. if prefix p q then None else dview d q"
  let ?ks = "subtree p (d_fs d)"
  note dr = drop_entries [OF good_healthy [OF g], of ?ks]
  have ks: "q \<in> set ?ks \<Longrightarrow> prefix p q" for q using p by (auto simp: set_subtree norm_simple)
  have no: "prefix p q \<Longrightarrow> q \<notin> set ?ks \<Longrightarrow> dview d q = None" for q
    using ne p by (cases "simple_path q") (auto simp: set_subtree norm_simple fview_def fget_def map_of_eq_None_iff)
  have u: "dview (fold drop_entry ?ks d) = ?u"
    using dr ks no ne by (auto simp: fview_filter fun_eq_iff)
  have "tree ?u" by (rule tree_del_tree [OF good_tree [OF g]])
  moreover have "thinned p (dview d) (fview (filter (\<lambda>(k, _). k \<notin> K) (d_fs d)))" if "K \<subseteq> set ?ks" for K
    using that ks by (auto simp: thinned_def fview_filter)
  ultimately have "chg (thinned p (dview d)) d ?u (fold drop_entry ?ks d)"
    using dr u by (fastforce simp: chg_def good_def via_def)
  with that show ?thesis
    using g e p ne by (simp add: delete_tree_def norm_simple fview_simple)
qed

lemma delete_tree_file_view:
  assumes "good d" and "simple_path p" and f: "dview d p = Some (File c)"
  obtains d' where "delete_tree p d = (True, d')"
    and "chg (\<lambda>w. w = dview d \<or> w = (dview d)(p := None)) d ((dview d)(p := None)) d'"
proof -
  from f have ne: "p \<noteq> []" and e: "dview d p \<noteq> None" by auto
  have below: "prefix p q \<Longrightarrow> q \<noteq> p \<Longrightarrow> dview d q = None" for q
    using tree_file [OF good_tree [OF assms(1)] f, of q] by (auto simp: strict_prefix_def)
  have u: "(\<lambda>q. if prefix p q then None else dview d q) = (dview d)(p := None)"
    using below by (auto simp: fun_eq_iff)
  have t: "w = dview d \<or> w = (dview d)(p := None)" if "thinned p (dview d) w" for w
  proof (cases "w p = dview d p")
    case True
    have "w q = dview d q" for q
      using that below [of q] True by (cases "q = p") (auto simp: thinned_def)
    then show ?thesis by auto
  next
    case False
    with that have "w p = None" by (auto simp: thinned_def)
    with that below have "w = (dview d)(p := None)" by (auto simp: thinned_def fun_eq_iff)
    then show ?thesis by blast
  qed
  obtain d' where m: "delete_tree p d = (True, d')"
    and c: "chg (thinned p (dview d)) d (\<lambda>q. if prefix p q then None else dview d q) d'"
    using delete_tree_view [OF assms(1,2) ne e] by blast
  have "chg (\<lambda>w. w = dview d \<or> w = (dview d)(p := None)) d ((dview d)(p := None)) d'"
    using chg_mono [OF c t] by (simp only: u)
  then show ?thesis by (rule that [OF m])
qed

text \<open>Deleting what is not there does nothing.\<close>

lemma delete_file_absent: "simple_path p \<Longrightarrow> dview d p = None \<Longrightarrow> delete_file p d = (False, d)"
  by (simp add: delete_file_def fview_simple)

lemma delete_tree_absent: "simple_path p \<Longrightarrow> dview d p = None \<Longrightarrow> delete_tree p d = (False, d)"
  by (simp add: delete_tree_def fview_simple)

subsection \<open>Creating directories\<close>

text \<open>The view with a directory and its ancestors.\<close>

definition with_dir :: "path \<Rightarrow> view \<Rightarrow> view" where
  "with_dir p v = (\<lambda>q. if prefix q p then Some Dir else v q)"

definition no_file_above :: "path \<Rightarrow> view \<Rightarrow> bool" where
  "no_file_above p v \<longleftrightarrow> (\<forall>q c. prefix q p \<longrightarrow> v q \<noteq> Some (File c))"

lemma with_dir_id: "tree v \<Longrightarrow> v p = Some Dir \<Longrightarrow> with_dir p v = v"
proof
  fix q assume t: "tree v" "v p = Some Dir"
  show "with_dir p v q = v q"
    using tree_prefix [OF t(1), of p q] t(2) by (cases "q = p") (auto simp: with_dir_def strict_prefix_def)
qed

lemma with_dir_snoc: "with_dir (p @ [x]) v = (with_dir p v)(p @ [x] \<mapsto> Dir)"
  by (rule ext) (auto simp: with_dir_def)

lemma no_file_above_snoc:
  "no_file_above (p @ [x]) v \<longleftrightarrow> no_file_above p v \<and> (\<forall>c. v (p @ [x]) \<noteq> Some (File c))"
  by (auto simp: no_file_above_def)

lemma make_dirs_append:
  "make_dirs (ps @ qs) d = (case make_dirs ps d of (ok, d') \<Rightarrow> if ok then make_dirs qs d' else (False, d'))"
  by (induction ps d rule: make_dirs.induct) (auto split: option.splits node.splits)

lemma mkdirs_view:
  assumes g: "good d" and p: "simple_path p" and nf: "no_file_above p (dview d)"
  obtains d' where "mkdirs p d = (True, d')"
    and "chg (\<lambda>w. \<exists>q. prefix q p \<and> w = with_dir q (dview d)) d (with_dir p (dview d)) d'"
proof -
  have "\<exists>d'. make_dirs (tl (prefixes p)) d = (True, d')
      \<and> chg (\<lambda>w. \<exists>q. prefix q p \<and> w = with_dir q (dview d)) d (with_dir p (dview d)) d'"
    using p nf
  proof (induction p rule: rev_induct)
    case Nil
    have "with_dir [] (dview d) = dview d" by (auto simp: with_dir_def)
    with chg_refl [OF g] show ?case by simp
  next
    case (snoc x p)
    let ?Q = "\<lambda>p w. \<exists>q. prefix q p \<and> w = with_dir q (dview d)"
    from snoc obtain d1 where m: "make_dirs (tl (prefixes p)) d = (True, d1)"
      and c0: "chg (?Q p) d (with_dir p (dview d)) d1"
      by (auto simp: no_file_above_snoc)
    have c1: "chg (?Q (p @ [x])) d (with_dir p (dview d)) d1"
      by (rule chg_mono [OF c0]) auto
    have tl: "tl (prefixes (p @ [x])) = tl (prefixes p) @ [p @ [x]]"
      by (cases "prefixes p") (auto simp: prefixes_snoc)
    have at: "dget d1 (p @ [x]) = dview d (p @ [x])"
      using snoc.prems(1) chgD(2) [OF c1] by (simp add: fview_simple) (simp add: with_dir_def)
    show ?case
    proof (cases "dview d (p @ [x])")
      case None
      let ?f = "fput (p @ [x]) Dir (d_fs d1)"
      have v: "fview ?f = with_dir (p @ [x]) (dview d)"
        using snoc.prems(1) chgD(2) [OF c1] by (simp add: fview_fput with_dir_snoc)
      have pd: "dview d1 (butlast (p @ [x])) = Some Dir" using chgD(2) [OF c1] by (simp add: with_dir_def)
      have "tree (with_dir (p @ [x]) (dview d))"
        using tree_put [OF good_tree [OF chgD(1) [OF c1]] pd, of Dir] chgD(2) [OF c1]
        by (simp add: with_dir_snoc)
      then have "chg (?Q (p @ [x])) d1 (with_dir (p @ [x]) (dview d)) (set_fs ?f d1)"
        by (intro chg_set_fs [OF chgD(1) [OF c1] v]) auto
      from chg_trans [OF c1 this] chgD(1) [OF c1] m at None show ?thesis
        by (simp add: tl make_dirs_append)
    next
      case (Some n)
      with snoc.prems(2) have n: "n = Dir" by (cases n) (auto simp: no_file_above_snoc)
      with Some with_dir_id [OF good_tree [OF g], of "p @ [x]"] with_dir_id [OF good_tree [OF g], of p]
        treeD [OF good_tree [OF g], of "p @ [x]"]
      have "with_dir (p @ [x]) (dview d) = with_dir p (dview d)" by simp
      with c1 m at Some n show ?thesis by (simp add: tl make_dirs_append)
    qed
  qed
  with that p show ?thesis by (auto simp: mkdirs_def norm_simple)
qed

end
