(* ===== verification/StoreModel.thy ===== *)
theory StoreModel
  imports StoreView ReleaseSpec JsonText
begin

text \<open>
  The layout of the storage directory, what is written into its two JSON files, the invariant every
  operation of the storage keeps, and the abstraction that reads the state of \<open>ReleaseSpec\<close> off a
  disk. Both platforms use the same layout, so one invariant and one abstraction serve both; the
  interface \<open>release_store\<close> at the end is what the life cycle of the app relies on.
\<close>

named_theorems store_paths \<open>the files of the storage directory\<close>

section \<open>Layout\<close>

definition base_of :: "path \<Rightarrow> path" where "base_of r = r @ [''salve-push'']"
definition state_path :: "path \<Rightarrow> path" where "state_path r = r @ [''salve-push'', ''state.json'']"
definition state_tmp :: "path \<Rightarrow> path" where "state_tmp r = r @ [''salve-push'', ''state.json.tmp'']"
definition mount_path :: "path \<Rightarrow> path" where "mount_path r = r @ [''salve-push'', ''mount.marker'']"
definition crash_path :: "path \<Rightarrow> path" where "crash_path r = r @ [''salve-push'', ''crash.marker'']"
definition releases_path :: "path \<Rightarrow> path" where "releases_path r = r @ [''salve-push'', ''releases'']"
definition release_dir :: "path \<Rightarrow> string \<Rightarrow> path" where
  "release_dir r i = r @ [''salve-push'', ''releases'', i]"
definition bundle_file :: "path \<Rightarrow> string \<Rightarrow> path" where
  "bundle_file r i = r @ [''salve-push'', ''releases'', i, ''bundle.js'']"
definition bundle_tmp :: "path \<Rightarrow> string \<Rightarrow> path" where
  "bundle_tmp r i = r @ [''salve-push'', ''releases'', i, ''bundle.js.tmp'']"

lemmas layout_defs [store_paths] = base_of_def state_path_def state_tmp_def mount_path_def crash_path_def
  releases_path_def release_dir_def bundle_file_def bundle_tmp_def

lemma layout_simple [simp]:
  assumes "simple_path r"
  shows "simple_path (base_of r)" "simple_path (state_path r)" "simple_path (state_tmp r)"
    "simple_path (mount_path r)" "simple_path (crash_path r)" "simple_path (releases_path r)"
    "simple_name i \<Longrightarrow> simple_path (release_dir r i)" "simple_name i \<Longrightarrow> simple_path (bundle_file r i)"
    "simple_name i \<Longrightarrow> simple_path (bundle_tmp r i)"
  using assms by (simp_all add: layout_defs)

lemma layout_butlast [simp]:
  "butlast (base_of r) = r" "butlast (state_path r) = base_of r" "butlast (state_tmp r) = base_of r"
  "butlast (mount_path r) = base_of r" "butlast (crash_path r) = base_of r"
  "butlast (releases_path r) = base_of r" "butlast (release_dir r i) = releases_path r"
  "butlast (bundle_file r i) = release_dir r i" "butlast (bundle_tmp r i) = release_dir r i"
  by (simp_all add: layout_defs butlast_append)

lemma layout_nonempty [simp]:
  "base_of r \<noteq> []" "state_path r \<noteq> []" "state_tmp r \<noteq> []" "mount_path r \<noteq> []" "crash_path r \<noteq> []"
  "releases_path r \<noteq> []" "release_dir r i \<noteq> []" "bundle_file r i \<noteq> []" "bundle_tmp r i \<noteq> []"
  by (simp_all add: layout_defs)

text \<open>Files and directories of the layout.\<close>

definition file_place :: "path \<Rightarrow> path \<Rightarrow> bool" where
  "file_place r p \<longleftrightarrow> p \<in> {state_path r, state_tmp r, mount_path r, crash_path r}
     \<or> (\<exists>i. p = bundle_file r i \<or> p = bundle_tmp r i)"

definition dir_place :: "path \<Rightarrow> path \<Rightarrow> bool" where
  "dir_place r p \<longleftrightarrow> prefix p (releases_path r) \<or> (\<exists>i. p = release_dir r i)"

lemma file_places [simp]:
  "file_place r (state_path r)" "file_place r (state_tmp r)" "file_place r (mount_path r)"
  "file_place r (crash_path r)" "file_place r (bundle_file r i)" "file_place r (bundle_tmp r i)"
  by (auto simp: file_place_def)

lemma dir_places [simp]:
  "dir_place r (base_of r)" "dir_place r (releases_path r)" "dir_place r (release_dir r i)"
  by (auto simp: dir_place_def layout_defs)

lemma prefix_same_length: "prefix p q \<Longrightarrow> length p = length q \<Longrightarrow> p = q"
  by (auto simp: prefix_def)

lemma file_not_dir: "file_place r p \<Longrightarrow> \<not> dir_place r p"
proof
  assume f: "file_place r p" and d: "dir_place r p"
  have "prefix p (releases_path r) \<Longrightarrow> length p = length (releases_path r) \<Longrightarrow> p = releases_path r"
    by (rule prefix_same_length)
  moreover have "prefix p (releases_path r) \<Longrightarrow> length p \<le> length r + 2"
    by (drule prefix_length_le) (simp add: layout_defs)
  ultimately show False using f d by (auto simp: file_place_def dir_place_def layout_defs)
qed

lemma dir_place_prefix: "dir_place r p \<Longrightarrow> prefix q p \<Longrightarrow> dir_place r q"
proof -
  assume d: "dir_place r p" and q: "prefix q p"
  have rel: "release_dir r i = releases_path r @ [i]" for i by (simp add: layout_defs)
  from d show ?thesis
  proof (unfold dir_place_def [of r p], elim disjE exE)
    assume "prefix p (releases_path r)"
    with q show ?thesis by (auto simp: dir_place_def intro: prefix_order.trans)
  next
    fix i assume "p = release_dir r i"
    with q show ?thesis by (auto simp: rel dir_place_def)
  qed
qed

text \<open>No two places of the layout coincide.\<close>

lemma places_distinct [simp]:
  "state_path r \<noteq> state_tmp r" "state_path r \<noteq> mount_path r" "state_path r \<noteq> crash_path r"
  "state_tmp r \<noteq> state_path r" "state_tmp r \<noteq> mount_path r" "state_tmp r \<noteq> crash_path r"
  "mount_path r \<noteq> state_path r" "mount_path r \<noteq> state_tmp r" "mount_path r \<noteq> crash_path r"
  "crash_path r \<noteq> state_path r" "crash_path r \<noteq> state_tmp r" "crash_path r \<noteq> mount_path r"
  "bundle_file r i \<noteq> state_path r" "bundle_file r i \<noteq> state_tmp r" "bundle_file r i \<noteq> mount_path r"
  "bundle_file r i \<noteq> crash_path r" "bundle_file r i \<noteq> bundle_tmp r j"
  "bundle_tmp r i \<noteq> state_path r" "bundle_tmp r i \<noteq> state_tmp r" "bundle_tmp r i \<noteq> mount_path r"
  "bundle_tmp r i \<noteq> crash_path r" "bundle_tmp r i \<noteq> bundle_file r j"
  "state_path r \<noteq> bundle_file r i" "state_tmp r \<noteq> bundle_file r i" "mount_path r \<noteq> bundle_file r i"
  "crash_path r \<noteq> bundle_file r i" "state_path r \<noteq> bundle_tmp r i" "state_tmp r \<noteq> bundle_tmp r i"
  "mount_path r \<noteq> bundle_tmp r i" "crash_path r \<noteq> bundle_tmp r i"
  by (simp_all add: layout_defs)

lemma dirs_not_files [simp]:
  "base_of r \<noteq> state_path r" "state_path r \<noteq> base_of r" "base_of r \<noteq> state_tmp r" "state_tmp r \<noteq> base_of r"
  "base_of r \<noteq> mount_path r" "mount_path r \<noteq> base_of r" "base_of r \<noteq> crash_path r" "crash_path r \<noteq> base_of r"
  "base_of r \<noteq> bundle_file r i" "bundle_file r i \<noteq> base_of r" "base_of r \<noteq> bundle_tmp r i" "bundle_tmp r i \<noteq> base_of r"
  "releases_path r \<noteq> state_path r" "state_path r \<noteq> releases_path r" "releases_path r \<noteq> state_tmp r" "state_tmp r \<noteq> releases_path r"
  "releases_path r \<noteq> mount_path r" "mount_path r \<noteq> releases_path r" "releases_path r \<noteq> crash_path r" "crash_path r \<noteq> releases_path r"
  "releases_path r \<noteq> bundle_file r i" "bundle_file r i \<noteq> releases_path r" "releases_path r \<noteq> bundle_tmp r i" "bundle_tmp r i \<noteq> releases_path r"
  "release_dir r j \<noteq> state_path r" "state_path r \<noteq> release_dir r j" "release_dir r j \<noteq> state_tmp r" "state_tmp r \<noteq> release_dir r j"
  "release_dir r j \<noteq> mount_path r" "mount_path r \<noteq> release_dir r j" "release_dir r j \<noteq> crash_path r" "crash_path r \<noteq> release_dir r j"
  "release_dir r j \<noteq> bundle_file r i" "bundle_file r i \<noteq> release_dir r j" "release_dir r j \<noteq> bundle_tmp r i" "bundle_tmp r i \<noteq> release_dir r j"
  using file_not_dir file_places dir_places by metis+

lemma same_bundle [simp]: "bundle_file r i = bundle_file r j \<longleftrightarrow> i = j" "bundle_tmp r i = bundle_tmp r j \<longleftrightarrow> i = j"
  by (simp_all add: layout_defs)

section \<open>What the files hold\<close>

text \<open>The members of \<open>state.json\<close>: an absent id is an absent member.\<close>

definition opt_member :: "string \<Rightarrow> string option \<Rightarrow> (string \<times> json) list" where
  "opt_member k v = (case v of None \<Rightarrow> [] | Some s \<Rightarrow> [(k, JStr s)])"

definition state_members :: "pstate \<Rightarrow> (string \<times> json) list" where
  "state_members s = opt_member ''currentReleaseId'' (currentReleaseId s)
     @ opt_member ''previousReleaseId'' (previousReleaseId s) @ [(''bootStatus'', JStr (bootStatus s))]"

definition holds_state :: "json_lib \<Rightarrow> string \<Rightarrow> pstate \<Rightarrow> bool" where
  "holds_state J t s \<longleftrightarrow> (\<exists>m. jparse J t = Some (JObj m) \<and> map_of m = map_of (state_members s))"

lemma flat_state_members: "flat_object (state_members s)"
  by (simp add: flat_object_def state_members_def opt_member_def split: option.splits)

lemma holds_state_print: "json_ok J \<Longrightarrow> holds_state J (jprint J (JObj (state_members s))) s"
  by (auto simp: holds_state_def elim: json_ok_print [OF _ flat_state_members])

lemma state_members_lookup:
  "map_of (state_members s) ''currentReleaseId'' = map_option JStr (currentReleaseId s)"
  "map_of (state_members s) ''previousReleaseId'' = map_option JStr (previousReleaseId s)"
  "map_of (state_members s) ''bootStatus'' = Some (JStr (bootStatus s))"
  by (simp_all add: state_members_def opt_member_def split: option.splits)

definition str_member :: "(string \<times> json) list \<Rightarrow> string \<Rightarrow> string option" where
  "str_member m k = (case map_of m k of Some (JStr s) \<Rightarrow> Some s | _ \<Rightarrow> None)"

definition spec_decode :: "json_lib \<Rightarrow> string \<Rightarrow> pstate" where
  "spec_decode J t =
     (case jparse J t of
        Some (JObj m) \<Rightarrow> \<lparr>currentReleaseId = str_member m ''currentReleaseId'',
                       previousReleaseId = str_member m ''previousReleaseId'',
                       bootStatus = (case str_member m ''bootStatus'' of None \<Rightarrow> [] | Some s \<Rightarrow> s)\<rparr>
      | _ \<Rightarrow> confirmedEmpty)"

lemma spec_decode_holds: "holds_state J t s \<Longrightarrow> spec_decode J t = s"
  by (auto simp: holds_state_def spec_decode_def str_member_def state_members_lookup split: option.splits)

text \<open>What a crash marker says; text that is no JSON value is a marker cut short, and asks for nothing.\<close>

definition crash_flag :: "json_lib \<Rightarrow> string \<Rightarrow> bool option" where
  "crash_flag J t =
     (case jparse J t of
        None \<Rightarrow> Some False
      | Some (JObj m) \<Rightarrow> (case map_of m ''isAutoRollback'' of Some (JBool b) \<Rightarrow> Some b | _ \<Rightarrow> None)
      | _ \<Rightarrow> None)"

lemma crash_flag_marker: "json_ok J \<Longrightarrow> crash_flag J (marker_json n b) = Some b"
  by (auto simp: crash_flag_def elim!: json_ok_marker [of J n b])

lemma crash_flag_cut: "json_ok J \<Longrightarrow> k < length (marker_json n b) \<Longrightarrow> crash_flag J (take k (marker_json n b)) = Some False"
  by (simp add: crash_flag_def json_ok_cut)

section \<open>Invariant and abstraction\<close>

definition file_text :: "node option \<Rightarrow> string option" where
  "file_text n = (case n of Some (File t) \<Rightarrow> Some t | _ \<Rightarrow> None)"

lemma file_text_simps [simp]: "file_text (Some (File t)) = Some t" "file_text None = None"
  "file_text (Some Dir) = None"
  by (simp_all add: file_text_def)

definition simple_ids :: "pstate \<Rightarrow> bool" where
  "simple_ids s \<longleftrightarrow> pred_option simple_name (currentReleaseId s) \<and> pred_option simple_name (previousReleaseId s)"

text \<open>Nothing is a directory where a file belongs, nor a file where a directory belongs.\<close>

definition shape :: "path \<Rightarrow> view \<Rightarrow> bool" where
  "shape r v \<longleftrightarrow> (\<forall>p. file_place r p \<longrightarrow> v p \<noteq> Some Dir) \<and> (\<forall>p c. dir_place r p \<longrightarrow> v p \<noteq> Some (File c))"

definition state_ok :: "json_lib \<Rightarrow> node option \<Rightarrow> bool" where
  "state_ok J n \<longleftrightarrow> n = None \<or> (\<exists>t s. n = Some (File t) \<and> holds_state J t s \<and> simple_ids s)"

definition crash_ok :: "json_lib \<Rightarrow> node option \<Rightarrow> bool" where
  "crash_ok J n \<longleftrightarrow> (case file_text n of None \<Rightarrow> True | Some t \<Rightarrow> crash_flag J t \<noteq> None)"

definition view_inv :: "json_lib \<Rightarrow> path \<Rightarrow> view \<Rightarrow> bool" where
  "view_inv J r v \<longleftrightarrow> shape r v \<and> state_ok J (v (state_path r)) \<and> crash_ok J (v (crash_path r))"

definition store_inv :: "json_lib \<Rightarrow> path \<Rightarrow> disk \<Rightarrow> bool" where
  "store_inv J r d \<longleftrightarrow> simple_path r \<and> good d \<and> view_inv J r (dview d)"

definition abs_state :: "json_lib \<Rightarrow> node option \<Rightarrow> pstate" where
  "abs_state J n = (case file_text n of None \<Rightarrow> confirmedEmpty | Some t \<Rightarrow> spec_decode J t)"

definition view_abs :: "json_lib \<Rightarrow> path \<Rightarrow> view \<Rightarrow> astate" where
  "view_abs J r v =
     \<lparr>a_state = abs_state J (v (state_path r)), a_mounted = (v (mount_path r) \<noteq> None),
      a_crash = Option.bind (file_text (v (crash_path r))) (crash_flag J),
      a_bundle = (\<lambda>i. if simple_name i then file_text (v (bundle_file r i)) else None)\<rparr>"

abbreviation store_abs :: "json_lib \<Rightarrow> path \<Rightarrow> disk \<Rightarrow> astate" where
  "store_abs J r d \<equiv> view_abs J r (dview d)"

text \<open>The path of a release's bundle, as the string handed to React Native.\<close>

definition bundle_string :: "path \<Rightarrow> string \<Rightarrow> string" where
  "bundle_string r i = path_str (bundle_file r i)"

end
