(* ===== verification/StoreUpdate.thy ===== *)
theory StoreUpdate
  imports StoreModel
begin

text \<open>
  How each single change of the storage directory acts on the invariant and on the abstract state, and
  the file operations once more, with a condition \<open>Q\<close> that every view passed through must meet.
\<close>

section \<open>The invariant under one change\<close>

lemma shapeD: "shape r v \<Longrightarrow> file_place r p \<Longrightarrow> v p \<noteq> Some Dir"
  "shape r v \<Longrightarrow> dir_place r p \<Longrightarrow> v p \<noteq> Some (File c)"
  by (auto simp: shape_def)

lemma shape_cases: "shape r v \<Longrightarrow> file_place r p \<Longrightarrow> v p = None \<or> (\<exists>c. v p = Some (File c))"
  using shapeD(1) [of r v p] by (cases "v p") (auto, metis node.exhaust)

lemma shape_put: "shape r v \<Longrightarrow> file_place r p \<Longrightarrow> shape r (v(p \<mapsto> File c))"
  by (auto simp: shape_def file_not_dir)

lemma shape_less: "shape r v \<Longrightarrow> (\<And>q. w q = v q \<or> w q = None) \<Longrightarrow> shape r w"
  by (metis option.distinct(1) shape_def)

lemma shape_with_dir: "shape r v \<Longrightarrow> dir_place r p \<Longrightarrow> shape r (with_dir p v)"
  by (auto simp: shape_def with_dir_def dest: file_not_dir dir_place_prefix)

lemma shape_above: "shape r v \<Longrightarrow> dir_place r p \<Longrightarrow> no_file_above p v"
  by (auto simp: no_file_above_def shape_def dest: dir_place_prefix)

lemma view_inv_shape: "view_inv J r v \<Longrightarrow> shape r v"
  by (simp add: view_inv_def)

lemma view_inv_put:
  "view_inv J r v \<Longrightarrow> file_place r p \<Longrightarrow> p \<noteq> state_path r \<Longrightarrow> p \<noteq> crash_path r \<Longrightarrow>
     view_inv J r (v(p \<mapsto> File c))"
  by (simp add: view_inv_def shape_put)

lemma view_inv_put_state:
  "view_inv J r v \<Longrightarrow> holds_state J t s \<Longrightarrow> simple_ids s \<Longrightarrow> view_inv J r (v(state_path r \<mapsto> File t))"
  by (auto simp: view_inv_def shape_put state_ok_def)

lemma view_inv_put_crash:
  "view_inv J r v \<Longrightarrow> crash_flag J t \<noteq> None \<Longrightarrow> view_inv J r (v(crash_path r \<mapsto> File t))"
  by (simp add: view_inv_def shape_put crash_ok_def)

lemma view_inv_less:
  assumes "view_inv J r v" and "\<And>q. w q = v q \<or> w q = None"
  shows "view_inv J r w"
proof -
  have "state_ok J (w (state_path r))"
    using assms(1) assms(2) [of "state_path r"] by (auto simp: view_inv_def state_ok_def)
  moreover have "crash_ok J (w (crash_path r))"
    using assms(1) assms(2) [of "crash_path r"] by (auto simp: view_inv_def crash_ok_def)
  ultimately show ?thesis using assms by (simp add: view_inv_def shape_less [of r v w])
qed

lemma view_inv_del: "view_inv J r v \<Longrightarrow> view_inv J r (v(p := None))"
  by (rule view_inv_less) auto

lemma view_inv_thinned: "view_inv J r v \<Longrightarrow> thinned p v w \<Longrightarrow> view_inv J r w"
  by (rule view_inv_less) (auto simp: thinned_def)

lemma with_dir_file: "file_place r q \<Longrightarrow> dir_place r p \<Longrightarrow> with_dir p v q = v q"
  using file_not_dir [of r q] dir_place_prefix [of r p q] by (auto simp: with_dir_def)

lemmas with_dir_places = with_dir_file [OF file_places(1)] with_dir_file [OF file_places(3)]
  with_dir_file [OF file_places(4)] with_dir_file [OF file_places(5)]

lemma view_inv_with_dir: "view_inv J r v \<Longrightarrow> dir_place r p \<Longrightarrow> view_inv J r (with_dir p v)"
  by (simp add: view_inv_def shape_with_dir with_dir_places)

text \<open>A view of the invariant decodes to the state its file was written from.\<close>

lemma view_inv_state:
  assumes "view_inv J r v"
  shows "v (state_path r) = None \<and> abs_state J (v (state_path r)) = confirmedEmpty
    \<or> (\<exists>t. v (state_path r) = Some (File t) \<and> holds_state J t (abs_state J (v (state_path r))))"
  using assms by (auto simp: view_inv_def state_ok_def abs_state_def spec_decode_holds)

lemma view_inv_ids: "view_inv J r v \<Longrightarrow> simple_ids (abs_state J (v (state_path r)))"
  by (auto simp: view_inv_def state_ok_def abs_state_def spec_decode_holds)
    (simp add: simple_ids_def confirmedEmpty_def)

section \<open>The abstract state under one change\<close>

lemma view_abs_sel [simp]:
  "a_state (view_abs J r v) = abs_state J (v (state_path r))"
  "a_mounted (view_abs J r v) = (v (mount_path r) \<noteq> None)"
  "a_crash (view_abs J r v) = Option.bind (file_text (v (crash_path r))) (crash_flag J)"
  "a_bundle (view_abs J r v) = (\<lambda>i. if simple_name i then file_text (v (bundle_file r i)) else None)"
  by (simp_all add: view_abs_def)

lemma view_abs_state_put [view_simps]:
  "view_abs J r (v(state_path r \<mapsto> File t)) = (view_abs J r v)\<lparr>a_state := spec_decode J t\<rparr>"
  by (simp add: view_abs_def abs_state_def cong: if_cong)

lemma view_abs_tmp [view_simps]: "view_abs J r (v(state_tmp r := x)) = view_abs J r v"
  "view_abs J r (v(bundle_tmp r i := x)) = view_abs J r v"
  by (simp_all add: view_abs_def cong: if_cong)

lemma view_abs_mount_put [view_simps]:
  "view_abs J r (v(mount_path r \<mapsto> File t)) = (view_abs J r v)\<lparr>a_mounted := True\<rparr>"
  by (simp add: view_abs_def cong: if_cong)

lemma view_abs_mount_del [view_simps]:
  "view_abs J r (v(mount_path r := None)) = (view_abs J r v)\<lparr>a_mounted := False\<rparr>"
  by (simp add: view_abs_def cong: if_cong)

lemma view_abs_crash_del [view_simps]:
  "view_abs J r (v(crash_path r := None)) = (view_abs J r v)\<lparr>a_crash := None\<rparr>"
  by (simp add: view_abs_def cong: if_cong)

lemma view_abs_crash_put [view_simps]:
  "view_abs J r (v(crash_path r \<mapsto> File t)) = (view_abs J r v)\<lparr>a_crash := crash_flag J t\<rparr>"
  by (simp add: view_abs_def cong: if_cong)

lemma view_abs_bundle_put [view_simps]:
  "simple_name i \<Longrightarrow>
     view_abs J r (v(bundle_file r i \<mapsto> File c)) = (view_abs J r v)\<lparr>a_bundle := (a_bundle (view_abs J r v))(i \<mapsto> c)\<rparr>"
  by (auto simp: view_abs_def fun_eq_iff)

lemma view_abs_bundle_del [view_simps]:
  "view_abs J r (v(bundle_file r i := None)) = (view_abs J r v)\<lparr>a_bundle := (a_bundle (view_abs J r v))(i := None)\<rparr>"
  by (auto simp: view_abs_def fun_eq_iff)

lemma view_abs_with_dir [view_simps]: "dir_place r p \<Longrightarrow> view_abs J r (with_dir p v) = view_abs J r v"
  by (simp add: view_abs_def with_dir_places cong: if_cong)

text \<open>Removing a release's directory removes its bundle and nothing else of the abstract state.\<close>

lemma release_dir_prefix [simp]:
  "\<not> prefix (release_dir r i) (state_path r)" "\<not> prefix (release_dir r i) (mount_path r)"
  "\<not> prefix (release_dir r i) (crash_path r)" "\<not> prefix (release_dir r i) (releases_path r)"
  "\<not> prefix (release_dir r i) (state_tmp r)" "\<not> prefix (release_dir r i) (base_of r)"
  "prefix (release_dir r i) (bundle_file r j) \<longleftrightarrow> i = j"
  by (auto simp: layout_defs)

lemma thinned_abs:
  assumes "thinned (release_dir r i) v w"
  shows "view_abs J r w = (view_abs J r v)\<lparr>a_bundle := a_bundle (view_abs J r w)\<rparr>"
    "j \<noteq> i \<Longrightarrow> a_bundle (view_abs J r w) j = a_bundle (view_abs J r v) j"
proof -
  have w: "\<not> prefix (release_dir r i) q \<Longrightarrow> w q = v q" for q using assms by (auto simp: thinned_def)
  show "view_abs J r w = (view_abs J r v)\<lparr>a_bundle := a_bundle (view_abs J r w)\<rparr>"
    by (simp add: view_abs_def w)
  show "j \<noteq> i \<Longrightarrow> a_bundle (view_abs J r w) j = a_bundle (view_abs J r v) j"
    by (simp add: w)
qed

section \<open>File operations with a condition on the way\<close>

lemma write_Q:
  assumes "good d" and "simple_path p" and "dview d (butlast p) = Some Dir" and "dview d p \<noteq> Some Dir"
    and "Q ((dview d)(p \<mapsto> File []))" and "Q ((dview d)(p \<mapsto> File c))"
  shows "\<exists>d'. write_file p c d = (True, d') \<and> chg Q d ((dview d)(p \<mapsto> File c)) d'"
  by (rule write_view [OF assms(1-4), of c]) (use assms(5,6) in \<open>auto elim!: chg_mono\<close>)

lemma write_atomic_Q:
  assumes "good d" and "simple_path p" and "dview d (butlast p) = Some Dir" and "dview d p \<noteq> Some Dir"
    and "Q ((dview d)(p \<mapsto> File c))"
  shows "\<exists>d'. write_file_atomic p c d = (True, d') \<and> chg Q d ((dview d)(p \<mapsto> File c)) d'"
  by (rule write_atomic_view [OF assms(1-4), of c]) (use assms(5) in \<open>auto elim!: chg_mono\<close>)

lemma rename_Q:
  assumes "good d" and "simple_path p" and "simple_path q" and "dview d p = Some (File c)"
    and "dview d (butlast q) = Some Dir" and "dview d q \<noteq> Some Dir"
    and "Q ((dview d)(p := None, q \<mapsto> File c))"
  shows "\<exists>d'. rename_file p q d = (True, d') \<and> chg Q d ((dview d)(p := None, q \<mapsto> File c)) d'"
  by (rule rename_view [OF assms(1-6)]) (use assms(7) in \<open>auto elim!: chg_mono\<close>)

text \<open>Deleting a file, present or not.\<close>

lemma delete_file_Q:
  assumes "good d" and "simple_path p" and "dview d p \<noteq> Some Dir" and "Q ((dview d)(p := None))"
  shows "\<exists>ok d'. delete_file p d = (ok, d') \<and> chg Q d ((dview d)(p := None)) d'"
proof (cases "dview d p")
  case None
  then have "(dview d)(p := None) = dview d" by auto
  with delete_file_absent [OF assms(2) None] chg_refl [OF assms(1), of Q] show ?thesis by auto
next
  case (Some n)
  with assms(3) obtain c where "dview d p = Some (File c)" by (cases n) auto
  then show ?thesis
    by (rule delete_file_view [OF assms(1,2)]) (use assms(4) in \<open>auto elim!: chg_mono\<close>)
qed

lemma delete_tree_file_Q:
  assumes "good d" and "simple_path p" and "dview d p \<noteq> Some Dir" and "Q (dview d)"
    and "Q ((dview d)(p := None))"
  shows "\<exists>ok d'. delete_tree p d = (ok, d') \<and> (ok \<longleftrightarrow> dview d p \<noteq> None)
    \<and> chg Q d ((dview d)(p := None)) d'"
proof (cases "dview d p")
  case None
  then have "(dview d)(p := None) = dview d" by auto
  with delete_tree_absent [OF assms(2) None] chg_refl [OF assms(1), of Q] None show ?thesis by auto
next
  case (Some n)
  with assms(3) obtain c where f: "dview d p = Some (File c)" by (cases n) auto
  from delete_tree_file_view [OF assms(1,2) f] obtain d' where d': "delete_tree p d = (True, d')"
    and c: "chg (\<lambda>w. w = dview d \<or> w = (dview d)(p := None)) d ((dview d)(p := None)) d'" by blast
  have "chg Q d ((dview d)(p := None)) d'" by (rule chg_mono [OF c]) (use assms(4,5) in auto)
  with d' f show ?thesis by auto
qed

lemma mkdirs_Q:
  assumes "good d" and "simple_path p" and "no_file_above p (dview d)"
    and "\<And>q. prefix q p \<Longrightarrow> Q (with_dir q (dview d))"
  shows "\<exists>d'. mkdirs p d = (True, d') \<and> chg Q d (with_dir p (dview d)) d'"
proof -
  obtain d' where m: "mkdirs p d = (True, d')"
    and c: "chg (\<lambda>w. \<exists>q. prefix q p \<and> w = with_dir q (dview d)) d (with_dir p (dview d)) d'"
    using mkdirs_view [OF assms(1-3)] by blast
  have "chg Q d (with_dir p (dview d)) d'" by (rule chg_mono [OF c]) (use assms(4) in auto)
  with m show ?thesis by blast
qed

lemma mkdirs_existing:
  assumes "good d" and "simple_path p" and "dview d p = Some Dir"
  shows "mkdirs p d = (True, d)"
proof -
  have "dget d q = Some Dir" if "q \<in> set (tl (prefixes p))" for q
  proof -
    from that have q: "prefix q p" by (metis in_set_prefixes list.set_sel(2) prefixes.simps(1) tl_Nil)
    then show ?thesis
      using tree_prefix [OF good_tree [OF assms(1)], of p q] assms simple_prefix [OF assms(2) q]
      by (cases "q = p") (auto simp: fview_simple strict_prefix_def)
  qed
  with assms(2) show ?thesis by (simp add: mkdirs_def norm_simple make_dirs_existing)
qed

end
