(* ===== verification/StoreLogic.thy ===== *)
theory StoreLogic
  imports StoreUpdate
begin

text \<open>
  Reasoning about the storage's methods on a disk that never fails: \<open>does Q m d x u\<close> says that \<open>m\<close>
  returns \<open>x\<close> and leaves the view \<open>u\<close>, every view on the way being in \<open>Q\<close>; \<open>leads P J r m d x a\<close>
  says the same in terms of the abstract state, and that the invariant holds at the end and on the way.
\<close>

section \<open>Views\<close>

definition does :: "(view \<Rightarrow> bool) \<Rightarrow> (disk, 'e, 'a) action \<Rightarrow> disk \<Rightarrow> 'a \<Rightarrow> view \<Rightarrow> bool" where
  "does Q m d x u \<longleftrightarrow> (\<exists>d'. m d = (Inr x, d') \<and> chg Q d u d')"

lemma does_ret: "good d \<Longrightarrow> dview d = u \<Longrightarrow> does Q (ret x) d x u"
  by (auto simp: does_def chg_refl)

lemma does_pure: "good d \<Longrightarrow> m d = (Inr x, d) \<Longrightarrow> does Q m d x (dview d)"
  by (auto simp: does_def chg_refl)

lemma does_bind:
  "does Q m d x u \<Longrightarrow> (\<And>d'. good d' \<Longrightarrow> dview d' = u \<Longrightarrow> does Q (f x) d' y w) \<Longrightarrow>
     does Q (bind_io m f) d y w"
proof -
  assume m: "does Q m d x u" and f: "\<And>d'. good d' \<Longrightarrow> dview d' = u \<Longrightarrow> does Q (f x) d' y w"
  from m obtain d1 where d1: "m d = (Inr x, d1)" "chg Q d u d1" by (auto simp: does_def)
  from f [OF chgD(1) [OF d1(2)] chgD(2) [OF d1(2)]] obtain d2 where "f x d1 = (Inr y, d2)" "chg Q d1 w d2"
    by (auto simp: does_def)
  with d1 show ?thesis by (auto simp: does_def bind_io_def intro: chg_trans)
qed

lemma does_then:
  "does Q m d x u \<Longrightarrow> (\<And>d'. good d' \<Longrightarrow> dview d' = u \<Longrightarrow> does Q k d' y w) \<Longrightarrow>
     does Q (then_io m k) d y w"
  unfolding then_io_def by (rule does_bind)

lemma does_try: "does Q m d x u \<Longrightarrow> does Q (try_opt m) d (Some x) u"
  by (auto simp: does_def try_opt_def catch_io_def bind_io_def)

lemma does_catch: "does Q m d x u \<Longrightarrow> does Q (catch_io m h) d x u"
  by (auto simp: does_def catch_io_def)

section \<open>Abstract states\<close>

definition okv :: "(astate \<Rightarrow> bool) \<Rightarrow> json_lib \<Rightarrow> path \<Rightarrow> view \<Rightarrow> bool" where
  "okv P J r w \<longleftrightarrow> view_inv J r w \<and> P (view_abs J r w)"

definition leads :: "(astate \<Rightarrow> bool) \<Rightarrow> json_lib \<Rightarrow> path \<Rightarrow> (disk, 'e, 'a) action \<Rightarrow> disk \<Rightarrow> 'a \<Rightarrow> astate \<Rightarrow> bool" where
  "leads P J r m d x a \<longleftrightarrow>
     (\<exists>d'. m d = (Inr x, d') \<and> store_inv J r d' \<and> store_abs J r d' = a \<and> via (okv P J r) d d')"

lemma store_invD:
  assumes "store_inv J r d"
  shows "simple_path r" "good d" "view_inv J r (dview d)" "shape r (dview d)"
  using assms by (simp_all add: store_inv_def view_inv_def)

lemma leads_bind:
  "leads P J r m d x a \<Longrightarrow> (\<And>d'. store_inv J r d' \<Longrightarrow> store_abs J r d' = a \<Longrightarrow> leads P J r (f x) d' y b) \<Longrightarrow>
     leads P J r (bind_io m f) d y b"
proof -
  assume m: "leads P J r m d x a"
    and f: "\<And>d'. store_inv J r d' \<Longrightarrow> store_abs J r d' = a \<Longrightarrow> leads P J r (f x) d' y b"
  from m obtain d1 where d1: "m d = (Inr x, d1)" "store_inv J r d1" "store_abs J r d1 = a"
    "via (okv P J r) d d1" by (auto simp: leads_def)
  from f [OF d1(2,3)] obtain d2 where "f x d1 = (Inr y, d2)" "store_inv J r d2" "store_abs J r d2 = b"
    "via (okv P J r) d1 d2" by (auto simp: leads_def)
  with d1 show ?thesis by (auto simp: leads_def bind_io_def intro: via_trans)
qed

lemma leads_then:
  "leads P J r m d x a \<Longrightarrow> (\<And>d'. store_inv J r d' \<Longrightarrow> store_abs J r d' = a \<Longrightarrow> leads P J r k d' y b) \<Longrightarrow>
     leads P J r (then_io m k) d y b"
  unfolding then_io_def by (rule leads_bind)

lemma leads_pure:
  "store_inv J r d \<Longrightarrow> store_abs J r d = a \<Longrightarrow> m d = (Inr x, d) \<Longrightarrow> leads P J r m d x a"
  by (auto simp: leads_def via_def)

lemma leads_ret: "store_inv J r d \<Longrightarrow> leads P J r (ret x) d x (store_abs J r d)"
  by (rule leads_pure) simp_all

lemma leads_try: "leads P J r m d x a \<Longrightarrow> leads P J r (try_opt m) d (Some x) a"
  by (auto simp: leads_def try_opt_def catch_io_def bind_io_def)

lemma does_leads:
  assumes "does (okv P J r) m d x u" and "simple_path r" and "view_inv J r u" and "view_abs J r u = a"
  shows "leads P J r m d x a"
  using assms by (auto simp: does_def leads_def store_inv_def chg_def)

lemma leadsE:
  assumes "leads P J r m d x a"
  obtains d' where "m d = (Inr x, d')" and "store_inv J r d'" and "store_abs J r d' = a"
    and "via (okv P J r) d d'"
  using assms by (auto simp: leads_def)

section \<open>Directories\<close>

lemma with_dir_at [simp]: "with_dir p v p = Some Dir"
  by (simp add: with_dir_def)

lemma with_dir_below: "prefix q p \<Longrightarrow> with_dir p v q = Some Dir"
  by (simp add: with_dir_def)

lemma with_dir_absorb:
  "prefix q p \<Longrightarrow> with_dir p (with_dir q v) = with_dir p v"
  "prefix q p \<Longrightarrow> with_dir q (with_dir p v) = with_dir p v"
  by (auto simp: with_dir_def fun_eq_iff intro: prefix_order.trans)

lemma with_dir_upd: "\<not> prefix q p \<Longrightarrow> with_dir p (v(q := x)) = (with_dir p v)(q := x)"
  by (auto simp: with_dir_def fun_eq_iff)

lemma layout_prefix [simp]:
  "prefix (base_of r) (base_of r)" "prefix (base_of r) (releases_path r)" "prefix (base_of r) (release_dir r i)"
  "prefix (releases_path r) (release_dir r i)"
  "\<not> prefix (state_path r) (base_of r)" "\<not> prefix (state_tmp r) (base_of r)"
  "\<not> prefix (mount_path r) (base_of r)" "\<not> prefix (crash_path r) (base_of r)"
  "\<not> prefix (bundle_file r i) (base_of r)" "\<not> prefix (bundle_tmp r i) (base_of r)"
  by (auto simp: layout_defs)

lemma with_dir_reads [view_simps]:
  "dir_place r p \<Longrightarrow> with_dir p v (state_path r) = v (state_path r)"
  "dir_place r p \<Longrightarrow> with_dir p v (state_tmp r) = v (state_tmp r)"
  "dir_place r p \<Longrightarrow> with_dir p v (mount_path r) = v (mount_path r)"
  "dir_place r p \<Longrightarrow> with_dir p v (crash_path r) = v (crash_path r)"
  "dir_place r p \<Longrightarrow> with_dir p v (bundle_file r i) = v (bundle_file r i)"
  "dir_place r p \<Longrightarrow> with_dir p v (bundle_tmp r i) = v (bundle_tmp r i)"
  by (rule with_dir_file; simp)+

lemma okv_with_dir: "okv P J r v \<Longrightarrow> dir_place r p \<Longrightarrow> okv P J r (with_dir p v)"
  by (simp add: okv_def view_inv_with_dir view_simps)

lemma okv_now: "store_inv J r d \<Longrightarrow> P (store_abs J r d) \<Longrightarrow> okv P J r (dview d)"
  by (simp add: okv_def store_invD(3))

lemma mkdirs_does:
  assumes "good d" and "simple_path p" and "okv P J r (dview d)" and "dir_place r p"
  shows "\<exists>d'. mkdirs p d = (True, d') \<and> chg (okv P J r) d (with_dir p (dview d)) d'"
proof (rule mkdirs_Q [OF assms(1,2)])
  show "no_file_above p (dview d)"
    using assms(3,4) by (auto simp: okv_def intro: shape_above view_inv_shape)
  show "okv P J r (with_dir q (dview d))" if "prefix q p" for q
    by (rule okv_with_dir [OF assms(3) dir_place_prefix [OF assms(4) that]])
qed

lemma dir_simple: "simple_path r \<Longrightarrow> simple_path (base_of r)" "simple_path r \<Longrightarrow> simple_path (releases_path r)"
  by simp_all

section \<open>Pruning\<close>

lemma no_release_no_bundle: "tree v \<Longrightarrow> v (release_dir r n) = None \<Longrightarrow> v (bundle_file r n) = None"
  using treeD [of v "bundle_file r n"] by (cases "v (bundle_file r n)") simp_all

lemma pruned_trans: "pruned K b b' \<Longrightarrow> pruned K b' b'' \<Longrightarrow> pruned K b b''"
  by (metis pruned_def)

lemma release_dir_snoc: "releases_path r @ [n] = release_dir r n"
  by (simp add: layout_defs)

lemma prune_one:
  assumes "store_inv J r d" and "n \<notin> keep" and "simple_name n"
    and "\<And>b. pruned keep (a_bundle (store_abs J r d)) b \<Longrightarrow> P ((store_abs J r d)\<lparr>a_bundle := b\<rparr>)"
  shows "\<exists>d'. snd (delete_tree (release_dir r n) d) = d' \<and> store_inv J r d' \<and> via (okv P J r) d d'
    \<and> store_abs J r d' = (store_abs J r d)\<lparr>a_bundle := (a_bundle (store_abs J r d))(n := None)\<rparr>"
proof (cases "dview d (release_dir r n)")
  case None
  note inv = store_invD [OF assms(1)]
  have "dview d (bundle_file r n) = None" by (rule no_release_no_bundle [OF good_tree [OF inv(2)] None])
  then have "(store_abs J r d)\<lparr>a_bundle := (a_bundle (store_abs J r d))(n := None)\<rparr> = store_abs J r d"
    by (auto simp: view_abs_def fun_eq_iff)
  with delete_tree_absent [OF layout_simple(7) [OF inv(1) assms(3)] None] assms(1) show ?thesis
    by (auto simp: via_def)
next
  case (Some m)
  note inv = store_invD [OF assms(1)]
  let ?u = "\<lambda>q. if prefix (release_dir r n) q then None else dview d q"
  obtain d' where d': "delete_tree (release_dir r n) d = (True, d')"
    and c: "chg (thinned (release_dir r n) (dview d)) d ?u d'"
    using delete_tree_view [OF inv(2) layout_simple(7) [OF inv(1) assms(3)] layout_nonempty(7)] Some by blast
  have q: "okv P J r w" if t: "thinned (release_dir r n) (dview d) w" for w
  proof -
    have "pruned keep (a_bundle (store_abs J r d)) (a_bundle (view_abs J r w))"
      unfolding pruned_def
    proof
      fix j
      show "a_bundle (view_abs J r w) j = a_bundle (store_abs J r d) j
          \<or> j \<notin> keep \<and> a_bundle (view_abs J r w) j = None"
        using thinned_abs(2) [OF t, of j J] t [unfolded thinned_def, rule_format, of "bundle_file r n"] assms(2)
        by (cases "j = n") auto
    qed
    from assms(4) [OF this] thinned_abs(1) [OF t, of J] view_inv_thinned [OF inv(3) t]
    show ?thesis by (simp add: okv_def)
  qed
  have "view_abs J r ?u = (store_abs J r d)\<lparr>a_bundle := (a_bundle (store_abs J r d))(n := None)\<rparr>"
    by (auto simp: view_abs_def fun_eq_iff)
  moreover have "view_inv J r ?u" by (rule view_inv_less [OF inv(3)]) simp
  ultimately show ?thesis
    using d' c inv(1) via_mono [OF chgD(3) [OF c] q] by (auto simp: store_inv_def)
qed

lemma prune_entries_leads:
  assumes "store_inv J r d" and "list_all simple_name names"
    and "\<And>b. pruned (set keep) (a_bundle (store_abs J r d)) b \<Longrightarrow> P ((store_abs J r d)\<lparr>a_bundle := b\<rparr>)"
  shows "\<exists>d'. prune_entries keep (releases_path r) names d = d' \<and> store_inv J r d' \<and> via (okv P J r) d d'
    \<and> store_abs J r d' = (store_abs J r d)\<lparr>a_bundle :=
        (\<lambda>j. if j \<in> set names - set keep then None else a_bundle (store_abs J r d) j)\<rparr>"
  using assms
proof (induction names arbitrary: d)
  case Nil
  then show ?case by (simp add: via_def)
next
  case (Cons n names)
  let ?a = "store_abs J r d"
  show ?case
  proof (cases "n \<in> set keep")
    case True
    with Cons.IH [OF Cons.prems(1)] Cons.prems have "\<exists>d'. prune_entries keep (releases_path r) names d = d'
      \<and> store_inv J r d' \<and> via (okv P J r) d d'
      \<and> store_abs J r d' = ?a\<lparr>a_bundle := (\<lambda>j. if j \<in> set names - set keep then None else a_bundle ?a j)\<rparr>"
      by simp
    moreover have "(\<lambda>j. if j \<in> set (n # names) - set keep then None else a_bundle ?a j)
        = (\<lambda>j. if j \<in> set names - set keep then None else a_bundle ?a j)" using True by auto
    ultimately show ?thesis using True by simp
  next
    case False
    from Cons.prems(2) have n: "simple_name n" and ns: "list_all simple_name names" by simp_all
    obtain d1 where d1: "snd (delete_tree (release_dir r n) d) = d1" "store_inv J r d1" "via (okv P J r) d d1"
      "store_abs J r d1 = ?a\<lparr>a_bundle := (a_bundle ?a)(n := None)\<rparr>"
      using prune_one [where P = P, OF Cons.prems(1) False n Cons.prems(3)] by blast
    have b1: "a_bundle (store_abs J r d1) = (a_bundle ?a)(n := None)" using d1(4) by (metis astate.select_convs(4) astate.surjective astate.update_convs(4))
    have p1: "pruned (set keep) (a_bundle ?a) (a_bundle (store_abs J r d1))"
      unfolding b1 using False by (simp add: pruned_def)
    have "P ((store_abs J r d1)\<lparr>a_bundle := b\<rparr>)" if "pruned (set keep) (a_bundle (store_abs J r d1)) b" for b
      using Cons.prems(3) [OF pruned_trans [OF p1 that]] d1(4) by simp
    from Cons.IH [OF d1(2) ns this] obtain d2 where d2: "prune_entries keep (releases_path r) names d1 = d2"
      "store_inv J r d2" "via (okv P J r) d1 d2"
      "store_abs J r d2 = (store_abs J r d1)\<lparr>a_bundle :=
        (\<lambda>j. if j \<in> set names - set keep then None else a_bundle (store_abs J r d1) j)\<rparr>" by blast
    have "(\<lambda>j. if j \<in> set names - set keep then None else ((a_bundle ?a)(n := None)) j)
        = (\<lambda>j. if j \<in> set (n # names) - set keep then None else a_bundle ?a j)"
      using False by (auto simp: fun_eq_iff)
    with d2(4) have "store_abs J r d2 = ?a\<lparr>a_bundle :=
        (\<lambda>j. if j \<in> set (n # names) - set keep then None else a_bundle ?a j)\<rparr>"
      unfolding b1 by (simp add: d1(4))
    with d2(1,2) via_trans [OF d1(3) d2(3)] d1(1) False show ?thesis by (simp add: release_dir_snoc)
  qed
qed

lemma pruned_self:
  "(\<And>b. pruned K (a_bundle a) b \<Longrightarrow> P (a\<lparr>a_bundle := b\<rparr>)) \<Longrightarrow> P (a :: astate)"
  using pruned_def by (metis astate.surjective astate.update_convs(4) old.unit.exhaust)

text \<open>The listing and the loop together keep the named bundles and no other.\<close>

lemma prune_list_leads:
  assumes "store_inv J r d1" and "store_abs J r d1 = a"
    and "\<And>b. pruned (set keep) (a_bundle a) b \<Longrightarrow> P (a\<lparr>a_bundle := b\<rparr>)"
  shows "leads P J r (\<lambda>d. case list_files (releases_path r) d of
        None \<Rightarrow> (Inr (), d) | Some names \<Rightarrow> (Inr (), prune_entries keep (releases_path r) names d)) d1 ()
      (a\<lparr>a_bundle := keep_only (Some ` set keep) (a_bundle a)\<rparr>)"
proof -
  note inv = store_invD [OF assms(1)]
  let ?names = "fnames (releases_path r) (d_fs d1)"
  have none: "a_bundle a j = None" if "j \<notin> set ?names" for j
  proof -
    have "dview d1 (release_dir r j) = None"
      using that fnames_view [OF layout_simple(6) [OF inv(1)], of j] by (simp add: release_dir_snoc)
    from no_release_no_bundle [OF good_tree [OF inv(2)] this] show ?thesis
      by (simp add: assms(2) [symmetric])
  qed
  show ?thesis
  proof (cases "dview d1 (releases_path r) = Some Dir")
    case True
    then have ls: "list_files (releases_path r) d1 = Some ?names"
      using inv(1,2) by (simp add: list_files_def fview_simple)
    have "list_all simple_name ?names" by (simp add: fnames_def list_all_iff)
    then obtain d2 where d2: "prune_entries keep (releases_path r) ?names d1 = d2" "store_inv J r d2"
      "via (okv P J r) d1 d2" "store_abs J r d2 = (store_abs J r d1)\<lparr>a_bundle :=
          (\<lambda>j. if j \<in> set ?names - set keep then None else a_bundle (store_abs J r d1) j)\<rparr>"
      using prune_entries_leads [OF assms(1), of ?names keep P] assms(2,3) by auto
    have e: "(\<lambda>j. if j \<in> set ?names - set keep then None else a_bundle a j) = keep_only (Some ` set keep) (a_bundle a)"
      using none by (auto simp: keep_only_def fun_eq_iff)
    have "store_abs J r d2 = a\<lparr>a_bundle := keep_only (Some ` set keep) (a_bundle a)\<rparr>"
      by (simp only: d2(4) assms(2) e)
    with d2(1-3) ls show ?thesis by (simp add: leads_def)
  next
    case False
    then have ls: "list_files (releases_path r) d1 = None"
      using inv(1) by (simp add: list_files_def fview_simple)
    have "dview d1 (release_dir r j) = None" for j
      using treeD [OF good_tree [OF inv(2)], of "release_dir r j"] False by (cases "dview d1 (release_dir r j)") auto
    from no_release_no_bundle [OF good_tree [OF inv(2)] this]
    have "keep_only (Some ` set keep) (a_bundle a) = a_bundle a"
      by (auto simp: assms(2) [symmetric] keep_only_def fun_eq_iff)
    with ls show ?thesis by (intro leads_pure [OF assms(1)]) (simp_all add: assms(2))
  qed
qed

section \<open>Installing\<close>

lemma abs_ids: "store_inv J r d \<Longrightarrow> simple_ids (a_state (store_abs J r d))"
  using view_inv_ids [OF store_invD(3)] by simp

lemma install_chain:
  fixes place clear :: "(disk, 'e, unit) action" and read :: "(disk, 'e, pstate) action"
  assumes inv: "store_inv J r d" and i: "simple_name i"
    and P: "\<And>x. install_stage i c (store_abs J r d) x \<Longrightarrow> P x"
    and place: "P (store_abs J r d) \<Longrightarrow>
        P ((store_abs J r d)\<lparr>a_bundle := (a_bundle (store_abs J r d))(i := None)\<rparr>) \<Longrightarrow>
        P ((store_abs J r d)\<lparr>a_bundle := (a_bundle (store_abs J r d))(i \<mapsto> c)\<rparr>) \<Longrightarrow>
        leads P J r place d () ((store_abs J r d)\<lparr>a_bundle := (a_bundle (store_abs J r d))(i \<mapsto> c)\<rparr>)"
    and read: "\<And>d. store_inv J r d \<Longrightarrow> P (store_abs J r d) \<Longrightarrow>
        leads P J r read d (a_state (store_abs J r d)) (store_abs J r d)"
    and store: "\<And>d s. store_inv J r d \<Longrightarrow> simple_ids s \<Longrightarrow> P (store_abs J r d) \<Longrightarrow>
        P ((store_abs J r d)\<lparr>a_state := s\<rparr>) \<Longrightarrow> leads P J r (store s) d () ((store_abs J r d)\<lparr>a_state := s\<rparr>)"
    and clear: "\<And>d. store_inv J r d \<Longrightarrow> P (store_abs J r d) \<Longrightarrow> P ((store_abs J r d)\<lparr>a_mounted := False\<rparr>) \<Longrightarrow>
        leads P J r clear d () ((store_abs J r d)\<lparr>a_mounted := False\<rparr>)"
    and prune: "\<And>d keep. store_inv J r d \<Longrightarrow>
        (\<And>b. pruned (set keep) (a_bundle (store_abs J r d)) b \<Longrightarrow> P ((store_abs J r d)\<lparr>a_bundle := b\<rparr>)) \<Longrightarrow>
        leads P J r (prune keep) d ()
          ((store_abs J r d)\<lparr>a_bundle := keep_only (Some ` set keep) (a_bundle (store_abs J r d))\<rparr>)"
  shows "leads P J r (then_io place (bind_io read (\<lambda>s.
      then_io (store (install_state i s)) (then_io clear
        (prune (i # (case currentReleaseId s of None \<Rightarrow> [] | Some p \<Rightarrow> [p]))))))) d ()
    (a_install i c (store_abs J r d))"
proof -
  let ?a = "store_abs J r d"
  let ?s = "a_state ?a"
  let ?b = "(a_bundle ?a)(i \<mapsto> c)"
  let ?a1 = "?a\<lparr>a_bundle := ?b\<rparr>"
  let ?a2 = "?a1\<lparr>a_state := install_state i ?s\<rparr>"
  let ?a3 = "?a2\<lparr>a_mounted := False\<rparr>"
  let ?keep = "i # (case currentReleaseId ?s of None \<Rightarrow> [] | Some p \<Rightarrow> [p])"
  have keep: "set ?keep = {i} \<union> set_option (a_current ?a)" by (cases "a_current ?a") auto
  have ids: "simple_ids (install_state i ?s)"
    using abs_ids [OF inv] i by (simp add: simple_ids_def install_state_def)
  have p: "P ?a" "P (?a\<lparr>a_bundle := (a_bundle ?a)(i := None)\<rparr>)" "P ?a1" "P ?a2"
    by (rule P, simp add: install_stage_def)+
  have p3: "P (?a3\<lparr>a_bundle := b\<rparr>)" if "pruned (set ?keep) ?b b" for b
    by (rule P) (use that keep in \<open>auto simp: install_stage_def\<close>)
  have "?a3 = ?a3\<lparr>a_bundle := ?b\<rparr>" by (simp del: view_abs_sel)
  then have p3': "P ?a3" using p3 [of ?b] by (simp only: pruned_def) simp
  have fin: "?a3\<lparr>a_bundle := keep_only (Some ` set ?keep) ?b\<rparr> = a_install i c ?a"
    by (cases "a_current ?a") (auto simp: a_install_def keep_only_def fun_eq_iff simp del: view_abs_sel)
  have "leads P J r (then_io place (bind_io read (\<lambda>s.
      then_io (store (install_state i s)) (then_io clear
        (prune (i # (case currentReleaseId s of None \<Rightarrow> [] | Some p \<Rightarrow> [p]))))))) d ()
    (a_install i c ?a)"
  proof (rule leads_then [OF place [OF p(1-3)]],
      rule leads_bind, rule read, assumption)
    fix d1 assume d1: "store_inv J r d1" "store_abs J r d1 = ?a1"
    show "P (store_abs J r d1)" using p(3) d1(2) by simp
  next
    fix d1 d2 assume d1: "store_abs J r d1 = ?a1"
      and d2: "store_inv J r d2" "store_abs J r d2 = store_abs J r d1"
    have s: "a_state (store_abs J r d1) = ?s" by (simp add: d1 del: view_abs_sel)
    show "leads P J r (then_io (store (install_state i (a_state (store_abs J r d1))))
       (then_io clear (prune (i # (case currentReleaseId
         (a_state (store_abs J r d1)) of None \<Rightarrow> [] | Some p \<Rightarrow> [p]))))) d2 () (a_install i c ?a)"
      unfolding s
    proof (rule leads_then [OF store [OF d2(1) ids]])
      show "P (store_abs J r d2)" "P ((store_abs J r d2)\<lparr>a_state := install_state i ?s\<rparr>)"
        using p(3,4) by (simp_all add: d1 d2(2) del: view_abs_sel)
      fix d3 assume d3: "store_inv J r d3" "store_abs J r d3 = (store_abs J r d2)\<lparr>a_state := install_state i ?s\<rparr>"
      then have a3: "store_abs J r d3 = ?a2" by (simp add: d1 d2(2) del: view_abs_sel)
      show "leads P J r (then_io clear (prune ?keep)) d3 () (a_install i c ?a)"
      proof (rule leads_then [OF clear [OF d3(1)]])
        show "P (store_abs J r d3)" "P ((store_abs J r d3)\<lparr>a_mounted := False\<rparr>)"
          using p(4) p3' by (simp_all add: a3 del: view_abs_sel)
        fix d4 assume d4: "store_inv J r d4" "store_abs J r d4 = (store_abs J r d3)\<lparr>a_mounted := False\<rparr>"
        then have a4: "store_abs J r d4 = ?a3" by (simp add: a3 del: view_abs_sel)
        then have b4: "a_bundle (store_abs J r d4) = ?b" by (simp del: view_abs_sel)
        have q: "P ((store_abs J r d4)\<lparr>a_bundle := b\<rparr>)" if "pruned (set ?keep) (a_bundle (store_abs J r d4)) b" for b
          using p3 [OF that [unfolded b4]] by (simp only: a4)
        have "leads P J r (prune ?keep) d4 ()
            ((store_abs J r d4)\<lparr>a_bundle := keep_only (Some ` set ?keep) (a_bundle (store_abs J r d4))\<rparr>)"
          by (rule prune [OF d4(1) q])
        then show "leads P J r (prune ?keep) d4 () (a_install i c ?a)"
          by (simp only: b4) (simp only: a4 fin)
      qed
    qed
  qed
  then show ?thesis .
qed


end
