(* ===== verification/KotlinRefine.thy ===== *)
theory KotlinRefine
  imports KotlinStorage StoreLogic
begin

text \<open>
  The Android storage meets the specification of \<open>ReleaseSpec\<close>: each method of \<open>KotlinStorage\<close>, run on
  a disk that meets the invariant and does not fail, returns normally, keeps the invariant, and acts on the
  abstract state as the specified operation does. The condition \<open>P\<close> is carried along for the states that
  a kill of the process could leave behind.
\<close>

section \<open>Paths\<close>

lemma kt_children [simp]:
  "file_child r ''salve-push'' = base_of r" "file_child (base_of r) ''releases'' = releases_path r"
  "file_child (base_of r) ''state.json'' = state_path r" "file_child (base_of r) ''state.json.tmp'' = state_tmp r"
  "file_child (base_of r) ''mount.marker'' = mount_path r" "file_child (base_of r) ''crash.marker'' = crash_path r"
  "simple_name i \<Longrightarrow> file_child (releases_path r) i = release_dir r i"
  "file_child (release_dir r i) ''bundle.js'' = bundle_file r i"
  "file_child (release_dir r i) ''bundle.js.tmp'' = bundle_tmp r i"
  by (simp_all add: file_child_def layout_defs comps_simple)

lemma ignored_does: "\<exists>ok d'. op d = (ok, d') \<and> chg Q d u d' \<Longrightarrow> does Q (ignored op) d () u"
  by (auto simp: does_def ignored_def)

lemma kt_mkdirs:
  assumes "good d" and "simple_path p" and "okv P J r (dview d)" and "dir_place r p"
  shows "does (okv P J r) (then_io (ignored (mkdirs p)) (ret p)) d p (with_dir p (dview d))"
proof (rule does_then)
  show "does (okv P J r) (ignored (mkdirs p)) d () (with_dir p (dview d))"
    using mkdirs_does [OF assms] by (auto intro: ignored_does)
qed (rule does_ret)

lemma kt_base:
  assumes "good d" and "simple_path r" and "okv P J r (dview d)"
  shows "does (okv P J r) (kt_baseDirectory r) d (base_of r) (with_dir (base_of r) (dview d))"
  using kt_mkdirs [OF assms(1) dir_simple(1) [OF assms(2)] assms(3) dir_places(1)]
  by (simp add: kt_baseDirectory_def Let_def)

lemma kt_releases:
  assumes "good d" and "simple_path r" and "okv P J r (dview d)"
  shows "does (okv P J r) (kt_releasesDirectory r) d (releases_path r) (with_dir (releases_path r) (dview d))"
  unfolding kt_releasesDirectory_def
proof (rule does_bind [OF kt_base [OF assms]], simp add: Let_def)
  fix d' assume d': "good d'" "dview d' = with_dir (base_of r) (dview d)"
  have "okv P J r (dview d')" by (simp add: d'(2) okv_with_dir [OF assms(3)])
  from kt_mkdirs [OF d'(1) dir_simple(2) [OF assms(2)] this dir_places(2)]
  show "does (okv P J r) (then_io (ignored (mkdirs (releases_path r))) (ret (releases_path r))) d'
      (releases_path r) (with_dir (releases_path r) (dview d))"
    by (simp add: d'(2) with_dir_absorb)
qed

lemma kt_places:
  assumes "good d" and "simple_path r" and "okv P J r (dview d)"
  shows "does (okv P J r) (kt_statePath r) d (state_path r) (with_dir (base_of r) (dview d))"
    "does (okv P J r) (kt_mountMarkerPath r) d (mount_path r) (with_dir (base_of r) (dview d))"
    "does (okv P J r) (kt_crashMarkerPath r) d (crash_path r) (with_dir (base_of r) (dview d))"
    "simple_name i \<Longrightarrow>
      does (okv P J r) (kt_bundlePath r i) d (bundle_file r i) (with_dir (releases_path r) (dview d))"
  unfolding kt_statePath_def kt_mountMarkerPath_def kt_crashMarkerPath_def kt_bundlePath_def
  by (rule does_bind [OF kt_base [OF assms]] does_bind [OF kt_releases [OF assms]]; simp add: does_ret)+

section \<open>The pointer state\<close>

lemma kt_toJson: "toJson J s = jprint J (JObj (state_members s))"
  by (simp add: toJson_def state_members_def opt_member_def split: option.splits)

lemma kt_fromJson: "holds_state J t s \<Longrightarrow> fromJson J t d = (Inr s, d)"
  by (auto simp: holds_state_def fromJson_def json_object_def bind_io_def optNullableString_def optString_def
      as_string_def state_members_lookup split: option.splits)

lemma kt_read_does:
  assumes "good d" and "simple_path r" and "okv P J r (dview d)"
  shows "does (okv P J r) (kt_readState J r) d (abs_state J (dview d (state_path r)))
           (with_dir (base_of r) (dview d))"
proof -
  obtain d' where p: "kt_statePath r d = (Inr (state_path r), d')"
    and c: "chg (okv P J r) d (with_dir (base_of r) (dview d)) d'"
    using kt_places(1) [OF assms] by (auto simp: does_def)
  have v: "dview d' (state_path r) = dview d (state_path r)" using chgD(2) [OF c] by (simp add: view_simps)
  note rd = read_view [OF chgD(1) [OF c] layout_simple(2) [OF assms(2)], unfolded v]
  have "kt_readState J r d = (Inr (abs_state J (dview d (state_path r))), d')"
    using view_inv_state [OF conjunct1 [OF assms(3) [unfolded okv_def]]] p rd
    by (auto simp: kt_readState_def catch_io_def bind_io_def readText_def kt_fromJson)
  with c show ?thesis by (auto simp: does_def)
qed

lemma kt_readState:
  assumes "store_inv J r d" and "P (store_abs J r d)"
  shows "leads P J r (kt_readState J r) d (a_state (store_abs J r d)) (store_abs J r d)"
  using does_leads [OF kt_read_does [OF store_invD(2,1) [OF assms(1)] okv_now [where P = P, OF assms]]]
    store_invD [OF assms(1)] by (simp add: view_inv_with_dir view_simps)

lemma kt_writeState:
  assumes "json_ok J" and "store_inv J r d" and "simple_ids s" and "P (store_abs J r d)"
    and "P ((store_abs J r d)\<lparr>a_state := s\<rparr>)"
  shows "leads P J r (kt_writeState J r s) d () ((store_abs J r d)\<lparr>a_state := s\<rparr>)"
proof -
  note inv = store_invD [OF assms(2)]
  let ?v = "with_dir (base_of r) (dview d)"
  let ?t = "toJson J s"
  let ?u = "?v(state_tmp r := None, state_path r \<mapsto> File ?t)"
  have h: "holds_state J ?t s" by (simp add: kt_toJson holds_state_print assms(1))
  have iv: "view_inv J r ?v" and a: "view_abs J r ?v = store_abs J r d"
    using inv by (simp_all add: view_inv_with_dir view_simps)
  have iu: "view_inv J r ?u" by (rule view_inv_put_state [OF view_inv_del [OF iv] h assms(3)])
  have au: "view_abs J r ?u = (store_abs J r d)\<lparr>a_state := s\<rparr>"
    by (simp add: view_abs_state_put view_abs_tmp a spec_decode_holds [OF h])
  have tmp: "okv P J r (?v(state_tmp r \<mapsto> File x))" for x
    using view_inv_put [OF iv] assms(4) by (simp add: okv_def view_abs_tmp a)
  have "does (okv P J r) (kt_writeState J r s) d () ?u"
    unfolding kt_writeState_def
  proof (rule does_bind [OF kt_base [OF inv(2,1) okv_now [where P = P, OF assms(2,4)]]], simp add: Let_def)
    fix d1 assume d1: "good d1" "dview d1 = ?v"
    have nd: "?v (state_tmp r) \<noteq> Some Dir" using shapeD(1) [OF inv(4)] by (simp add: view_simps)
    obtain d2 where d2: "write_file (state_tmp r) ?t d1 = (True, d2)"
      "chg (okv P J r) d1 (?v(state_tmp r \<mapsto> File ?t)) d2"
      using write_Q [OF d1(1) layout_simple(3) [OF inv(1)], of "okv P J r" ?t] d1(2) nd tmp by auto
    show "does (okv P J r) (then_io (writeText (state_tmp r) ?t)
            (bind_io (kt_statePath r) (\<lambda>p. ignored (rename_file (state_tmp r) p)))) d1 () ?u"
    proof (rule does_then)
      show "does (okv P J r) (writeText (state_tmp r) ?t) d1 () (?v(state_tmp r \<mapsto> File ?t))"
        using d2 by (auto simp: does_def writeText_def)
    next
      fix d3 assume d3: "good d3" "dview d3 = ?v(state_tmp r \<mapsto> File ?t)"
      show "does (okv P J r) (bind_io (kt_statePath r) (\<lambda>p. ignored (rename_file (state_tmp r) p))) d3 () ?u"
      proof (rule does_bind [OF kt_places(1) [OF d3(1) inv(1)]])
        show "okv P J r (dview d3)" using d3(2) tmp by simp
      next
        fix d4 assume d4: "good d4" "dview d4 = with_dir (base_of r) (dview d3)"
        have v4: "dview d4 = ?v(state_tmp r \<mapsto> File ?t)" by (simp add: d4(2) d3(2) with_dir_upd with_dir_absorb)
        have nd: "?v (state_path r) \<noteq> Some Dir" using shapeD(1) [OF inv(4)] by (simp add: view_simps)
        have "okv P J r ?u" using iu au assms(5) by (simp add: okv_def)
        then show "does (okv P J r) (ignored (rename_file (state_tmp r) (state_path r))) d4 () ?u"
          using rename_Q [OF d4(1) layout_simple(3,2) [OF inv(1)], of ?t "okv P J r"] v4 nd
          by (auto intro!: ignored_does)
      qed
    qed
  qed
  from does_leads [OF this inv(1) iu au] show ?thesis .
qed

section \<open>The markers\<close>

lemma kt_markMounted:
  assumes "store_inv J r d" and "P (store_abs J r d)" and "P ((store_abs J r d)\<lparr>a_mounted := True\<rparr>)"
  shows "leads P J r (kt_markMounted r) d () ((store_abs J r d)\<lparr>a_mounted := True\<rparr>)"
proof -
  note inv = store_invD [OF assms(1)]
  let ?v = "with_dir (base_of r) (dview d)"
  have iv: "view_inv J r ?v" and a: "view_abs J r ?v = store_abs J r d"
    using inv by (simp_all add: view_inv_with_dir view_simps)
  have iu: "view_inv J r (?v(mount_path r \<mapsto> File t))" for t by (rule view_inv_put [OF iv]) simp_all
  have au: "view_abs J r (?v(mount_path r \<mapsto> File t)) = (store_abs J r d)\<lparr>a_mounted := True\<rparr>" for t
    by (simp add: view_abs_mount_put a)
  have "\<exists>t. does (okv P J r) (kt_markMounted r) d () (?v(mount_path r \<mapsto> File t))"
    unfolding kt_markMounted_def
  proof (cases "?v (mount_path r)")
    case None
    have "does (okv P J r) (bind_io (kt_mountMarkerPath r) createNewFile) d () (?v(mount_path r \<mapsto> File []))"
    proof (rule does_bind [OF kt_places(2) [OF inv(2,1) okv_now [where P = P, OF assms(1,2)]]])
      fix d1 assume d1: "good d1" "dview d1 = ?v"
      have q: "okv P J r (?v(mount_path r \<mapsto> File []))" using iu au assms(3) by (simp add: okv_def)
      show "does (okv P J r) (createNewFile (mount_path r)) d1 () (?v(mount_path r \<mapsto> File []))"
        using write_Q [OF d1(1) layout_simple(4) [OF inv(1)], of "okv P J r" "[]"] d1 None q
          exists_view [OF layout_simple(4) [OF inv(1)], of d1]
        by (auto simp: createNewFile_def does_def writeText_def)
    qed
    then show "\<exists>t. does (okv P J r) (bind_io (kt_mountMarkerPath r) createNewFile) d () (?v(mount_path r \<mapsto> File t))"
      by blast
  next
    case (Some n)
    with shape_cases [OF view_inv_shape [OF iv] file_places(3)] obtain t where t: "?v (mount_path r) = Some (File t)"
      by auto
    then have "?v(mount_path r \<mapsto> File t) = ?v" by (simp add: fun_upd_idem)
    moreover have "does (okv P J r) (bind_io (kt_mountMarkerPath r) createNewFile) d () ?v"
    proof (rule does_bind [OF kt_places(2) [OF inv(2,1) okv_now [where P = P, OF assms(1,2)]]])
      fix d1 assume d1: "good d1" "dview d1 = ?v"
      then show "does (okv P J r) (createNewFile (mount_path r)) d1 () ?v"
        using exists_view [OF layout_simple(4) [OF inv(1)], of d1] t chg_refl [OF d1(1)]
        by (auto simp: createNewFile_def does_def)
    qed
    ultimately show "\<exists>t. does (okv P J r) (bind_io (kt_mountMarkerPath r) createNewFile) d () (?v(mount_path r \<mapsto> File t))"
      by metis
  qed
  then obtain t where "does (okv P J r) (kt_markMounted r) d () (?v(mount_path r \<mapsto> File t))" by blast
  from does_leads [OF this inv(1) iu au] show ?thesis .
qed

lemma kt_clearMounted:
  assumes "store_inv J r d" and "P (store_abs J r d)" and "P ((store_abs J r d)\<lparr>a_mounted := False\<rparr>)"
  shows "leads P J r (kt_clearMountedMarker r) d () ((store_abs J r d)\<lparr>a_mounted := False\<rparr>)"
proof -
  note inv = store_invD [OF assms(1)]
  let ?v = "with_dir (base_of r) (dview d)"
  let ?u = "?v(mount_path r := None)"
  have iv: "view_inv J r ?v" and a: "view_abs J r ?v = store_abs J r d"
    using inv by (simp_all add: view_inv_with_dir view_simps)
  have iu: "view_inv J r ?u" by (rule view_inv_del [OF iv])
  have au: "view_abs J r ?u = (store_abs J r d)\<lparr>a_mounted := False\<rparr>" by (simp add: view_abs_mount_del a)
  have "does (okv P J r) (kt_clearMountedMarker r) d () ?u"
    unfolding kt_clearMountedMarker_def
  proof (rule does_bind [OF kt_places(2) [OF inv(2,1) okv_now [where P = P, OF assms(1,2)]]])
    fix d1 assume d1: "good d1" "dview d1 = ?v"
    show "does (okv P J r) (ignored (delete_file (mount_path r))) d1 () ?u"
      using delete_file_Q [OF d1(1) layout_simple(4) [OF inv(1)], of "okv P J r"] d1(2) iu au assms(3)
        shapeD(1) [OF view_inv_shape [OF iv] file_places(3)]
      by (auto simp: okv_def intro!: ignored_does)
  qed
  from does_leads [OF this inv(1) iu au] show ?thesis .
qed

lemma kt_isMounted:
  assumes "store_inv J r d" and "P (store_abs J r d)"
  shows "leads P J r (kt_isMounted r) d (a_mounted (store_abs J r d)) (store_abs J r d)"
proof -
  note inv = store_invD [OF assms(1)]
  let ?v = "with_dir (base_of r) (dview d)"
  have "does (okv P J r) (kt_isMounted r) d (a_mounted (store_abs J r d)) ?v"
    unfolding kt_isMounted_def
  proof (rule does_bind [OF kt_places(2) [OF inv(2,1) okv_now [where P = P, OF assms]]])
    fix d1 assume d1: "good d1" "dview d1 = ?v"
    then show "does (okv P J r) (\<lambda>d. (Inr (path_exists (mount_path r) d), d)) d1 (a_mounted (store_abs J r d)) ?v"
      using exists_view [OF layout_simple(4) [OF inv(1)], of d1] chg_refl [OF d1(1), of "okv P J r"]
      by (simp add: does_def view_simps)
  qed
  from does_leads [OF this inv(1)] inv(3) show ?thesis by (simp add: view_inv_with_dir view_simps)
qed

section \<open>Rolling back and confirming\<close>

lemma kt_rollback:
  assumes "json_ok J" and "store_inv J r d" and "P (store_abs J r d)"
    and "\<And>p. a_previous (store_abs J r d) = Some p \<Longrightarrow>
           P ((store_abs J r d)\<lparr>a_state := rollback_state p (a_state (store_abs J r d))\<rparr>)"
    and "P (a_rollback (store_abs J r d))"
  shows "leads P J r (kt_rollbackToPrevious J r) d () (a_rollback (store_abs J r d))"
  unfolding kt_rollbackToPrevious_def
proof (rule leads_bind [OF kt_readState [where P = P, OF assms(2,3)]])
  fix d1 assume d1: "store_inv J r d1" "store_abs J r d1 = store_abs J r d"
  let ?s = "a_state (store_abs J r d)"
  show "leads P J r (case previousReleaseId ?s of None \<Rightarrow> ret ()
      | Some previous \<Rightarrow> then_io (kt_writeState J r (?s\<lparr>currentReleaseId := Some previous,
          previousReleaseId := None, bootStatus := ''confirmed''\<rparr>)) (kt_markMounted r))
     d1 () (a_rollback (store_abs J r d))"
  proof (cases "previousReleaseId ?s")
    case None
    with leads_ret [OF d1(1)] d1(2) show ?thesis by (simp add: a_rollback_def)
  next
    case (Some p)
    have ids: "simple_ids (rollback_state p ?s)"
      using abs_ids [OF assms(2)] Some by (simp add: simple_ids_def rollback_state_def)
    have "leads P J r (then_io (kt_writeState J r (rollback_state p ?s)) (kt_markMounted r)) d1 ()
        (a_rollback (store_abs J r d))"
    proof (rule leads_then [OF kt_writeState [where P = P, OF assms(1) d1(1) ids]])
      fix d2 assume d2: "store_inv J r d2" "store_abs J r d2 = (store_abs J r d1)\<lparr>a_state := rollback_state p ?s\<rparr>"
      show "leads P J r (kt_markMounted r) d2 () (a_rollback (store_abs J r d))"
        using kt_markMounted [where P = P, OF d2(1)] d2(2) d1(2) Some assms(4,5) by (simp add: a_rollback_def)
    qed (use d1 assms(3,4) Some in simp_all)
    with Some show ?thesis by (simp add: rollback_state_def)
  qed
qed

lemma kt_rollback_unconfirmed:
  assumes "json_ok J" and "store_inv J r d"
  shows "leads (\<lambda>_. True) J r (kt_rollbackToPreviousIfUnconfirmed J r) d ()
           (a_rollback_unconfirmed (store_abs J r d))"
  unfolding kt_rollbackToPreviousIfUnconfirmed_def
proof (rule leads_bind [OF kt_isMounted [where P = "\<lambda>_. True", OF assms(2) TrueI]])
  fix d1 assume d1: "store_inv J r d1" "store_abs J r d1 = store_abs J r d"
  show "leads (\<lambda>_. True) J r (if \<not> a_mounted (store_abs J r d) then kt_rollbackToPrevious J r else ret ()) d1 ()
     (a_rollback_unconfirmed (store_abs J r d))"
    using kt_rollback [where P = "\<lambda>_. True", OF assms(1) d1(1)] leads_ret [OF d1(1)] d1(2)
    by (auto simp: a_rollback_unconfirmed_def)
qed

lemma kt_confirm:
  assumes "json_ok J" and "store_inv J r d"
  shows "leads (\<lambda>_. True) J r (kt_confirmBoot J r) d () (a_confirm (store_abs J r d))"
  unfolding kt_confirmBoot_def
proof (rule leads_then [OF kt_markMounted [where P = "\<lambda>_. True", OF assms(2) TrueI TrueI]])
  fix d1 assume d1: "store_inv J r d1" "store_abs J r d1 = (store_abs J r d)\<lparr>a_mounted := True\<rparr>"
  show "leads (\<lambda>_. True) J r (bind_io (kt_readState J r) (\<lambda>s. kt_writeState J r (s\<lparr>bootStatus := ''confirmed''\<rparr>)))
      d1 () (a_confirm (store_abs J r d))"
  proof (rule leads_bind [OF kt_readState [where P = "\<lambda>_. True", OF d1(1) TrueI]])
    fix d2 assume d2: "store_inv J r d2" "store_abs J r d2 = store_abs J r d1"
    have "simple_ids (confirm_state (a_state (store_abs J r d1)))"
      using abs_ids [OF d1(1)] by (simp add: simple_ids_def confirm_state_def)
    from kt_writeState [where P = "\<lambda>_. True", OF assms(1) d2(1) this TrueI TrueI] d1(2) d2(2)
    show "leads (\<lambda>_. True) J r (kt_writeState J r ((a_state (store_abs J r d1))\<lparr>bootStatus := ''confirmed''\<rparr>))
        d2 () (a_confirm (store_abs J r d))"
      by (simp add: a_confirm_def confirm_state_def)
  qed
qed

lemma kt_current:
  assumes "store_inv J r d"
  shows "leads (\<lambda>_. True) J r (kt_getCurrentReleaseId J r) d
           (case a_current (store_abs J r d) of None \<Rightarrow> [] | Some i \<Rightarrow> i) (store_abs J r d)"
  unfolding kt_getCurrentReleaseId_def
proof (rule leads_bind [OF kt_readState [where P = "\<lambda>_. True", OF assms TrueI]])
  fix d1 assume "store_inv J r d1" and "store_abs J r d1 = store_abs J r d"
  then show "leads (\<lambda>_. True) J r (ret (case a_current (store_abs J r d) of None \<Rightarrow> [] | Some i \<Rightarrow> i)) d1
      (case a_current (store_abs J r d) of None \<Rightarrow> [] | Some i \<Rightarrow> i) (store_abs J r d)"
    using leads_ret by metis
qed

section \<open>Booting\<close>

lemma kt_place_leads:
  assumes "store_inv J r d"
  shows "leads (\<lambda>_. True) J r (kt_crashMarkerPath r) d (crash_path r) (store_abs J r d)"
    "simple_name i \<Longrightarrow> leads (\<lambda>_. True) J r (kt_bundlePath r i) d (bundle_file r i) (store_abs J r d)"
  using does_leads [OF kt_places(3) [OF store_invD(2,1) [OF assms] okv_now [where P = "\<lambda>_. True", OF assms TrueI]]]
    does_leads [OF kt_places(4) [OF store_invD(2,1) [OF assms] okv_now [where P = "\<lambda>_. True", OF assms TrueI]]]
    store_invD [OF assms] by (simp_all add: view_inv_with_dir view_simps)

lemma kt_delete_crash:
  assumes "store_inv J r d"
  shows "leads (\<lambda>_. True) J r (ignored (delete_file (crash_path r))) d () ((store_abs J r d)\<lparr>a_crash := None\<rparr>)"
proof -
  note inv = store_invD [OF assms]
  let ?u = "(dview d)(crash_path r := None)"
  have iu: "view_inv J r ?u" by (rule view_inv_del [OF inv(3)])
  have "does (okv (\<lambda>_. True) J r) (ignored (delete_file (crash_path r))) d () ?u"
    using delete_file_Q [OF inv(2) layout_simple(5) [OF inv(1)], of "okv (\<lambda>_. True) J r"] iu
      shapeD(1) [OF inv(4) file_places(4)]
    by (auto simp: okv_def intro!: ignored_does)
  from does_leads [OF this inv(1) iu] show ?thesis by (simp add: view_abs_crash_del)
qed

text \<open>Reading the marker gives the answer the abstract state records.\<close>

definition wants_rollback :: "(string \<times> json) list option \<Rightarrow> bool" where
  "wants_rollback content = (case content of None \<Rightarrow> False | Some m \<Rightarrow> optBoolean m ''isAutoRollback'' False)"

lemma kt_read_marker:
  assumes "store_inv J r d" and "dview d (crash_path r) \<noteq> None"
  shows "\<exists>content. try_opt (bind_io (readText (crash_path r)) (json_object J)) d = (Inr content, d)
    \<and> wants_rollback content = (a_crash (store_abs J r d) = Some True)"
proof -
  note inv = store_invD [OF assms(1)]
  from shape_cases [OF inv(4) file_places(4)] assms(2) obtain t where t: "dview d (crash_path r) = Some (File t)"
    by auto
  have rd: "readText (crash_path r) d = (Inr t, d)"
    using read_view [OF inv(2) layout_simple(5) [OF inv(1)]] t by (simp add: readText_def)
  have "crash_flag J t \<noteq> None" using inv(3) t by (simp add: view_inv_def crash_ok_def)
  then show ?thesis
    using rd t by (auto simp: try_opt_def catch_io_def bind_io_def json_object_def crash_flag_def
        wants_rollback_def optBoolean_def split: option.splits json.splits)
qed

lemma kt_process:
  assumes "json_ok J" and "store_inv J r d"
  shows "leads (\<lambda>_. True) J r (kt_processCrashMarkerIfPresent J r) d () (a_process_crash (store_abs J r d))"
  unfolding kt_processCrashMarkerIfPresent_def
proof (rule leads_bind [OF kt_place_leads(1) [OF assms(2)]])
  fix d1 assume d1: "store_inv J r d1" "store_abs J r d1 = store_abs J r d"
  note inv = store_invD [OF d1(1)]
  have ex: "path_exists (crash_path r) d1 \<longleftrightarrow> dview d1 (crash_path r) \<noteq> None"
    by (rule exists_view [OF layout_simple(5) [OF inv(1)]])
  let ?k = "\<lambda>content. then_io (ignored (delete_file (crash_path r)))
       (if (case content of None \<Rightarrow> False | Some m \<Rightarrow> optBoolean m ''isAutoRollback'' False)
        then kt_rollbackToPrevious J r else ret ())"
  show "leads (\<lambda>_. True) J r
     (\<lambda>d. if \<not> path_exists (crash_path r) d then ret () d
          else bind_io (try_opt (bind_io (readText (crash_path r)) (json_object J))) ?k d)
     d1 () (a_process_crash (store_abs J r d))"
  proof (cases "dview d1 (crash_path r)")
    case None
    have "a_crash (store_abs J r d1) = None" by (simp add: None)
    then have "a_process_crash (store_abs J r d1) = store_abs J r d1" by (simp add: a_process_crash_def)
    with ex None d1 show ?thesis by (intro leads_pure) simp_all
  next
    case (Some n)
    from kt_read_marker [OF d1(1)] Some obtain content where
      c: "try_opt (bind_io (readText (crash_path r)) (json_object J)) d1 = (Inr content, d1)"
      and w: "wants_rollback content = (a_crash (store_abs J r d1) = Some True)" by auto
    have "leads (\<lambda>_. True) J r (?k content) d1 () (a_process_crash (store_abs J r d))"
    proof (rule leads_then [OF kt_delete_crash [OF d1(1)]])
      fix d2 assume d2: "store_inv J r d2" "store_abs J r d2 = (store_abs J r d1)\<lparr>a_crash := None\<rparr>"
      show "leads (\<lambda>_. True) J r (if (case content of None \<Rightarrow> False | Some m \<Rightarrow> optBoolean m ''isAutoRollback'' False)
          then kt_rollbackToPrevious J r else ret ()) d2 () (a_process_crash (store_abs J r d))"
        using kt_rollback [where P = "\<lambda>_. True", OF assms(1) d2(1)] d2 w d1(2)
        by (auto simp: a_process_crash_def wants_rollback_def intro!: leads_pure)
    qed
    then show ?thesis using c ex Some by (simp add: leads_def bind_io_def)
  qed
qed

lemma kt_resolve:
  assumes "json_ok J" and "store_inv J r d"
  defines "a \<equiv> a_process_crash (store_abs J r d)"
  shows "leads (\<lambda>_. True) J r (kt_resolveBundlePath J r) d (map_option (bundle_string r) (a_boot a)) a"
  unfolding kt_resolveBundlePath_def
proof (rule leads_then [OF kt_process [OF assms(1,2), folded a_def]])
  fix d1 assume d1: "store_inv J r d1" "store_abs J r d1 = a"
  show "leads (\<lambda>_. True) J r (bind_io (kt_readState J r) (\<lambda>s. case currentReleaseId s of None \<Rightarrow> ret None
       | Some i \<Rightarrow> bind_io (kt_bundlePath r i) (\<lambda>path d. (Inr (if path_exists path d then Some (path_str path) else None), d))))
     d1 (map_option (bundle_string r) (a_boot a)) a"
  proof (rule leads_bind [OF kt_readState [where P = "\<lambda>_. True", OF d1(1) TrueI]])
    fix d2 assume d2: "store_inv J r d2" "store_abs J r d2 = store_abs J r d1"
    show "leads (\<lambda>_. True) J r (case a_current (store_abs J r d1) of None \<Rightarrow> ret None
       | Some i \<Rightarrow> bind_io (kt_bundlePath r i) (\<lambda>path d. (Inr (if path_exists path d then Some (path_str path) else None), d)))
     d2 (map_option (bundle_string r) (a_boot a)) a"
    proof (cases "a_current a")
      case None
      with leads_ret [OF d2(1)] d1(2) d2(2) show ?thesis by (simp add: a_boot_def)
    next
      case (Some i)
      with abs_ids [OF d1(1)] d1(2) have i: "simple_name i" by (simp add: simple_ids_def)
      have "leads (\<lambda>_. True) J r (bind_io (kt_bundlePath r i)
          (\<lambda>path d. (Inr (if path_exists path d then Some (path_str path) else None), d)))
        d2 (map_option (bundle_string r) (a_boot a)) a"
      proof (rule leads_bind [OF kt_place_leads(2) [OF d2(1) i]])
        fix d3 assume d3: "store_inv J r d3" "store_abs J r d3 = store_abs J r d2"
        note inv = store_invD [OF d3(1)]
        have a3: "store_abs J r d3 = a" using d1(2) d2(2) d3(2) by simp
        have "a_bundle a i = file_text (dview d3 (bundle_file r i))" using i by (simp add: a3 [symmetric])
        then have "a_boot a = (if dview d3 (bundle_file r i) = None then None else Some i)"
          using shape_cases [OF inv(4) file_places(5), of i] Some by (auto simp: a_boot_def)
        then show "leads (\<lambda>_. True) J r (\<lambda>d. (Inr (if path_exists (bundle_file r i) d
            then Some (path_str (bundle_file r i)) else None), d)) d3 (map_option (bundle_string r) (a_boot a)) a"
          using exists_view [OF layout_simple(8) [OF inv(1) i], of d3]
          by (intro leads_pure [OF d3(1) a3]) (simp add: bundle_string_def)
      qed
      with Some d1(2) show ?thesis by simp
    qed
  qed
qed

section \<open>Pruning\<close>

lemma kt_prune:
  assumes "store_inv J r d"
    and "\<And>b. pruned (set keep) (a_bundle (store_abs J r d)) b \<Longrightarrow> P ((store_abs J r d)\<lparr>a_bundle := b\<rparr>)"
  shows "leads P J r (kt_pruneOldReleases r keep) d ()
           ((store_abs J r d)\<lparr>a_bundle := keep_only (Some ` set keep) (a_bundle (store_abs J r d))\<rparr>)"
  unfolding kt_pruneOldReleases_def
proof (rule leads_bind)
  note inv = store_invD [OF assms(1)]
  have p: "P (store_abs J r d)" using assms(2) by (rule pruned_self [where K = "set keep"])
  show "leads P J r (kt_releasesDirectory r) d (releases_path r) (store_abs J r d)"
    using does_leads [OF kt_releases [OF inv(2,1) okv_now [where P = P, OF assms(1) p]] inv(1)] inv(3)
    by (simp add: view_inv_with_dir view_simps)
qed (rule prune_list_leads, assumption, assumption, rule assms(2))

section \<open>Installing\<close>

text \<open>The states on the way of an installation, as far as the bundle of the new release is concerned.\<close>

lemma kt_place:
  assumes "store_inv J r d" and i: "simple_name i" and "P (store_abs J r d)"
    and "P ((store_abs J r d)\<lparr>a_bundle := (a_bundle (store_abs J r d))(i := None)\<rparr>)"
    and "P ((store_abs J r d)\<lparr>a_bundle := (a_bundle (store_abs J r d))(i \<mapsto> c)\<rparr>)"
  shows "leads P J r (kt_place_bundle r i c) d ()
           ((store_abs J r d)\<lparr>a_bundle := (a_bundle (store_abs J r d))(i \<mapsto> c)\<rparr>)"
proof -
  note inv = store_invD [OF assms(1)]
  let ?Q = "okv P J r"
  let ?v = "with_dir (release_dir r i) (dview d)"
  let ?w = "\<lambda>x. ?v(bundle_tmp r i \<mapsto> File x)"
  let ?u = "?v(bundle_file r i := None, bundle_tmp r i := None, bundle_file r i \<mapsto> File c)"
  have iv: "view_inv J r ?v" and a: "view_abs J r ?v = store_abs J r d"
    using inv by (simp_all add: view_inv_with_dir view_simps)
  have iw: "view_inv J r (?w x)" for x by (rule view_inv_put [OF iv]) simp_all
  have aw: "view_abs J r (?w x) = store_abs J r d" for x by (simp add: view_abs_tmp a)
  have qw: "?Q (?w x)" for x using iw aw assms(3) by (simp add: okv_def)
  have qd: "?Q ((?w c)(bundle_file r i := None))"
    using view_inv_del [OF iw] aw assms(4) by (simp add: okv_def view_abs_bundle_del del: view_abs_sel)
  have iu: "view_inv J r ?u"
    by (rule view_inv_put [OF view_inv_del [OF view_inv_del [OF iv]]]) simp_all
  have au: "view_abs J r ?u = (store_abs J r d)\<lparr>a_bundle := (a_bundle (store_abs J r d))(i \<mapsto> c)\<rparr>"
    by (simp add: view_abs_bundle_put [OF i] view_abs_bundle_del view_abs_tmp a del: view_abs_sel)
  have qu: "?Q ?u" using iu au assms(5) by (simp add: okv_def)
  have tmp_nd: "?v (bundle_tmp r i) \<noteq> Some Dir" and fin_nd: "?v (bundle_file r i) \<noteq> Some Dir"
    using shapeD(1) [OF view_inv_shape [OF iv]] by simp_all
  let ?final = "\<lambda>d. if path_exists (bundle_file r i) d then ignored (delete_file (bundle_file r i)) d else ret () d"
  let ?rename = "ignored (rename_file (bundle_tmp r i) (bundle_file r i))"
  have "does ?Q (kt_place_bundle r i c) d () ?u"
    unfolding kt_place_bundle_def
  proof (rule does_bind [OF kt_releases [OF inv(2,1) okv_now [where P = P, OF assms(1,3)]]],
      unfold Let_def kt_children(7) [OF i] kt_children(8,9))
    fix d1 assume d1: "good d1" "dview d1 = with_dir (releases_path r) (dview d)"
    have q1: "?Q (dview d1)" using okv_with_dir [OF okv_now [where P = P, OF assms(1,3)]] d1(2) by simp
    have m: "does ?Q (ignored (mkdirs (release_dir r i))) d1 () ?v"
      using mkdirs_does [OF d1(1) layout_simple(7) [OF inv(1) i] q1 dir_places(3)] d1(2)
      by (auto simp: with_dir_absorb intro!: ignored_does)
    show "does ?Q (then_io (ignored (mkdirs (release_dir r i)))
        (then_io (writeText (bundle_tmp r i) c) (then_io ?final ?rename))) d1 () ?u"
    proof (rule does_then [OF m])
      fix d2 assume d2: "good d2" "dview d2 = ?v"
      have w: "does ?Q (writeText (bundle_tmp r i) c) d2 () (?w c)"
        using write_Q [OF d2(1) layout_simple(9) [OF inv(1) i], of ?Q c] d2(2) tmp_nd qw
        by (auto simp: does_def writeText_def)
      show "does ?Q (then_io (writeText (bundle_tmp r i) c) (then_io ?final ?rename)) d2 () ?u"
      proof (rule does_then [OF w])
        fix d3 assume d3: "good d3" "dview d3 = ?w c"
        show "does ?Q (then_io ?final ?rename) d3 () ?u"
        proof (rule does_then)
          have "does ?Q (ignored (delete_file (bundle_file r i))) d3 () ((?w c)(bundle_file r i := None))"
            using delete_file_Q [OF d3(1) layout_simple(8) [OF inv(1) i], of ?Q] d3(2) fin_nd qd
            by (auto intro!: ignored_does)
          moreover have "does ?Q (ret ()) d3 () ((?w c)(bundle_file r i := None))"
            if "\<not> path_exists (bundle_file r i) d3"
            using that exists_view [OF layout_simple(8) [OF inv(1) i], of d3] d3
            by (intro does_ret) (auto simp: fun_eq_iff)
          ultimately show "does ?Q ?final d3 () ((?w c)(bundle_file r i := None))"
            by (cases "path_exists (bundle_file r i) d3") (simp_all add: does_def)
        next
          fix d4 assume d4: "good d4" "dview d4 = (?w c)(bundle_file r i := None)"
          have e: "(?w c)(bundle_file r i := None, bundle_tmp r i := None, bundle_file r i \<mapsto> File c) = ?u"
            by (auto simp: fun_eq_iff)
          have qu': "?Q ((dview d4)(bundle_tmp r i := None, bundle_file r i \<mapsto> File c))"
            unfolding d4(2) e by (rule qu)
          show "does ?Q ?rename d4 () ?u"
            using rename_Q [where Q = ?Q and c = c, OF d4(1) layout_simple(9,8) [OF inv(1) i]] qu' d4(2) e
            by (auto intro!: ignored_does)
        qed
      qed
    qed
  qed
  from does_leads [OF this inv(1) iu au] show ?thesis .
qed

lemma kt_install:
  assumes "json_ok J" and "store_inv J r d" and i: "simple_name i"
    and P: "\<And>x. install_stage i c (store_abs J r d) x \<Longrightarrow> P x"
  shows "leads P J r (kt_installUpdate J r i c) d () (a_install i c (store_abs J r d))"
proof -
  have "leads P J r (then_io (kt_place_bundle r i c) (bind_io (kt_readState J r) (\<lambda>s.
      then_io (kt_writeState J r (install_state i s)) (then_io (kt_clearMountedMarker r)
        (kt_pruneOldReleases r (i # (case currentReleaseId s of None \<Rightarrow> [] | Some p \<Rightarrow> [p]))))))) d ()
    (a_install i c (store_abs J r d))"
    by (rule install_chain [where P = P, OF assms(2) i P kt_place [OF assms(2) i] kt_readState
          kt_writeState [OF assms(1)] kt_clearMounted kt_prune])
  then show ?thesis by (simp add: kt_installUpdate_def install_state_def Let_def)
qed

end
