(* ===== verification/Lifecycle.thy ===== *)
theory Lifecycle
  imports StoreLogic CrashProps
begin

text \<open>
  The storage interface and the life of a device that relies on it. \<open>store_api\<close> collects the entry
  points the app and the SDK call; the locale \<open>release_store\<close> states what they promise in terms of
  \<open>ReleaseSpec\<close>, and the lemmas inside it follow the device through boots, installations, confirmations,
  uncaught exceptions and fatal signals, the last ones written by the native crash handler itself.
\<close>

section \<open>Entry points\<close>

record 'e store_api =
  api_base :: "path \<Rightarrow> (disk, 'e, path) action"
  api_install :: "json_lib \<Rightarrow> path \<Rightarrow> string \<Rightarrow> string \<Rightarrow> (disk, 'e, unit) action"
  api_confirm :: "json_lib \<Rightarrow> path \<Rightarrow> (disk, 'e, unit) action"
  api_uncaught :: "json_lib \<Rightarrow> path \<Rightarrow> (disk, 'e, unit) action"
  api_resolve :: "json_lib \<Rightarrow> path \<Rightarrow> (disk, 'e, string option) action"
  api_current :: "json_lib \<Rightarrow> path \<Rightarrow> (disk, 'e, string) action"

text \<open>
  One event of the device. A fatal signal finds the handlers installed for the storage directory
  the platform names, nothing else to chain to, and a free descriptor; the installation touches no file
  (\<open>install_registers\<close>), so it does not matter how long ago it was. A base directory beyond the room of
  the path buffers is excluded.
\<close>

inductive device_step :: "'e store_api \<Rightarrow> json_lib \<Rightarrow> path \<Rightarrow> env \<Rightarrow> disk \<Rightarrow> event \<Rightarrow> disk \<Rightarrow> bool"
  for api :: "'e store_api" and J :: json_lib and r :: path and e :: env where
  boot: "api_resolve api J r d = (Inr x, d') \<Longrightarrow> device_step api J r e d Boot d'"
| install: "simple_name i \<Longrightarrow> api_install api J r i c d = (Inr (), d') \<Longrightarrow>
    device_step api J r e d (Install i c) d'"
| confirm: "api_confirm api J r d = (Inr (), d') \<Longrightarrow> device_step api J r e d Confirm d'"
| uncaught: "api_uncaught api J r d = (Inr (), d') \<Longrightarrow> device_step api J r e d UncaughtException d'"
| signal: "api_base api r d = (Inr b, d1) \<Longrightarrow> own_ok e \<Longrightarrow> statics_ok p \<Longrightarrow> p_disk p = d1 \<Longrightarrow>
    free_fd p \<noteq> None \<Longrightarrow> length (path_str b) \<le> 498 \<Longrightarrow>
    salve_push_install_crash_handlers e (path_str b) p = Inr p1 \<Longrightarrow>
    sint n \<in> set (handled_signals (plat e)) \<Longrightarrow> inert (plat e) (p_disp p (sint n)) \<Longrightarrow>
    deliver e n p1 = Some (Inr p2) \<Longrightarrow> device_step api J r e d Signal (p_disk p2)"

inductive_cases device_stepE: "device_step api J r e d ev d'"

inductive device_run :: "'e store_api \<Rightarrow> json_lib \<Rightarrow> path \<Rightarrow> env \<Rightarrow> disk \<Rightarrow> event list \<Rightarrow> disk \<Rightarrow> bool"
  for api :: "'e store_api" and J :: json_lib and r :: path and e :: env where
  nil: "device_run api J r e d [] d"
| cons: "device_step api J r e d ev d1 \<Longrightarrow> device_run api J r e d1 evs d2 \<Longrightarrow>
    device_run api J r e d (ev # evs) d2"

inductive_simps device_run_simps: "device_run api J r e d [] d'" "device_run api J r e d (ev # evs) d'"

text \<open>A device on which the SDK has stored nothing yet.\<close>

definition new_device :: "path \<Rightarrow> disk \<Rightarrow> bool" where
  "new_device r d \<longleftrightarrow> simple_path r \<and> good d \<and> dview d r = Some Dir \<and> dview d (base_of r) = None"

lemma new_device_store:
  assumes "new_device r d"
  shows "store_inv J r d" "store_abs J r d = a_empty"
proof -
  have g: "good d" "simple_path r" and r: "dview d r = Some Dir" and b: "dview d (base_of r) = None"
    using assms by (simp_all add: new_device_def)
  have none: "dview d p = None" if "prefix (base_of r) p" for p
    using that b tree_prefix [OF good_tree [OF g(1)], of p "base_of r"]
    by (cases "p = base_of r"; cases "dview d p") (auto simp: strict_prefix_def)
  have pre: "prefix (base_of r) (state_path r)" "prefix (base_of r) (state_tmp r)"
    "prefix (base_of r) (mount_path r)" "prefix (base_of r) (crash_path r)"
    "prefix (base_of r) (bundle_file r i)" "prefix (base_of r) (bundle_tmp r i)" for i
    by (simp_all add: layout_defs)
  have "dview d p \<noteq> Some (File c)" if "dir_place r p" for p c
  proof (cases "prefix (base_of r) p")
    case True
    with none show ?thesis by simp
  next
    case False
    with that have "prefix p r"
      by (auto simp: dir_place_def layout_defs prefix_append prefix_Cons)
    then show ?thesis
      using r tree_prefix [OF good_tree [OF g(1)], of r p] by (cases "p = r") (auto simp: strict_prefix_def)
  qed
  then have "shape r (dview d)" using none pre by (auto simp: shape_def file_place_def)
  then show "store_inv J r d" using g none pre by (simp add: store_inv_def view_inv_def state_ok_def crash_ok_def)
  show "store_abs J r d = a_empty"
    using none pre by (simp add: view_abs_def a_empty_def abs_state_def fun_eq_iff)
qed

text \<open>The sample device, and its history.\<close>

lemma sample_new_device: "new_device [''data''] sample_disk"
proof -
  have v: "fview [([''data''], Dir)] p = (if p = [] \<or> p = [''data''] then Some Dir else None)" for p
    by (auto simp: fview_def fget_def norm_simple simple_name_def)
  have "tree (dview sample_disk)" by (auto simp: tree_def v)
  then show ?thesis by (simp add: new_device_def good_def v base_of_def simple_name_def)
qed

lemma sample_base_short: "length (path_str (base_of [''data''])) \<le> 498"
  by (simp add: path_str_def base_of_def)

definition sample_events :: "event list" where
  "sample_events = [Boot, Install ''a'' ''bundle A'', Boot, Confirm, Install ''b'' ''bundle B'', Boot]"

lemma sample_history:
  "a_current (a_run sample_events a_empty) = Some ''b''" "a_previous (a_run sample_events a_empty) = Some ''a''"
  "\<not> a_mounted (a_run sample_events a_empty)" "a_crash (a_run sample_events a_empty) = None"
  by (simp_all add: sample_events_def a_empty_def confirmedEmpty_def spec_defs)

section \<open>The crash handler as an operation of the storage\<close>

text \<open>
  The file the native handler writes is the crash marker of the layout, and its answer is the one the
  specification prescribes.
\<close>

lemma handler_signal:
  assumes "json_ok J" and "store_inv J r d1" and "dview d1 (base_of r) = Some Dir"
    and "own_ok e" and "statics_ok p" and "p_disk p = d1" and "free_fd p \<noteq> None"
    and "length (path_str (base_of r)) \<le> 498"
    and "salve_push_install_crash_handlers e (path_str (base_of r)) p = Inr p1"
    and "sint n \<in> set (handled_signals (plat e))" and "inert (plat e) (p_disp p (sint n))"
  shows "\<exists>p2. deliver e n p1 = Some (Inr p2) \<and> p_killed p2 = Some (sint n)
    \<and> store_inv J r (p_disk p2) \<and> store_abs J r (p_disk p2) = a_signal (store_abs J r d1)"
proof -
  note inv = store_invD [OF assms(2)]
  have sp: "simple_path (base_of r)" using inv(1) by simp
  have crash: "base_of r @ [''crash.marker''] = crash_path r" and mount: "base_of r @ [''mount.marker''] = mount_path r"
    by (simp_all add: layout_defs)
  have hd: "healthy (p_disk p)" using inv(2) by (simp add: assms(6))
  have bd: "dget (p_disk p) (base_of r) = Some Dir" using assms(3,6) by (simp add: fview_simple [OF sp])
  have nd: "dget (p_disk p) (base_of r @ [''crash.marker'']) \<noteq> Some Dir"
    using shapeD(1) [OF inv(4) file_places(4)] by (simp add: crash assms(6) fview_simple inv(1))
  obtain p2 where p2: "deliver e n p1 = Some (Inr p2)" "p_killed p2 = Some (sint n)" "healthy (p_disk p2)"
    "\<forall>q. dget (p_disk p2) q = (if norm q = crash_path r
        then Some (File (marker_json (sint n) (dget (p_disk p) (mount_path r) = None))) else dget (p_disk p) q)"
    using signal_leaves_marker [OF assms(4,5) sp assms(8,9) hd assms(7) bd nd assms(10,11)]
    unfolding crash mount by blast
  let ?t = "marker_json (sint n) (dview d1 (mount_path r) = None)"
  have v: "dview (p_disk p2) = (dview d1)(crash_path r \<mapsto> File ?t)"
  proof
    fix q
    show "dview (p_disk p2) q = ((dview d1)(crash_path r \<mapsto> File ?t)) q"
      using p2(4) inv(1) by (cases "simple_path q") (auto simp: fview_def norm_simple assms(6))
  qed
  have fl: "crash_flag J ?t = Some (\<not> a_mounted (store_abs J r d1))"
    using crash_flag_marker [OF assms(1)] by simp
  have "tree ((dview d1)(crash_path r \<mapsto> File ?t))"
    by (rule tree_put [OF good_tree [OF inv(2)]]) (use assms(3) shapeD(1) [OF inv(4) file_places(4)] in simp_all)
  with p2(3) v have "good (p_disk p2)" by (simp add: good_def)
  moreover have "view_inv J r ((dview d1)(crash_path r \<mapsto> File ?t))"
    by (rule view_inv_put_crash [OF inv(3)]) (simp add: fl)
  moreover have "view_abs J r ((dview d1)(crash_path r \<mapsto> File ?t)) = a_signal (store_abs J r d1)"
    by (simp add: view_abs_crash_put fl a_signal_def del: view_abs_sel)
  ultimately show ?thesis using p2(1,2) inv(1) v by (auto simp: store_inv_def)
qed

section \<open>The interface\<close>

locale release_store =
  fixes api :: "'e store_api"
  assumes base_law: "store_inv J r d \<Longrightarrow>
      \<exists>d'. api_base api r d = (Inr (base_of r), d') \<and> store_inv J r d' \<and> store_abs J r d' = store_abs J r d
        \<and> dview d' (base_of r) = Some Dir"
    and install_law: "json_ok J \<Longrightarrow> store_inv J r d \<Longrightarrow> simple_name i \<Longrightarrow>
      (\<And>x. install_stage i c (store_abs J r d) x \<Longrightarrow> P x) \<Longrightarrow>
      leads P J r (api_install api J r i c) d () (a_install i c (store_abs J r d))"
    and confirm_law: "json_ok J \<Longrightarrow> store_inv J r d \<Longrightarrow>
      leads (\<lambda>_. True) J r (api_confirm api J r) d () (a_confirm (store_abs J r d))"
    and uncaught_law: "json_ok J \<Longrightarrow> store_inv J r d \<Longrightarrow>
      leads (\<lambda>_. True) J r (api_uncaught api J r) d () (a_rollback_unconfirmed (store_abs J r d))"
    and resolve_law: "json_ok J \<Longrightarrow> store_inv J r d \<Longrightarrow>
      leads (\<lambda>_. True) J r (api_resolve api J r) d
        (map_option (bundle_string r) (a_boot (a_process_crash (store_abs J r d))))
        (a_process_crash (store_abs J r d))"
    and current_law: "json_ok J \<Longrightarrow> store_inv J r d \<Longrightarrow>
      leads (\<lambda>_. True) J r (api_current api J r) d
        (case a_current (store_abs J r d) of None \<Rightarrow> [] | Some i \<Rightarrow> i) (store_abs J r d)"
begin

text \<open>Each event of the device is the specified event, and what is specified can happen.\<close>

lemma step_refines:
  assumes "json_ok J" and "store_inv J r d" and "device_step api J r e d ev d'"
  shows "store_inv J r d' \<and> store_abs J r d' = a_step ev (store_abs J r d)"
  using assms(3)
proof (cases rule: device_step.cases)
  case (boot x)
  with resolve_law [OF assms(1,2)] show ?thesis by (auto simp: leads_def)
next
  case (install i c)
  with install_law [OF assms(1,2), of i c "\<lambda>_. True"] show ?thesis by (auto simp: leads_def)
next
  case confirm
  with confirm_law [OF assms(1,2)] show ?thesis by (auto simp: leads_def)
next
  case uncaught
  with uncaught_law [OF assms(1,2)] show ?thesis by (auto simp: leads_def)
next
  case (signal b d1 p p1 n p2)
  obtain d1' where d1': "api_base api r d = (Inr (base_of r), d1')" "store_inv J r d1'"
    "store_abs J r d1' = store_abs J r d" "dview d1' (base_of r) = Some Dir"
    using base_law [OF assms(2)] by blast
  from d1'(1) signal(3) have b: "b = base_of r" and d: "d1 = d1'" by simp_all
  from handler_signal [OF assms(1) d1'(2,4) signal(4,5) signal(6) [unfolded d] signal(7,8) [unfolded b]
      signal(9) [unfolded b] signal(10,11)]
  obtain q where "deliver e n p1 = Some (Inr q)" "store_inv J r (p_disk q)"
    "store_abs J r (p_disk q) = a_signal (store_abs J r d1')" by blast
  with signal(1,2,12) d1'(3) show ?thesis by simp
qed

lemma run_refines:
  assumes "json_ok J" and "device_run api J r e d evs d'" and "store_inv J r d"
  shows "store_inv J r d' \<and> store_abs J r d' = a_run evs (store_abs J r d)"
  using assms(2,3)
proof (induction rule: device_run.induct)
  case (cons d ev d1 evs d2)
  from step_refines [OF assms(1) cons.prems cons.hyps(1)] cons.IH show ?case by simp
qed simp

lemma run_from_new:
  assumes "json_ok J" and "device_run api J r e d evs d'" and "new_device r d"
  shows "store_inv J r d' \<and> store_abs J r d' = a_run evs a_empty \<and> a_inv (store_abs J r d')"
  using run_refines [OF assms(1,2) new_device_store(1) [OF assms(3)]] new_device_store(2) [OF assms(3)]
    a_run_inv [OF a_inv_empty] by simp

lemma boot_result:
  assumes "json_ok J" and "store_inv J r d" and "a_inv (store_abs J r d)"
  shows "\<exists>d'. api_resolve api J r d
      = (Inr (map_option (bundle_string r) (a_current (a_process_crash (store_abs J r d)))), d')
    \<and> store_inv J r d' \<and> store_abs J r d' = a_process_crash (store_abs J r d)"
  using resolve_law [OF assms(1,2)] a_inv_boot [OF a_inv_step [OF assms(3), of Boot]]
  by (auto simp: leads_def)

text \<open>No event is stuck: no operation throws, and every signal ends the process and leaves its marker.\<close>

lemma step_exists:
  assumes "json_ok J" and "store_inv J r d" and "own_ok e" and "length (path_str (base_of r)) \<le> 498"
    and "case ev of Install i c \<Rightarrow> simple_name i | _ \<Rightarrow> True"
  shows "\<exists>d'. device_step api J r e d ev d'"
proof (cases ev)
  case Boot
  with resolve_law [OF assms(1,2)] show ?thesis by (auto simp: leads_def intro: device_step.boot)
next
  case (Install i c)
  with install_law [OF assms(1,2), of i c "\<lambda>_. True"] assms(5) show ?thesis
    by (auto simp: leads_def intro: device_step.install)
next
  case Confirm
  with confirm_law [OF assms(1,2)] show ?thesis by (auto simp: leads_def intro: device_step.confirm)
next
  case UncaughtException
  with uncaught_law [OF assms(1,2)] show ?thesis by (auto simp: leads_def intro: device_step.uncaught)
next
  case Signal
  obtain d1 where d1: "api_base api r d = (Inr (base_of r), d1)" "store_inv J r d1"
    "dview d1 (base_of r) = Some Dir"
    using base_law [OF assms(2)] by blast
  have sp: "simple_path (base_of r)" using store_invD(1) [OF assms(2)] by simp
  obtain p1 where p1: "salve_push_install_crash_handlers e (path_str (base_of r)) (fresh_process d1) = Inr p1"
    using install_result [OF fresh_process_ok(1) path_str_no_nul [OF sp]] by blast
  have h: "sint (6 :: 32 word) \<in> set (handled_signals (plat e))" by (simp add: handled_signals_def)
  have inr: "inert (plat e) (p_disp (fresh_process d1) (sint (6 :: 32 word)))" by simp
  have fd: "free_fd (fresh_process d1) \<noteq> None" by simp
  from handler_signal [OF assms(1) d1(2,3) assms(3) fresh_process_ok(1,2) fd assms(4) p1 h inr]
  obtain p2 where "deliver e 6 p1 = Some (Inr p2)" by blast
  from device_step.signal [OF d1(1) assms(3) fresh_process_ok(1,2) fd assms(4) p1 h inr this] Signal
  show ?thesis by blast
qed

lemma run_exists:
  assumes "json_ok J" and "store_inv J r d" and "own_ok e" and "length (path_str (base_of r)) \<le> 498"
    and "\<forall>i c. Install i c \<in> set evs \<longrightarrow> simple_name i"
  shows "\<exists>d'. device_run api J r e d evs d'"
  using assms(2,5)
proof (induction evs arbitrary: d)
  case Nil
  show ?case by (auto intro: device_run.nil)
next
  case (Cons ev evs)
  from Cons.prems(2) have "case ev of Install i c \<Rightarrow> simple_name i | _ \<Rightarrow> True" by (cases ev) auto
  from step_exists [OF assms(1) Cons.prems(1) assms(3,4) this] obtain d1 where
    d1: "device_step api J r e d ev d1" by blast
  from Cons.IH [of d1] step_refines [OF assms(1) Cons.prems(1) d1] Cons.prems(2)
  show ?case using d1 by (auto intro: device_run.cons)
qed

text \<open>The device boots the current release, and the file it boots holds the bytes installed last under that id.\<close>

lemma boots_what_was_installed:
  assumes "json_ok J" and "new_device r d0" and "device_run api J r e d0 evs d"
  shows "\<exists>d' x. api_resolve api J r d = (Inr x, d') \<and> x = map_option (bundle_string r) (a_current (store_abs J r d'))
    \<and> (\<forall>i. a_current (store_abs J r d') = Some i \<longrightarrow>
        (\<exists>c. last_installed evs i = Some c \<and> dview d' (bundle_file r i) = Some (File c)))"
proof -
  note run = run_from_new [OF assms(1,3,2)]
  obtain d' where d': "api_resolve api J r d
      = (Inr (map_option (bundle_string r) (a_current (a_process_crash (store_abs J r d)))), d')"
    "store_inv J r d'" "store_abs J r d' = a_process_crash (store_abs J r d)"
    using boot_result [OF assms(1)] run by blast
  have ab: "store_abs J r d' = a_run (evs @ [Boot]) a_empty" using run d'(3) by (simp add: a_run_append)
  have "\<exists>c. last_installed evs i = Some c \<and> dview d' (bundle_file r i) = Some (File c)"
    if i: "a_current (store_abs J r d') = Some i" for i
  proof -
    have "a_inv (store_abs J r d')" unfolding ab by (rule a_run_inv [OF a_inv_empty])
    from current_kept [OF this i] obtain c where c: "a_bundle (store_abs J r d') i = Some c" by blast
    from bundle_is_last_installed [OF c [unfolded ab]] have "last_installed evs i = Some c"
      by (simp add: last_installed_snoc)
    moreover from c have "dview d' (bundle_file r i) = Some (File c)"
      by (auto simp: file_text_def split: if_splits option.splits node.splits)
    ultimately show ?thesis by blast
  qed
  with d' show ?thesis by (auto simp del: view_abs_sel)
qed

text \<open>A fatal signal in a release that has not confirmed its boot: the next boot is the release before it.\<close>

lemma signal_rolls_back:
  assumes "json_ok J" and "new_device r d0" and "device_run api J r e d0 evs d"
    and "dview d (mount_path r) = None" and "a_previous (store_abs J r d) = Some p"
    and "device_step api J r e d Signal d1"
  shows "\<exists>d2. api_resolve api J r d1 = (Inr (Some (bundle_string r p)), d2)
    \<and> a_current (store_abs J r d2) = Some p \<and> dview d2 (mount_path r) \<noteq> None
    \<and> dview d2 (bundle_file r p) = dview d (bundle_file r p)"
proof -
  let ?a = "store_abs J r d"
  note run = run_from_new [OF assms(1,3,2)]
  from step_refines [OF assms(1) conjunct1 [OF run] assms(6)] have s1: "store_inv J r d1"
    and a1: "store_abs J r d1 = a_signal ?a" by simp_all
  have i1: "a_inv (store_abs J r d1)" using a_inv_step [OF conjunct2 [OF conjunct2 [OF run]], of Signal] by (simp add: a1)
  have nm: "\<not> a_mounted ?a" using assms(4) by simp
  have goes_back: "a_process_crash (a_signal ?a) = a_rollback (?a\<lparr>a_crash := None\<rparr>)"
    using crash_goes_back [OF nm assms(5)] by simp
  from boot_result [OF assms(1) s1 i1] obtain d2 where d2: "api_resolve api J r d1
      = (Inr (map_option (bundle_string r) (a_current (a_rollback (?a\<lparr>a_crash := None\<rparr>)))), d2)"
    "store_inv J r d2" "store_abs J r d2 = a_rollback (?a\<lparr>a_crash := None\<rparr>)" unfolding a1 goes_back by blast
  have rb: "a_current (a_rollback (?a\<lparr>a_crash := None\<rparr>)) = Some p" "a_mounted (a_rollback (?a\<lparr>a_crash := None\<rparr>))"
    using rollback_target [of "?a\<lparr>a_crash := None\<rparr>" p] assms(5) by (simp_all del: view_abs_sel)
  have "a_bundle (store_abs J r d2) = a_bundle ?a"
    using assms(5) by (simp add: d2(3) a_rollback_def del: view_abs_sel)
  moreover have "simple_name p"
    using abs_ids [OF conjunct1 [OF run]] assms(5) by (simp add: simple_ids_def)
  ultimately have "file_text (dview d2 (bundle_file r p)) = file_text (dview d (bundle_file r p))"
    by (simp add: fun_eq_iff split: if_splits)
  then have "dview d2 (bundle_file r p) = dview d (bundle_file r p)"
    using shape_cases [OF store_invD(4) [OF d2(2)] file_places(5), of p]
      shape_cases [OF store_invD(4) [OF conjunct1 [OF run]] file_places(5), of p] by auto
  moreover have "dview d2 (mount_path r) \<noteq> None"
    using rb(2) arg_cong [OF d2(3), of a_mounted] by simp
  ultimately show ?thesis using d2(1,3) rb(1) by (auto simp del: view_abs_sel)
qed

text \<open>A release whose boot is confirmed stays, whatever signals, exceptions and boots follow.\<close>

lemma confirmed_release_stays:
  assumes "json_ok J" and "new_device r d0" and "device_run api J r e d0 evs d"
    and "dview d (mount_path r) \<noteq> None" and "a_crash (store_abs J r d) \<noteq> Some True"
    and "device_run api J r e d evs' d1" and "set evs' \<subseteq> {Boot, Signal, Confirm, UncaughtException}"
  shows "\<exists>d2. api_resolve api J r d1 = (Inr (map_option (bundle_string r) (a_current (store_abs J r d))), d2)
    \<and> a_current (store_abs J r d2) = a_current (store_abs J r d)"
proof -
  let ?a = "store_abs J r d"
  note run = run_from_new [OF assms(1,3,2)]
  note run1 = run_refines [OF assms(1,6) conjunct1 [OF run]]
  have i1: "a_inv (store_abs J r d1)" 
    by (simp only: conjunct2 [OF run1] a_run_inv [OF conjunct2 [OF conjunct2 [OF run]]])
  have st: "a_current (a_run (evs' @ [Boot]) ?a) = a_current ?a"
    using confirmed_stays [of ?a "evs' @ [Boot]"] assms(4,5,7) by simp
  from boot_result [OF assms(1) _ i1] run1 st show ?thesis
    by (auto simp: a_run_append simp del: view_abs_sel)
qed

text \<open>An uncaught exception in an unconfirmed release goes back at once; in a confirmed one it changes nothing.\<close>

lemma uncaught_effect:
  assumes "json_ok J" and "store_inv J r d"
  shows "\<exists>d'. api_uncaught api J r d = (Inr (), d')
    \<and> a_current (store_abs J r d') =
        (if dview d (mount_path r) = None \<and> a_previous (store_abs J r d) \<noteq> None
         then a_previous (store_abs J r d) else a_current (store_abs J r d))"
proof -
  obtain d' where d': "api_uncaught api J r d = (Inr (), d')"
    "store_abs J r d' = a_rollback_unconfirmed (store_abs J r d)"
    using uncaught_law [OF assms] by (auto simp: leads_def)
  have m: "a_mounted (store_abs J r d) \<longleftrightarrow> dview d (mount_path r) \<noteq> None" by simp
  show ?thesis
    unfolding d'(1) d'(2)
    by (cases "a_previous (store_abs J r d)")
      (auto simp: d' a_rollback_unconfirmed_def a_rollback_def rollback_state_def m simp del: view_abs_sel)
qed

text \<open>
  A kill of the process at any point of an installation: whatever file system it leaves, the next boot runs
  the release it would have run otherwise or the current one, the bundle untouched, or the new one with all its bytes;
  only when that release is the one installed again, it may find no bundle.
\<close>

lemma install_kill_safe:
  assumes "json_ok J" and "store_inv J r d" and "a_inv (store_abs J r d)" and "simple_name i"
  shows "\<exists>d' fs. api_install api J r i c d = (Inr (), d') \<and> d_hist d' = d_hist d @ fs
    \<and> (\<forall>f \<in> set fs. \<forall>k. good k \<longrightarrow> d_fs k = f \<longrightarrow>
        (\<exists>x k'. api_resolve api J r k = (Inr (map_option (bundle_string r) x), k')
          \<and> ((x = a_current (store_abs J r d) \<or> x = a_current (a_process_crash (store_abs J r d)))
                \<and> (\<forall>j. x = Some j \<longrightarrow> dview k' (bundle_file r j) = dview d (bundle_file r j))
            \<or> x = Some i \<and> dview k' (bundle_file r i) = Some (File c)
            \<or> x = None \<and> a_current (a_process_crash (store_abs J r d)) = Some i)))"
proof -
  let ?a = "store_abs J r d"
  from install_law [OF assms(1,2,4), of c "install_stage i c ?a"] obtain d' fs where
    d': "api_install api J r i c d = (Inr (), d')" "d_hist d' = d_hist d @ fs"
    and st: "\<forall>f \<in> set fs. okv (install_stage i c ?a) J r (fview f)"
    by (auto simp: leads_def via_def)
  have "\<exists>x k'. api_resolve api J r k = (Inr (map_option (bundle_string r) x), k')
      \<and> ((x = a_current ?a \<or> x = a_current (a_process_crash ?a))
            \<and> (\<forall>j. x = Some j \<longrightarrow> dview k' (bundle_file r j) = dview d (bundle_file r j))
        \<or> x = Some i \<and> dview k' (bundle_file r i) = Some (File c)
        \<or> x = None \<and> a_current (a_process_crash ?a) = Some i)"
    if f: "d_fs k \<in> set fs" and g: "good k" for k
  proof -
    let ?y = "a_process_crash (store_abs J r k)"
    from st f have vi: "view_inv J r (dview k)" and sg: "install_stage i c ?a (store_abs J r k)"
      by (auto simp: okv_def)
    then have k: "store_inv J r k" using store_invD(1) [OF assms(2)] g by (simp add: store_inv_def)
    from resolve_law [OF assms(1) k] obtain k' where k': "api_resolve api J r k
        = (Inr (map_option (bundle_string r) (a_boot ?y)), k')" "store_inv J r k'" "store_abs J r k' = ?y"
      by (auto simp: leads_def)
    have tx: "file_text (dview k' (bundle_file r j)) = a_bundle ?y j" if "simple_name j" for j
      using arg_cong [OF k'(3), of "\<lambda>a. a_bundle a j"] that by simp
    have td: "file_text (dview d (bundle_file r j)) = a_bundle ?a j" if "simple_name j" for j
      using that by simp
    have same: "dview k' (bundle_file r j) = dview d (bundle_file r j)"
      if "a_boot ?y = Some j" "a_bundle ?y j = a_bundle ?a j" for j
    proof -
      have "a_current ?y = Some j" using that(1) by (auto simp: a_boot_def split: option.splits if_splits)
      then have "simple_name j" using abs_ids [OF k'(2)] k'(3) by (simp add: simple_ids_def)
      with tx td that(2) show ?thesis
        using shape_cases [OF store_invD(4) [OF k'(2)] file_places(5), of j]
          shape_cases [OF store_invD(4) [OF assms(2)] file_places(5), of j] by fastforce
    qed
    have new: "dview k' (bundle_file r i) = Some (File c)" if "a_bundle ?y i = Some c"
      using tx [OF assms(4)] that shape_cases [OF store_invD(4) [OF k'(2)] file_places(5), of i] by fastforce
    from stage_boots [OF sg assms(3)] same new show ?thesis
      unfolding k'(1) by (intro exI [of _ "a_boot ?y"] exI [of _ k'] conjI refl) blast
  qed
  with d' show ?thesis by blast
qed

text \<open>A reader that looks while an installation runs finds the old id or the new one.\<close>

lemma current_during_install:
  assumes "json_ok J" and "store_inv J r d" and "simple_name i"
  shows "\<exists>d' fs. api_install api J r i c d = (Inr (), d') \<and> d_hist d' = d_hist d @ fs
    \<and> (\<forall>k. good k \<longrightarrow> d_fs k \<in> set fs \<longrightarrow>
        fst (api_current api J r k) \<in> {Inr (case a_current (store_abs J r d) of None \<Rightarrow> [] | Some j \<Rightarrow> j), Inr i})"
proof -
  let ?a = "store_abs J r d"
  from install_law [OF assms, of c "install_stage i c ?a"] obtain d' fs where
    d': "api_install api J r i c d = (Inr (), d')" "d_hist d' = d_hist d @ fs"
    and st: "\<forall>f \<in> set fs. okv (install_stage i c ?a) J r (fview f)"
    by (auto simp: leads_def via_def)
  have "fst (api_current api J r k) \<in> {Inr (case a_current ?a of None \<Rightarrow> [] | Some j \<Rightarrow> j), Inr i}"
    if f: "d_fs k \<in> set fs" and g: "good k" for k
  proof -
    from st f have vi: "view_inv J r (dview k)" and sg: "install_stage i c ?a (store_abs J r k)"
      by (auto simp: okv_def)
    then have k: "store_inv J r k" using store_invD(1) [OF assms(2)] g by (simp add: store_inv_def)
    have "a_current (store_abs J r k) \<in> {a_current ?a, Some i}"
      using sg by (auto simp: install_stage_def install_state_def simp del: view_abs_sel)
    with current_law [OF assms(1) k] show ?thesis by (auto simp: leads_def simp del: view_abs_sel)
  qed
  with d' show ?thesis by blast
qed

text \<open>With no release to go back to, crashes and exceptions leave the same release to be booted.\<close>

lemma no_way_back:
  assumes "json_ok J" and "new_device r d0" and "device_run api J r e d0 evs d"
    and "a_previous (store_abs J r d) = None"
    and "device_run api J r e d evs' d1" and "set evs' \<subseteq> {Boot, Signal, UncaughtException}"
  shows "\<exists>d2. api_resolve api J r d1 = (Inr (map_option (bundle_string r) (a_current (store_abs J r d))), d2)"
proof -
  let ?a = "store_abs J r d"
  note run = run_from_new [OF assms(1,3,2)]
  note run1 = run_refines [OF assms(1,5) conjunct1 [OF run]]
  have i1: "a_inv (store_abs J r d1)" 
    by (simp only: conjunct2 [OF run1] a_run_inv [OF conjunct2 [OF conjunct2 [OF run]]])
  have "a_state (a_run (evs' @ [Boot]) ?a) = a_state ?a"
    by (rule nothing_to_go_back_to) (use assms(4,6) in auto)
  with boot_result [OF assms(1) _ i1] run1 show ?thesis
    by (auto simp: a_run_append simp del: view_abs_sel)
qed

text \<open>At most two bundles are on the device, the current one among them.\<close>

lemma few_bundles:
  assumes "json_ok J" and "new_device r d0" and "device_run api J r e d0 evs d"
  shows "finite {i. simple_name i \<and> dview d (bundle_file r i) \<noteq> None}
    \<and> card {i. simple_name i \<and> dview d (bundle_file r i) \<noteq> None} \<le> 2"
proof -
  note run = run_from_new [OF assms(1,3,2)]
  have e: "{i. simple_name i \<and> dview d (bundle_file r i) \<noteq> None} = kept (store_abs J r d)"
  proof -
    have "dview d (bundle_file r i) \<noteq> None \<longleftrightarrow> file_text (dview d (bundle_file r i)) \<noteq> None" for i
      using shape_cases [OF store_invD(4) [OF conjunct1 [OF run]] file_places(5), of i] by auto
    then show ?thesis by (auto simp: kept_def dom_def)
  qed
  show ?thesis unfolding e by (rule a_inv_card [OF conjunct2 [OF conjunct2 [OF run]]])
qed

text \<open>A concrete history: two releases installed one after the other, the first one confirmed.\<close>

lemma sample_run:
  "\<exists>d. device_run api sample_json [''data''] (sample_env pf) sample_disk sample_events d
    \<and> store_inv sample_json [''data''] d \<and> store_abs sample_json [''data''] d = a_run sample_events a_empty"
proof -
  have ids: "\<forall>i c. Install i c \<in> set sample_events \<longrightarrow> simple_name i"
    by (simp add: sample_events_def simple_name_def)
  obtain d where d: "device_run api sample_json [''data''] (sample_env pf) sample_disk sample_events d"
    using run_exists [OF sample_json_ok new_device_store(1) [OF sample_new_device] sample_env_ok(1) sample_base_short ids]
    by blast
  with run_from_new [OF sample_json_ok d sample_new_device] show ?thesis by blast
qed

lemma sample_confirmed_run:
  "\<exists>d d1. device_run api sample_json [''data''] (sample_env pf) sample_disk (sample_events @ [Confirm]) d
    \<and> store_inv sample_json [''data''] d
    \<and> store_abs sample_json [''data''] d = a_run (sample_events @ [Confirm]) a_empty
    \<and> device_run api sample_json [''data''] (sample_env pf) d [Signal, Boot] d1"
proof -
  have ids: "\<forall>i c. Install i c \<in> set (sample_events @ [Confirm]) \<longrightarrow> simple_name i"
    by (simp add: sample_events_def simple_name_def)
  obtain d where d: "device_run api sample_json [''data''] (sample_env pf) sample_disk (sample_events @ [Confirm]) d"
    using run_exists [OF sample_json_ok new_device_store(1) [OF sample_new_device] sample_env_ok(1) sample_base_short ids]
    by blast
  note r = run_from_new [OF sample_json_ok d sample_new_device]
  obtain d1 where "device_run api sample_json [''data''] (sample_env pf) d [Signal, Boot] d1"
    using run_exists [OF sample_json_ok conjunct1 [OF r] sample_env_ok(1) sample_base_short, of "[Signal, Boot]"]
    by auto
  with d r show ?thesis by blast
qed

end

end
