(* ===== verification/KotlinApp.thy ===== *)
theory KotlinApp
  imports KotlinRefine Lifecycle
begin

text \<open>
  The Android storage as an implementation of \<open>release_store\<close>, and what follows for a device that uses it.
  The file system is the one of \<open>FileSystem\<close>; a run starts on a device without a storage directory and
  consists of boots, installations, confirmations, uncaught exceptions and fatal signals.
\<close>

definition kotlin_api :: "kexn store_api" where
  "kotlin_api = \<lparr>api_base = kt_baseDirectory, api_install = kt_installUpdate, api_confirm = kt_confirmBoot,
     api_uncaught = kt_rollbackToPreviousIfUnconfirmed, api_resolve = kt_resolveBundlePath,
     api_current = kt_getCurrentReleaseId\<rparr>"

lemma kotlin_api_sel [simp]:
  "api_base kotlin_api = kt_baseDirectory" "api_install kotlin_api = kt_installUpdate"
  "api_confirm kotlin_api = kt_confirmBoot" "api_uncaught kotlin_api = kt_rollbackToPreviousIfUnconfirmed"
  "api_resolve kotlin_api = kt_resolveBundlePath" "api_current kotlin_api = kt_getCurrentReleaseId"
  by (simp_all add: kotlin_api_def)

lemma kt_base_law:
  assumes "store_inv J r d"
  shows "\<exists>d'. kt_baseDirectory r d = (Inr (base_of r), d') \<and> store_inv J r d' \<and> store_abs J r d' = store_abs J r d
        \<and> dview d' (base_of r) = Some Dir"
  using kt_base [OF store_invD(2,1) [OF assms] okv_now [where P = "\<lambda>_. True", OF assms TrueI]]
    store_invD [OF assms]
  by (auto simp: does_def chg_def store_inv_def view_inv_with_dir view_simps)

interpretation kotlin: release_store kotlin_api
  by unfold_locales
    (simp_all add: kt_base_law kt_install kt_confirm kt_rollback_unconfirmed kt_resolve kt_current
      del: view_abs_sel)

section \<open>Refinement\<close>

text \<open>C3. Simulation: every run of an Android device from a device without a storage directory leaves exactly
  the state that the specified operations produce from the empty state, the well-formedness of the storage
  directory is kept, and the pointers always name releases whose bundles are there.\<close>

theorem kt_run_refines:
  assumes "json_ok J" and "new_device r d0" and "device_run kotlin_api J r e d0 evs d"
  shows "store_inv J r d \<and> store_abs J r d = a_run evs a_empty \<and> a_inv (store_abs J r d)"
  by (rule kotlin.run_from_new [OF assms(1,3,2)])

theorem kt_run_refines_witness:
  "\<exists>d. device_run kotlin_api sample_json [''data''] (sample_env Android) sample_disk sample_events d
     \<and> a_current (store_abs sample_json [''data''] d) = Some ''b''"
proof -
  obtain d where d: "device_run kotlin_api sample_json [''data''] (sample_env Android) sample_disk sample_events d"
    using kotlin.sample_run by blast
  from kt_run_refines [OF sample_json_ok sample_new_device d] d sample_history(1) show ?thesis
    by (auto simp del: view_abs_sel)
qed

text \<open>C37. Progress: on a disk that does not fail, every sequence of boots, installations of releases
  with ordinary ids, confirmations, exceptions and fatal signals can run to its end; no operation of
  the Android storage throws.\<close>

theorem kt_run_exists:
  assumes "json_ok J" and "new_device r d0" and "own_ok e" and "length (path_str (base_of r)) \<le> 498"
    and "\<forall>i c. Install i c \<in> set evs \<longrightarrow> simple_name i"
  shows "\<exists>d. device_run kotlin_api J r e d0 evs d"
  by (rule kotlin.run_exists [OF assms(1) new_device_store(1) [OF assms(2)] assms(3-5)])

theorem kt_run_exists_witness:
  "\<exists>d. device_run kotlin_api sample_json [''data''] (sample_env Android) sample_disk
     [Install ''a'' ''A'', Signal, Boot, UncaughtException, Confirm] d"
  by (rule kt_run_exists [OF sample_json_ok sample_new_device sample_env_ok(1) sample_base_short])
    (simp add: simple_name_def)

section \<open>Booting\<close>

text \<open>C28. After any history \<open>resolveBundlePath\<close> returns the path of the current release's bundle, or null
  when none is installed; the file is there and holds the bytes installed last under that id.\<close>

theorem kt_boots_what_was_installed:
  assumes "json_ok J" and "new_device r d0" and "device_run kotlin_api J r e d0 evs d"
  shows "\<exists>d' x. kt_resolveBundlePath J r d = (Inr x, d')
    \<and> x = map_option (bundle_string r) (a_current (store_abs J r d'))
    \<and> (\<forall>i. a_current (store_abs J r d') = Some i \<longrightarrow>
        (\<exists>c. last_installed evs i = Some c \<and> dview d' (bundle_file r i) = Some (File c)))"
  using kotlin.boots_what_was_installed [OF assms] by simp

theorem kt_boots_what_was_installed_witness:
  "\<exists>d x d'. device_run kotlin_api sample_json [''data''] (sample_env Android) sample_disk sample_events d
     \<and> kt_resolveBundlePath sample_json [''data''] d = (Inr x, d')"
proof -
  obtain d where d: "device_run kotlin_api sample_json [''data''] (sample_env Android) sample_disk sample_events d"
    using kotlin.sample_run by blast
  from kt_boots_what_was_installed [OF sample_json_ok sample_new_device d] d show ?thesis by blast
qed

text \<open>C11. End to end: when a release that has not confirmed its boot dies of one of the handled signals, the
  marker written by the native handler makes the next \<open>resolveBundlePath\<close> return the bundle of the release
  before it, untouched; that release is current and counts as confirmed.\<close>

theorem kt_signal_rolls_back:
  assumes "json_ok J" and "new_device r d0" and "device_run kotlin_api J r e d0 evs d"
    and "dview d (mount_path r) = None" and "a_previous (store_abs J r d) = Some p"
    and "device_step kotlin_api J r e d Signal d1"
  shows "\<exists>d2. kt_resolveBundlePath J r d1 = (Inr (Some (bundle_string r p)), d2)
    \<and> a_current (store_abs J r d2) = Some p \<and> dview d2 (mount_path r) \<noteq> None
    \<and> dview d2 (bundle_file r p) = dview d (bundle_file r p)"
  using kotlin.signal_rolls_back [OF assms] by simp

theorem kt_signal_rolls_back_witness:
  "\<exists>d1 d2. kt_resolveBundlePath sample_json [''data''] d1
     = (Inr (Some ''/data/salve-push/releases/a/bundle.js''), d2)"
proof -
  obtain d where d: "device_run kotlin_api sample_json [''data''] (sample_env Android) sample_disk sample_events d"
    and i: "store_inv sample_json [''data''] d" and a: "store_abs sample_json [''data''] d = a_run sample_events a_empty"
    using kotlin.sample_run by blast
  have m: "dview d (mount_path [''data'']) = None" using sample_history(3) by (simp add: a [symmetric])
  have p: "a_previous (store_abs sample_json [''data''] d) = Some ''a''" unfolding a by (rule sample_history(2))
  obtain d1 where s: "device_step kotlin_api sample_json [''data''] (sample_env Android) d Signal d1"
    using kotlin.step_exists [OF sample_json_ok i sample_env_ok(1) sample_base_short] by fastforce
  from kt_signal_rolls_back [OF sample_json_ok sample_new_device d m p s] show ?thesis
    by (auto simp: bundle_string_def bundle_file_def path_str_def)
qed

text \<open>C31. A release that has confirmed its boot is the one that boots after any number of fatal signals,
  uncaught exceptions, confirmations and boots.\<close>

theorem kt_confirmed_release_stays:
  assumes "json_ok J" and "new_device r d0" and "device_run kotlin_api J r e d0 evs d"
    and "dview d (mount_path r) \<noteq> None" and "a_crash (store_abs J r d) \<noteq> Some True"
    and "device_run kotlin_api J r e d evs' d1" and "set evs' \<subseteq> {Boot, Signal, Confirm, UncaughtException}"
  shows "\<exists>d2. kt_resolveBundlePath J r d1 = (Inr (map_option (bundle_string r) (a_current (store_abs J r d))), d2)
    \<and> a_current (store_abs J r d2) = a_current (store_abs J r d)"
  using kotlin.confirmed_release_stays [OF assms] by simp

theorem kt_confirmed_release_stays_witness:
  "\<exists>d1 d2. kt_resolveBundlePath sample_json [''data''] d1
     = (Inr (Some ''/data/salve-push/releases/b/bundle.js''), d2)"
proof -
  obtain d d1 where d: "device_run kotlin_api sample_json [''data''] (sample_env Android) sample_disk
        (sample_events @ [Confirm]) d"
    and a: "store_abs sample_json [''data''] d = a_run (sample_events @ [Confirm]) a_empty"
    and d1: "device_run kotlin_api sample_json [''data''] (sample_env Android) d [Signal, Boot] d1"
    using kotlin.sample_confirmed_run by blast
  have c: "a_current (store_abs sample_json [''data''] d) = Some ''b''"
    and n: "a_crash (store_abs sample_json [''data''] d) \<noteq> Some True"
    and "a_mounted (store_abs sample_json [''data''] d)"
    unfolding a by (simp_all add: a_run_append a_confirm_def confirm_state_def sample_history)
  then have m: "dview d (mount_path [''data'']) \<noteq> None" by simp
  from kt_confirmed_release_stays [OF sample_json_ok sample_new_device d m n d1] c show ?thesis
    by (auto simp: bundle_string_def bundle_file_def path_str_def simp del: view_abs_sel)
qed

section \<open>Installing\<close>

text \<open>C8. Atomicity of \<open>installUpdate\<close> under a kill of the process: whatever file system state the kill
  leaves, the next boot runs the release it would have run without the installation or the current one (they differ only while a crash
  marker waits), its bundle untouched, or the new release with all its bytes. There is one exception: when the release that
  would have run is itself installed again, its bundle may be missing, and the app boots the embedded one.\<close>

theorem kt_install_kill_safe:
  assumes "json_ok J" and "store_inv J r d" and "a_inv (store_abs J r d)" and "simple_name i"
  shows "\<exists>d' fs. kt_installUpdate J r i c d = (Inr (), d') \<and> d_hist d' = d_hist d @ fs
    \<and> (\<forall>f \<in> set fs. \<forall>k. good k \<longrightarrow> d_fs k = f \<longrightarrow>
        (\<exists>x k'. kt_resolveBundlePath J r k = (Inr (map_option (bundle_string r) x), k')
          \<and> ((x = a_current (store_abs J r d) \<or> x = a_current (a_process_crash (store_abs J r d)))
                \<and> (\<forall>j. x = Some j \<longrightarrow> dview k' (bundle_file r j) = dview d (bundle_file r j))
            \<or> x = Some i \<and> dview k' (bundle_file r i) = Some (File c)
            \<or> x = None \<and> a_current (a_process_crash (store_abs J r d)) = Some i)))"
  using kotlin.install_kill_safe [OF assms] by simp

theorem kt_install_kill_safe_witness:
  "\<exists>d d' fs. a_current (store_abs sample_json [''data''] d) = Some ''b''
     \<and> kt_installUpdate sample_json [''data''] ''c'' ''bundle C'' d = (Inr (), d') \<and> d_hist d' = d_hist d @ fs"
proof -
  obtain d where i: "store_inv sample_json [''data''] d"
    and a: "store_abs sample_json [''data''] d = a_run sample_events a_empty"
    using kotlin.sample_run by blast
  have v: "a_inv (store_abs sample_json [''data''] d)"
    unfolding a by (simp add: a_run_inv a_inv_empty)
  have s: "simple_name ''c''" by (simp add: simple_name_def)
  from kt_install_kill_safe [OF sample_json_ok i v s, of "''bundle C''"] sample_history(1) show ?thesis
    unfolding a [symmetric] by blast
qed

text \<open>After any history the device keeps at most two bundles.\<close>

theorem kt_few_bundles:
  assumes "json_ok J" and "new_device r d0" and "device_run kotlin_api J r e d0 evs d"
  shows "finite {i. simple_name i \<and> dview d (bundle_file r i) \<noteq> None}
    \<and> card {i. simple_name i \<and> dview d (bundle_file r i) \<noteq> None} \<le> 2"
  by (rule kotlin.few_bundles [OF assms])

theorem kt_few_bundles_witness:
  "\<exists>d. device_run kotlin_api sample_json [''data''] (sample_env Android) sample_disk sample_events d
     \<and> card {i. simple_name i \<and> dview d (bundle_file [''data''] i) \<noteq> None} \<le> 2"
proof -
  obtain d where d: "device_run kotlin_api sample_json [''data''] (sample_env Android) sample_disk sample_events d"
    using kotlin.sample_run by blast
  from kt_few_bundles [OF sample_json_ok sample_new_device d] d show ?thesis by blast
qed

text \<open>Without a release to go back to, a crashing release boots again after every fatal signal and every
  uncaught exception: the first release installed never gives way to the bundle embedded in the app.\<close>

theorem kt_no_way_back:
  assumes "json_ok J" and "new_device r d0" and "device_run kotlin_api J r e d0 evs d"
    and "a_previous (store_abs J r d) = None"
    and "device_run kotlin_api J r e d evs' d1" and "set evs' \<subseteq> {Boot, Signal, UncaughtException}"
  shows "\<exists>d2. kt_resolveBundlePath J r d1 = (Inr (map_option (bundle_string r) (a_current (store_abs J r d))), d2)"
  using kotlin.no_way_back [OF assms] by simp

theorem kt_no_way_back_witness:
  "\<exists>d1 d2. kt_resolveBundlePath sample_json [''data''] d1
     = (Inr (Some ''/data/salve-push/releases/a/bundle.js''), d2)"
proof -
  have ids: "\<forall>i c. Install i c \<in> set [Install ''a'' ''A''] \<longrightarrow> simple_name i" by (simp add: simple_name_def)
  obtain d where d: "device_run kotlin_api sample_json [''data''] (sample_env Android) sample_disk [Install ''a'' ''A''] d"
    using kotlin.run_exists [OF sample_json_ok new_device_store(1) [OF sample_new_device] sample_env_ok(1) sample_base_short ids]
    by blast
  note r = kotlin.run_from_new [OF sample_json_ok d sample_new_device]
  have a: "store_abs sample_json [''data''] d = a_install ''a'' ''A'' a_empty" using r by simp
  have p: "a_previous (store_abs sample_json [''data''] d) = None"
    and c: "a_current (store_abs sample_json [''data''] d) = Some ''a''"
    unfolding a by (simp_all add: a_install_def install_state_def a_empty_def confirmedEmpty_def)
  obtain d1 where d1: "device_run kotlin_api sample_json [''data''] (sample_env Android) d [Signal, Boot, Signal] d1"
    using kotlin.run_exists [OF sample_json_ok conjunct1 [OF r] sample_env_ok(1) sample_base_short, of "[Signal, Boot, Signal]"]
    by auto
  from kt_no_way_back [OF sample_json_ok sample_new_device d p d1] c show ?thesis
    by (auto simp: bundle_string_def bundle_file_def path_str_def simp del: view_abs_sel)
qed

end
