(* ===== verification/SwiftStorage.thy ===== *)
theory SwiftStorage
  imports FileSystem ReleaseSpec JsonText
begin

text \<open>
  The iOS storage, \<open>ios/SalvePushStorage.swift\<close>, with the state \<open>SalvePushState.swift\<close>. \<open>sw_dirs\<close> holds
  the two locations the source reads: the test-only override and the Application Support directory. A
  \<open>throws\<close> function is a computation that may throw; \<open>try?\<close> is \<open>try_opt\<close>, whose result is dropped
  where the source drops it.
\<close>

section \<open>Foundation\<close>

datatype serror = CocoaError

type_synonym 'a sio = "(disk, serror, 'a) action"

record sw_dirs =
  baseDirectoryOverride :: "path option"
  appSupport :: path

definition appendingPathComponent :: "path \<Rightarrow> string \<Rightarrow> path" where
  "appendingPathComponent dir name = dir @ comps name"

text \<open>A call that throws when the file operation fails.\<close>

definition failing :: "(disk \<Rightarrow> bool \<times> disk) \<Rightarrow> unit sio" where
  "failing op d = (case op d of (ok, d') \<Rightarrow> (if ok then Inr () else Inl CocoaError, d'))"

definition dataContents :: "path \<Rightarrow> string sio" where
  "dataContents p d = (case read_file p d of None \<Rightarrow> (Inl CocoaError, d) | Some t \<Rightarrow> (Inr t, d))"

definition fileExists :: "path \<Rightarrow> bool sio" where
  "fileExists p d = (Inr (path_exists p d), d)"

text \<open>\<open>moveItem\<close> throws when the destination exists.\<close>

definition move_file :: "path \<Rightarrow> path \<Rightarrow> disk \<Rightarrow> bool \<times> disk" where
  "move_file p q d = (if path_exists q d then (False, d) else rename_file p q d)"

definition dropped :: "'a sio \<Rightarrow> unit sio" where
  "dropped m = then_io (try_opt m) (ret ())"

section \<open>The pointer state\<close>

text \<open>\<open>JSONEncoder\<close> leaves a nil property out.\<close>

definition encodeIfPresent :: "string \<Rightarrow> string option \<Rightarrow> (string \<times> json) list" where
  "encodeIfPresent k v = (case v of None \<Rightarrow> [] | Some s \<Rightarrow> [(k, JStr s)])"

definition sw_encode :: "json_lib \<Rightarrow> pstate \<Rightarrow> string" where
  "sw_encode J s =
     jprint J (JObj (encodeIfPresent ''currentReleaseId'' (currentReleaseId s)
       @ encodeIfPresent ''previousReleaseId'' (previousReleaseId s)
       @ encodeIfPresent ''bootStatus'' (Some (bootStatus s))))"

text \<open>\<open>JSONDecoder\<close>: a value of another type throws, and so does a missing \<open>bootStatus\<close>.\<close>

definition decodeIfPresent :: "(string \<times> json) list \<Rightarrow> string \<Rightarrow> serror + string option" where
  "decodeIfPresent m k =
     (case map_of m k of
        None \<Rightarrow> Inr None | Some JNull \<Rightarrow> Inr None | Some (JStr s) \<Rightarrow> Inr (Some s) | Some _ \<Rightarrow> Inl CocoaError)"

definition sw_decode :: "json_lib \<Rightarrow> string \<Rightarrow> pstate sio" where
  "sw_decode J raw d =
     (case jparse J raw of
        Some (JObj m) \<Rightarrow>
          (case (decodeIfPresent m ''currentReleaseId'', decodeIfPresent m ''previousReleaseId'',
                 decodeIfPresent m ''bootStatus'') of
             (Inr c, Inr p, Inr (Some b)) \<Rightarrow>
               (Inr \<lparr>currentReleaseId = c, previousReleaseId = p, bootStatus = b\<rparr>, d)
           | _ \<Rightarrow> (Inl CocoaError, d))
      | _ \<Rightarrow> (Inl CocoaError, d))"

section \<open>Paths\<close>

definition sw_baseDirectory :: "sw_dirs \<Rightarrow> path sio" where
  "sw_baseDirectory e =
     (case baseDirectoryOverride e of
        Some dir \<Rightarrow> ret dir
      | None \<Rightarrow>
          let dir = appendingPathComponent (appSupport e) ''salve-push''
          in then_io (dropped (failing (mkdirs dir))) (ret dir))"

definition sw_releasesDirectory :: "sw_dirs \<Rightarrow> path sio" where
  "sw_releasesDirectory e = bind_io (sw_baseDirectory e) (\<lambda>b. ret (appendingPathComponent b ''releases''))"

definition sw_bundlePath :: "sw_dirs \<Rightarrow> string \<Rightarrow> path sio" where
  "sw_bundlePath e releaseId =
     bind_io (sw_releasesDirectory e) (\<lambda>r.
       ret (appendingPathComponent (appendingPathComponent r releaseId) ''bundle.js''))"

definition sw_statePath :: "sw_dirs \<Rightarrow> path sio" where
  "sw_statePath e = bind_io (sw_baseDirectory e) (\<lambda>b. ret (appendingPathComponent b ''state.json''))"

definition sw_mountMarkerPath :: "sw_dirs \<Rightarrow> path sio" where
  "sw_mountMarkerPath e = bind_io (sw_baseDirectory e) (\<lambda>b. ret (appendingPathComponent b ''mount.marker''))"

definition sw_crashMarkerPath :: "sw_dirs \<Rightarrow> path sio" where
  "sw_crashMarkerPath e = bind_io (sw_baseDirectory e) (\<lambda>b. ret (appendingPathComponent b ''crash.marker''))"

section \<open>State and markers\<close>

definition sw_readState :: "json_lib \<Rightarrow> sw_dirs \<Rightarrow> pstate sio" where
  "sw_readState J e =
     bind_io (try_opt (bind_io (sw_statePath e) dataContents)) (\<lambda>data.
       case data of
         None \<Rightarrow> ret confirmedEmpty
       | Some raw \<Rightarrow>
           bind_io (try_opt (sw_decode J raw)) (\<lambda>state.
             ret (case state of None \<Rightarrow> confirmedEmpty | Some s \<Rightarrow> s)))"

definition sw_writeState :: "json_lib \<Rightarrow> sw_dirs \<Rightarrow> pstate \<Rightarrow> unit sio" where
  "sw_writeState J e state =
     bind_io (sw_statePath e) (\<lambda>p. failing (write_file_atomic p (sw_encode J state)))"

definition sw_markMounted :: "sw_dirs \<Rightarrow> unit sio" where
  "sw_markMounted e = bind_io (sw_mountMarkerPath e) (\<lambda>p. dropped (failing (write_file_atomic p [])))"

definition sw_clearMountedMarker :: "sw_dirs \<Rightarrow> unit sio" where
  "sw_clearMountedMarker e = bind_io (sw_mountMarkerPath e) (\<lambda>p. dropped (failing (delete_tree p)))"

definition sw_isMounted :: "sw_dirs \<Rightarrow> bool sio" where
  "sw_isMounted e = bind_io (sw_mountMarkerPath e) fileExists"

section \<open>Operations\<close>

definition sw_pruneOldReleases :: "sw_dirs \<Rightarrow> string list \<Rightarrow> unit sio" where
  "sw_pruneOldReleases e keep =
     bind_io (sw_releasesDirectory e) (\<lambda>dir d.
       case list_files dir d of None \<Rightarrow> (Inr (), d) | Some entries \<Rightarrow> (Inr (), prune_entries keep dir entries d))"

definition sw_place_bundle :: "sw_dirs \<Rightarrow> string \<Rightarrow> string \<Rightarrow> unit sio" where
  "sw_place_bundle e releaseId bundle =
     bind_io (sw_releasesDirectory e) (\<lambda>releases.
       let releaseDir = appendingPathComponent releases releaseId;
           finalPath = appendingPathComponent releaseDir ''bundle.js'';
           tempPath = appendingPathComponent releaseDir ''bundle.js.tmp''
       in then_io (failing (mkdirs releaseDir))
           (then_io (failing (write_file_atomic tempPath bundle))
             (then_io
               (bind_io (fileExists finalPath) (\<lambda>ex. if ex then failing (delete_tree finalPath) else ret ()))
               (failing (move_file tempPath finalPath)))))"

definition sw_installUpdate :: "json_lib \<Rightarrow> sw_dirs \<Rightarrow> string \<Rightarrow> string \<Rightarrow> unit sio" where
  "sw_installUpdate J e releaseId bundle =
     then_io (sw_place_bundle e releaseId bundle)
       (bind_io (sw_readState J e) (\<lambda>state.
          let previous = currentReleaseId state in
          then_io
            (sw_writeState J e (state\<lparr>previousReleaseId := previous, currentReleaseId := Some releaseId,
               bootStatus := ''pending''\<rparr>))
            (then_io (sw_clearMountedMarker e)
              (sw_pruneOldReleases e (releaseId # (case previous of None \<Rightarrow> [] | Some p \<Rightarrow> [p]))))))"

definition sw_confirmBoot :: "json_lib \<Rightarrow> sw_dirs \<Rightarrow> unit sio" where
  "sw_confirmBoot J e =
     then_io (sw_markMounted e)
       (bind_io (sw_readState J e) (\<lambda>s. sw_writeState J e (s\<lparr>bootStatus := ''confirmed''\<rparr>)))"

definition sw_getCurrentReleaseId :: "json_lib \<Rightarrow> sw_dirs \<Rightarrow> string sio" where
  "sw_getCurrentReleaseId J e =
     bind_io (sw_readState J e) (\<lambda>s. ret (case currentReleaseId s of None \<Rightarrow> [] | Some i \<Rightarrow> i))"

definition sw_rollbackToPrevious :: "json_lib \<Rightarrow> sw_dirs \<Rightarrow> unit sio" where
  "sw_rollbackToPrevious J e =
     bind_io (sw_readState J e) (\<lambda>state.
       case previousReleaseId state of
         None \<Rightarrow> ret ()
       | Some previous \<Rightarrow>
           then_io
             (dropped (sw_writeState J e (state\<lparr>currentReleaseId := Some previous, previousReleaseId := None,
                bootStatus := ''confirmed''\<rparr>)))
             (sw_markMounted e))"

definition sw_rollbackToPreviousIfUnconfirmed :: "json_lib \<Rightarrow> sw_dirs \<Rightarrow> unit sio" where
  "sw_rollbackToPreviousIfUnconfirmed J e =
     bind_io (sw_isMounted e) (\<lambda>mounted. if mounted then ret () else sw_rollbackToPrevious J e)"

text \<open>\<open>json["isAutoRollback"] as? Bool == true\<close>: a number bridges to \<open>Bool\<close> when it is 0 or 1.\<close>

definition sw_flag :: "json_lib \<Rightarrow> string \<Rightarrow> bool" where
  "sw_flag J raw =
     (case jparse J raw of
        Some (JObj m) \<Rightarrow>
          (case map_of m ''isAutoRollback'' of
             Some (JBool b) \<Rightarrow> b | Some (JNum n) \<Rightarrow> n = 1 | _ \<Rightarrow> False)
      | _ \<Rightarrow> False)"

definition sw_processCrashMarkerIfPresent :: "json_lib \<Rightarrow> sw_dirs \<Rightarrow> unit sio" where
  "sw_processCrashMarkerIfPresent J e =
     bind_io (sw_crashMarkerPath e) (\<lambda>marker.
       bind_io (try_opt (dataContents marker)) (\<lambda>data.
         case data of
           None \<Rightarrow> ret ()
         | Some raw \<Rightarrow>
             then_io (bind_io (sw_crashMarkerPath e) (\<lambda>p. dropped (failing (delete_tree p))))
               (if sw_flag J raw then sw_rollbackToPrevious J e else ret ())))"

definition sw_resolveBundlePath :: "json_lib \<Rightarrow> sw_dirs \<Rightarrow> string option sio" where
  "sw_resolveBundlePath J e =
     then_io (sw_processCrashMarkerIfPresent J e)
       (bind_io (sw_readState J e) (\<lambda>s.
          case currentReleaseId s of
            None \<Rightarrow> ret None
          | Some currentId \<Rightarrow>
              bind_io (sw_bundlePath e currentId) (\<lambda>path.
                bind_io (fileExists path) (\<lambda>ex. ret (if ex then Some (path_str path) else None)))))"

text \<open>\<open>SalvePushBundleResolver.resolveBundleURL\<close>, with paths for URLs.\<close>

definition sw_resolveBundleURL :: "json_lib \<Rightarrow> sw_dirs \<Rightarrow> string option \<Rightarrow> string option sio" where
  "sw_resolveBundleURL J e defaultURL =
     bind_io (sw_resolveBundlePath J e) (\<lambda>path.
       ret (case path of None \<Rightarrow> defaultURL | Some p \<Rightarrow> Some p))"

end
