(* ===== verification/SwiftRefine.thy ===== *)
theory SwiftRefine
  imports SwiftStorage StoreLogic
begin

text \<open>
  The iOS storage meets the specification of \<open>ReleaseSpec\<close>, under the same invariant and abstraction as
  the Android one: on a disk that does not fail no function throws, and each acts on the abstract state as
  the specified operation does.
\<close>

section \<open>Paths\<close>

text \<open>The production configuration: no override.\<close>

definition sw_production :: "path \<Rightarrow> sw_dirs" where
  "sw_production r = \<lparr>baseDirectoryOverride = None, appSupport = r\<rparr>"

lemma sw_children [simp]:
  "appendingPathComponent r ''salve-push'' = base_of r"
  "appendingPathComponent (base_of r) ''releases'' = releases_path r"
  "appendingPathComponent (base_of r) ''state.json'' = state_path r"
  "appendingPathComponent (base_of r) ''mount.marker'' = mount_path r"
  "appendingPathComponent (base_of r) ''crash.marker'' = crash_path r"
  "simple_name i \<Longrightarrow> appendingPathComponent (releases_path r) i = release_dir r i"
  "appendingPathComponent (release_dir r i) ''bundle.js'' = bundle_file r i"
  "appendingPathComponent (release_dir r i) ''bundle.js.tmp'' = bundle_tmp r i"
  by (simp_all add: appendingPathComponent_def layout_defs comps_simple)

lemma failing_does: "\<exists>d'. op d = (True, d') \<and> chg Q d u d' \<Longrightarrow> does Q (failing op) d () u"
  by (auto simp: does_def failing_def)

lemma dropped_does: "\<exists>ok d'. op d = (ok, d') \<and> chg Q d u d' \<Longrightarrow> does Q (dropped (failing op)) d () u"
  by (auto simp: does_def failing_def dropped_def then_io_def bind_io_def try_opt_def catch_io_def)

lemma sw_base:
  assumes "good d" and "simple_path r" and "okv P J r (dview d)"
  shows "does (okv P J r) (sw_baseDirectory (sw_production r)) d (base_of r) (with_dir (base_of r) (dview d))"
proof -
  have "does (okv P J r) (dropped (failing (mkdirs (base_of r)))) d () (with_dir (base_of r) (dview d))"
    using mkdirs_does [OF assms(1) dir_simple(1) [OF assms(2)] assms(3) dir_places(1)] by (auto intro: dropped_does)
  then have "does (okv P J r) (then_io (dropped (failing (mkdirs (base_of r)))) (ret (base_of r))) d
      (base_of r) (with_dir (base_of r) (dview d))"
    by (rule does_then) (rule does_ret)
  then show ?thesis by (simp add: sw_baseDirectory_def sw_production_def Let_def)
qed

lemma sw_places:
  assumes "good d" and "simple_path r" and "okv P J r (dview d)"
  shows "does (okv P J r) (sw_releasesDirectory (sw_production r)) d (releases_path r) (with_dir (base_of r) (dview d))"
    "does (okv P J r) (sw_statePath (sw_production r)) d (state_path r) (with_dir (base_of r) (dview d))"
    "does (okv P J r) (sw_mountMarkerPath (sw_production r)) d (mount_path r) (with_dir (base_of r) (dview d))"
    "does (okv P J r) (sw_crashMarkerPath (sw_production r)) d (crash_path r) (with_dir (base_of r) (dview d))"
    "simple_name i \<Longrightarrow>
      does (okv P J r) (sw_bundlePath (sw_production r) i) d (bundle_file r i) (with_dir (base_of r) (dview d))"
proof -
  show rel: "does (okv P J r) (sw_releasesDirectory (sw_production r)) d (releases_path r) (with_dir (base_of r) (dview d))"
    unfolding sw_releasesDirectory_def by (rule does_bind [OF sw_base [OF assms]]) (simp add: does_ret)
  show "simple_name i \<Longrightarrow>
      does (okv P J r) (sw_bundlePath (sw_production r) i) d (bundle_file r i) (with_dir (base_of r) (dview d))"
    unfolding sw_bundlePath_def by (rule does_bind [OF rel]) (simp add: does_ret)
qed (unfold sw_statePath_def sw_mountMarkerPath_def sw_crashMarkerPath_def,
    (rule does_bind [OF sw_base [OF assms]]; simp add: does_ret)+)

text \<open>A path computation changes no part of the abstract state.\<close>

lemma sw_places_leads:
  assumes "store_inv J r d" and "P (store_abs J r d)"
  shows "leads P J r (sw_statePath (sw_production r)) d (state_path r) (store_abs J r d)"
    "leads P J r (sw_mountMarkerPath (sw_production r)) d (mount_path r) (store_abs J r d)"
    "leads P J r (sw_crashMarkerPath (sw_production r)) d (crash_path r) (store_abs J r d)"
    "simple_name i \<Longrightarrow> leads P J r (sw_bundlePath (sw_production r) i) d (bundle_file r i) (store_abs J r d)"
proof -
  note p = sw_places [OF store_invD(2,1) [OF assms(1)] okv_now [where P = P, OF assms]]
  have v: "view_inv J r (with_dir (base_of r) (dview d))"
    "view_abs J r (with_dir (base_of r) (dview d)) = store_abs J r d"
    using store_invD [OF assms(1)] by (simp_all add: view_inv_with_dir view_simps)
  note l = does_leads [OF _ store_invD(1) [OF assms(1)] v]
  show "leads P J r (sw_statePath (sw_production r)) d (state_path r) (store_abs J r d)"
    "leads P J r (sw_mountMarkerPath (sw_production r)) d (mount_path r) (store_abs J r d)"
    "leads P J r (sw_crashMarkerPath (sw_production r)) d (crash_path r) (store_abs J r d)"
    "simple_name i \<Longrightarrow> leads P J r (sw_bundlePath (sw_production r) i) d (bundle_file r i) (store_abs J r d)"
    by (rule l, rule p, (assumption)?)+
qed

section \<open>The pointer state\<close>

lemma sw_encode: "sw_encode J s = jprint J (JObj (state_members s))"
  by (simp add: sw_encode_def state_members_def opt_member_def encodeIfPresent_def)

lemma sw_decode: "holds_state J t s \<Longrightarrow> sw_decode J t d = (Inr s, d)"
  by (auto simp: holds_state_def sw_decode_def decodeIfPresent_def state_members_lookup split: option.splits)

lemma sw_read_does:
  assumes "good d" and "simple_path r" and "okv P J r (dview d)"
  shows "does (okv P J r) (sw_readState J (sw_production r)) d (abs_state J (dview d (state_path r)))
           (with_dir (base_of r) (dview d))"
proof -
  obtain d' where p: "sw_statePath (sw_production r) d = (Inr (state_path r), d')"
    and c: "chg (okv P J r) d (with_dir (base_of r) (dview d)) d'"
    using sw_places(2) [OF assms] by (auto simp: does_def)
  have v: "dview d' (state_path r) = dview d (state_path r)" using chgD(2) [OF c] by (simp add: view_simps)
  note rd = read_view [OF chgD(1) [OF c] layout_simple(2) [OF assms(2)], unfolded v]
  have "sw_readState J (sw_production r) d = (Inr (abs_state J (dview d (state_path r))), d')"
    using view_inv_state [OF conjunct1 [OF assms(3) [unfolded okv_def]]] p rd
    by (auto simp: sw_readState_def try_opt_def catch_io_def bind_io_def dataContents_def sw_decode)
  with c show ?thesis by (auto simp: does_def)
qed

lemma sw_readState:
  assumes "store_inv J r d" and "P (store_abs J r d)"
  shows "leads P J r (sw_readState J (sw_production r)) d (a_state (store_abs J r d)) (store_abs J r d)"
  using does_leads [OF sw_read_does [OF store_invD(2,1) [OF assms(1)] okv_now [where P = P, OF assms]]]
    store_invD [OF assms(1)] by (simp add: view_inv_with_dir view_simps)

lemma sw_writeState:
  assumes "json_ok J" and "store_inv J r d" and "simple_ids s" and "P (store_abs J r d)"
    and "P ((store_abs J r d)\<lparr>a_state := s\<rparr>)"
  shows "leads P J r (sw_writeState J (sw_production r) s) d () ((store_abs J r d)\<lparr>a_state := s\<rparr>)"
proof -
  note inv = store_invD [OF assms(2)]
  let ?v = "with_dir (base_of r) (dview d)"
  let ?t = "sw_encode J s"
  let ?u = "?v(state_path r \<mapsto> File ?t)"
  have h: "holds_state J ?t s" by (simp add: sw_encode holds_state_print assms(1))
  have iv: "view_inv J r ?v" and a: "view_abs J r ?v = store_abs J r d"
    using inv by (simp_all add: view_inv_with_dir view_simps)
  have iu: "view_inv J r ?u" by (rule view_inv_put_state [OF iv h assms(3)])
  have au: "view_abs J r ?u = (store_abs J r d)\<lparr>a_state := s\<rparr>"
    by (simp add: view_abs_state_put a spec_decode_holds [OF h])
  have "does (okv P J r) (sw_writeState J (sw_production r) s) d () ?u"
    unfolding sw_writeState_def
  proof (rule does_bind [OF sw_places(2) [OF inv(2,1) okv_now [where P = P, OF assms(2,4)]]])
    fix d1 assume d1: "good d1" "dview d1 = ?v"
    have "okv P J r ?u" using iu au assms(5) by (simp add: okv_def)
    then show "does (okv P J r) (failing (write_file_atomic (state_path r) ?t)) d1 () ?u"
      using write_atomic_Q [OF d1(1) layout_simple(2) [OF inv(1)], of "okv P J r" ?t] d1(2)
        shapeD(1) [OF view_inv_shape [OF iv] file_places(1)]
      by (auto intro!: failing_does)
  qed
  from does_leads [OF this inv(1) iu au] show ?thesis .
qed

section \<open>The markers\<close>

lemma sw_markMounted:
  assumes "store_inv J r d" and "P (store_abs J r d)" and "P ((store_abs J r d)\<lparr>a_mounted := True\<rparr>)"
  shows "leads P J r (sw_markMounted (sw_production r)) d () ((store_abs J r d)\<lparr>a_mounted := True\<rparr>)"
proof -
  note inv = store_invD [OF assms(1)]
  let ?v = "with_dir (base_of r) (dview d)"
  let ?u = "?v(mount_path r \<mapsto> File [])"
  have iv: "view_inv J r ?v" and a: "view_abs J r ?v = store_abs J r d"
    using inv by (simp_all add: view_inv_with_dir view_simps)
  have iu: "view_inv J r ?u" by (rule view_inv_put [OF iv]) simp_all
  have au: "view_abs J r ?u = (store_abs J r d)\<lparr>a_mounted := True\<rparr>" by (simp add: view_abs_mount_put a)
  have "does (okv P J r) (sw_markMounted (sw_production r)) d () ?u"
    unfolding sw_markMounted_def
  proof (rule does_bind [OF sw_places(3) [OF inv(2,1) okv_now [where P = P, OF assms(1,2)]]])
    fix d1 assume d1: "good d1" "dview d1 = ?v"
    have "okv P J r ?u" using iu au assms(3) by (simp add: okv_def)
    then show "does (okv P J r) (dropped (failing (write_file_atomic (mount_path r) []))) d1 () ?u"
      using write_atomic_Q [OF d1(1) layout_simple(4) [OF inv(1)], of "okv P J r" "[]"] d1(2)
        shapeD(1) [OF view_inv_shape [OF iv] file_places(3)]
      by (auto intro!: dropped_does)
  qed
  from does_leads [OF this inv(1) iu au] show ?thesis .
qed

lemma sw_clearMounted:
  assumes "store_inv J r d" and "P (store_abs J r d)" and "P ((store_abs J r d)\<lparr>a_mounted := False\<rparr>)"
  shows "leads P J r (sw_clearMountedMarker (sw_production r)) d () ((store_abs J r d)\<lparr>a_mounted := False\<rparr>)"
proof -
  note inv = store_invD [OF assms(1)]
  let ?v = "with_dir (base_of r) (dview d)"
  let ?u = "?v(mount_path r := None)"
  have iv: "view_inv J r ?v" and a: "view_abs J r ?v = store_abs J r d"
    using inv by (simp_all add: view_inv_with_dir view_simps)
  have iu: "view_inv J r ?u" by (rule view_inv_del [OF iv])
  have au: "view_abs J r ?u = (store_abs J r d)\<lparr>a_mounted := False\<rparr>" by (simp add: view_abs_mount_del a)
  have "does (okv P J r) (sw_clearMountedMarker (sw_production r)) d () ?u"
    unfolding sw_clearMountedMarker_def
  proof (rule does_bind [OF sw_places(3) [OF inv(2,1) okv_now [where P = P, OF assms(1,2)]]])
    fix d1 assume d1: "good d1" "dview d1 = ?v"
    have q: "okv P J r (dview d1)" "okv P J r ((dview d1)(mount_path r := None))"
      using iv a iu au assms(2,3) d1(2) by (simp_all add: okv_def del: view_abs_sel)
    show "does (okv P J r) (dropped (failing (delete_tree (mount_path r)))) d1 () ?u"
      using delete_tree_file_Q [OF d1(1) layout_simple(4) [OF inv(1)] _ q] d1(2)
        shapeD(1) [OF view_inv_shape [OF iv] file_places(3)]
      by (auto intro!: dropped_does)
  qed
  from does_leads [OF this inv(1) iu au] show ?thesis .
qed

lemma sw_isMounted:
  assumes "store_inv J r d" and "P (store_abs J r d)"
  shows "leads P J r (sw_isMounted (sw_production r)) d (a_mounted (store_abs J r d)) (store_abs J r d)"
  unfolding sw_isMounted_def
proof (rule leads_bind [OF sw_places_leads(2) [where P = P, OF assms]])
  fix d1 assume d1: "store_inv J r d1" "store_abs J r d1 = store_abs J r d"
  have "(dview d1 (mount_path r) \<noteq> None) = (dview d (mount_path r) \<noteq> None)"
    using arg_cong [OF d1(2), of a_mounted] by simp
  with exists_view [OF layout_simple(4) [OF store_invD(1) [OF d1(1)]], of d1] d1
  show "leads P J r (fileExists (mount_path r)) d1 (a_mounted (store_abs J r d)) (store_abs J r d)"
    by (intro leads_pure) (simp_all add: fileExists_def)
qed

section \<open>Rolling back and confirming\<close>

lemma dropped_leads: "leads P J r m d x a \<Longrightarrow> leads P J r (dropped m) d () a"
  by (auto simp: leads_def dropped_def then_io_def bind_io_def try_opt_def catch_io_def)

lemma sw_rollback:
  assumes "json_ok J" and "store_inv J r d"
  shows "leads (\<lambda>_. True) J r (sw_rollbackToPrevious J (sw_production r)) d () (a_rollback (store_abs J r d))"
  unfolding sw_rollbackToPrevious_def
proof (rule leads_bind [OF sw_readState [where P = "\<lambda>_. True", OF assms(2) TrueI]])
  fix d1 assume d1: "store_inv J r d1" "store_abs J r d1 = store_abs J r d"
  let ?s = "a_state (store_abs J r d)"
  show "leads (\<lambda>_. True) J r (case previousReleaseId ?s of None \<Rightarrow> ret ()
      | Some previous \<Rightarrow> then_io (dropped (sw_writeState J (sw_production r) (?s\<lparr>currentReleaseId := Some previous,
          previousReleaseId := None, bootStatus := ''confirmed''\<rparr>))) (sw_markMounted (sw_production r)))
     d1 () (a_rollback (store_abs J r d))"
  proof (cases "previousReleaseId ?s")
    case None
    with leads_ret [OF d1(1)] d1(2) show ?thesis by (simp add: a_rollback_def)
  next
    case (Some p)
    have ids: "simple_ids (rollback_state p ?s)"
      using abs_ids [OF assms(2)] Some by (simp add: simple_ids_def rollback_state_def)
    have "leads (\<lambda>_. True) J r (then_io (dropped (sw_writeState J (sw_production r) (rollback_state p ?s)))
        (sw_markMounted (sw_production r))) d1 () (a_rollback (store_abs J r d))"
    proof (rule leads_then [OF dropped_leads [OF sw_writeState [where P = "\<lambda>_. True", OF assms(1) d1(1) ids TrueI TrueI]]])
      fix d2 assume d2: "store_inv J r d2" "store_abs J r d2 = (store_abs J r d1)\<lparr>a_state := rollback_state p ?s\<rparr>"
      show "leads (\<lambda>_. True) J r (sw_markMounted (sw_production r)) d2 () (a_rollback (store_abs J r d))"
        using sw_markMounted [where P = "\<lambda>_. True", OF d2(1) TrueI TrueI] d2(2) d1(2) Some
        by (simp add: a_rollback_def)
    qed
    with Some show ?thesis by (simp add: rollback_state_def)
  qed
qed

lemma sw_rollback_unconfirmed:
  assumes "json_ok J" and "store_inv J r d"
  shows "leads (\<lambda>_. True) J r (sw_rollbackToPreviousIfUnconfirmed J (sw_production r)) d ()
           (a_rollback_unconfirmed (store_abs J r d))"
  unfolding sw_rollbackToPreviousIfUnconfirmed_def
proof (rule leads_bind [OF sw_isMounted [where P = "\<lambda>_. True", OF assms(2) TrueI]])
  fix d1 assume d1: "store_inv J r d1" "store_abs J r d1 = store_abs J r d"
  show "leads (\<lambda>_. True) J r (if a_mounted (store_abs J r d) then ret ()
       else sw_rollbackToPrevious J (sw_production r)) d1 () (a_rollback_unconfirmed (store_abs J r d))"
    using sw_rollback [OF assms(1) d1(1)] d1
    by (auto simp: a_rollback_unconfirmed_def intro!: leads_pure)
qed

lemma sw_confirm:
  assumes "json_ok J" and "store_inv J r d"
  shows "leads (\<lambda>_. True) J r (sw_confirmBoot J (sw_production r)) d () (a_confirm (store_abs J r d))"
  unfolding sw_confirmBoot_def
proof (rule leads_then [OF sw_markMounted [where P = "\<lambda>_. True", OF assms(2) TrueI TrueI]],
    rule leads_bind, rule sw_readState, assumption, rule TrueI)
  fix d1 d2 assume d1: "store_inv J r d1" "store_abs J r d1 = (store_abs J r d)\<lparr>a_mounted := True\<rparr>"
    and d2: "store_inv J r d2" "store_abs J r d2 = store_abs J r d1"
  have "simple_ids (confirm_state (a_state (store_abs J r d1)))"
    using abs_ids [OF d1(1)] by (simp add: simple_ids_def confirm_state_def)
  from sw_writeState [where P = "\<lambda>_. True", OF assms(1) d2(1) this TrueI TrueI] d1(2) d2(2)
  show "leads (\<lambda>_. True) J r (sw_writeState J (sw_production r)
      ((a_state (store_abs J r d1))\<lparr>bootStatus := ''confirmed''\<rparr>)) d2 () (a_confirm (store_abs J r d))"
    by (simp add: a_confirm_def confirm_state_def)
qed

lemma sw_current:
  assumes "store_inv J r d"
  shows "leads (\<lambda>_. True) J r (sw_getCurrentReleaseId J (sw_production r)) d
           (case a_current (store_abs J r d) of None \<Rightarrow> [] | Some i \<Rightarrow> i) (store_abs J r d)"
  unfolding sw_getCurrentReleaseId_def
  by (rule leads_bind [OF sw_readState [where P = "\<lambda>_. True", OF assms TrueI]], rule leads_pure) simp_all

section \<open>Booting\<close>

lemma sw_delete_crash:
  assumes "store_inv J r d"
  shows "leads (\<lambda>_. True) J r (dropped (failing (delete_tree (crash_path r)))) d ()
           ((store_abs J r d)\<lparr>a_crash := None\<rparr>)"
proof -
  note inv = store_invD [OF assms]
  let ?u = "(dview d)(crash_path r := None)"
  have iu: "view_inv J r ?u" by (rule view_inv_del [OF inv(3)])
  have "does (okv (\<lambda>_. True) J r) (dropped (failing (delete_tree (crash_path r)))) d () ?u"
    using delete_tree_file_Q [OF inv(2) layout_simple(5) [OF inv(1)], of "okv (\<lambda>_. True) J r"] iu inv(3)
      shapeD(1) [OF inv(4) file_places(4)]
    by (auto simp: okv_def intro!: dropped_does)
  from does_leads [OF this inv(1) iu] show ?thesis by (simp add: view_abs_crash_del)
qed

lemma sw_flag_crash: "crash_flag J t \<noteq> None \<Longrightarrow> sw_flag J t = (crash_flag J t = Some True)"
  by (auto simp: crash_flag_def sw_flag_def split: option.splits json.splits)

lemma sw_process:
  assumes "json_ok J" and "store_inv J r d"
  shows "leads (\<lambda>_. True) J r (sw_processCrashMarkerIfPresent J (sw_production r)) d ()
           (a_process_crash (store_abs J r d))"
  unfolding sw_processCrashMarkerIfPresent_def
proof (rule leads_bind [OF sw_places_leads(3) [where P = "\<lambda>_. True", OF assms(2) TrueI]])
  fix d1 assume d1: "store_inv J r d1" "store_abs J r d1 = store_abs J r d"
  note inv = store_invD [OF d1(1)]
  let ?k = "\<lambda>raw. then_io (bind_io (sw_crashMarkerPath (sw_production r)) (\<lambda>p. dropped (failing (delete_tree p))))
      (if sw_flag J raw then sw_rollbackToPrevious J (sw_production r) else ret ())"
  show "leads (\<lambda>_. True) J r (bind_io (try_opt (dataContents (crash_path r)))
      (\<lambda>data. case data of None \<Rightarrow> ret () | Some raw \<Rightarrow> ?k raw)) d1 () (a_process_crash (store_abs J r d))"
  proof (cases "file_text (dview d1 (crash_path r))")
    case None
    have "a_crash (store_abs J r d1) = None" by (simp add: None)
    then have "a_process_crash (store_abs J r d1) = store_abs J r d1" by (simp add: a_process_crash_def)
    moreover have "dview d1 (crash_path r) = None"
      using shape_cases [OF inv(4) file_places(4)] None by auto
    ultimately show ?thesis
      using read_view [OF inv(2) layout_simple(5) [OF inv(1)]] d1
      by (intro leads_pure) (simp_all add: bind_io_def try_opt_def catch_io_def dataContents_def)
  next
    case (Some t)
    then have t: "dview d1 (crash_path r) = Some (File t)"
      using shape_cases [OF inv(4) file_places(4)] by auto
    have fl: "sw_flag J t = (a_crash (store_abs J r d1) = Some True)"
      using sw_flag_crash [of J t] inv(3) t by (simp add: view_inv_def crash_ok_def)
    have rd: "try_opt (dataContents (crash_path r)) d1 = (Inr (Some t), d1)"
      using read_view [OF inv(2) layout_simple(5) [OF inv(1)]] t
      by (simp add: try_opt_def catch_io_def bind_io_def dataContents_def)
    have "leads (\<lambda>_. True) J r (?k t) d1 () (a_process_crash (store_abs J r d))"
    proof (rule leads_then [OF leads_bind [OF sw_places_leads(3) [where P = "\<lambda>_. True", OF d1(1) TrueI]]])
      fix d2 assume "store_inv J r d2" and "store_abs J r d2 = store_abs J r d1"
      with sw_delete_crash [of J r d2]
      show "leads (\<lambda>_. True) J r (dropped (failing (delete_tree (crash_path r)))) d2 ()
          ((store_abs J r d1)\<lparr>a_crash := None\<rparr>)" by simp
    next
      fix d2 assume d2: "store_inv J r d2" "store_abs J r d2 = (store_abs J r d1)\<lparr>a_crash := None\<rparr>"
      show "leads (\<lambda>_. True) J r (if sw_flag J t then sw_rollbackToPrevious J (sw_production r) else ret ())
          d2 () (a_process_crash (store_abs J r d))"
        using sw_rollback [OF assms(1) d2(1)] d2 fl d1(2)
        by (auto simp: a_process_crash_def intro!: leads_pure)
    qed
    then show ?thesis using rd by (simp add: leads_def bind_io_def)
  qed
qed

lemma sw_resolve:
  assumes "json_ok J" and "store_inv J r d"
  defines "a \<equiv> a_process_crash (store_abs J r d)"
  shows "leads (\<lambda>_. True) J r (sw_resolveBundlePath J (sw_production r)) d
           (map_option (bundle_string r) (a_boot a)) a"
  unfolding sw_resolveBundlePath_def
proof (rule leads_then [OF sw_process [OF assms(1,2), folded a_def]],
    rule leads_bind, rule sw_readState, assumption, rule TrueI)
  fix d1 d2 assume d1: "store_inv J r d1" "store_abs J r d1 = a"
    and d2: "store_inv J r d2" "store_abs J r d2 = store_abs J r d1"
  show "leads (\<lambda>_. True) J r (case a_current (store_abs J r d1) of None \<Rightarrow> ret None
     | Some i \<Rightarrow> bind_io (sw_bundlePath (sw_production r) i) (\<lambda>path.
         bind_io (fileExists path) (\<lambda>ex. ret (if ex then Some (path_str path) else None))))
     d2 (map_option (bundle_string r) (a_boot a)) a"
  proof (cases "a_current a")
    case None
    with d1(2) d2 show ?thesis by (auto simp: a_boot_def intro!: leads_pure)
  next
    case (Some i)
    with abs_ids [OF d1(1)] d1(2) have i: "simple_name i" by (simp add: simple_ids_def)
    have "leads (\<lambda>_. True) J r (bind_io (sw_bundlePath (sw_production r) i) (\<lambda>path.
         bind_io (fileExists path) (\<lambda>ex. ret (if ex then Some (path_str path) else None))))
      d2 (map_option (bundle_string r) (a_boot a)) a"
    proof (rule leads_bind [OF sw_places_leads(4) [where P = "\<lambda>_. True", OF d2(1) TrueI i]])
      fix d3 assume d3: "store_inv J r d3" "store_abs J r d3 = store_abs J r d2"
      note inv = store_invD [OF d3(1)]
      have a3: "store_abs J r d3 = a" using d1(2) d2(2) d3(2) by simp
      have "a_bundle a i = file_text (dview d3 (bundle_file r i))" using i by (simp add: a3 [symmetric])
      then have "a_boot a = (if dview d3 (bundle_file r i) = None then None else Some i)"
        using shape_cases [OF inv(4) file_places(5), of i] Some by (auto simp: a_boot_def)
      then show "leads (\<lambda>_. True) J r (bind_io (fileExists (bundle_file r i))
          (\<lambda>ex. ret (if ex then Some (path_str (bundle_file r i)) else None))) d3
        (map_option (bundle_string r) (a_boot a)) a"
        using exists_view [OF layout_simple(8) [OF inv(1) i], of d3]
        by (intro leads_pure [OF d3(1) a3]) (simp add: bundle_string_def fileExists_def bind_io_def)
    qed
    with Some d1(2) show ?thesis by simp
  qed
qed

section \<open>Installing\<close>

lemma sw_prune:
  assumes "store_inv J r d"
    and "\<And>b. pruned (set keep) (a_bundle (store_abs J r d)) b \<Longrightarrow> P ((store_abs J r d)\<lparr>a_bundle := b\<rparr>)"
  shows "leads P J r (sw_pruneOldReleases (sw_production r) keep) d ()
           ((store_abs J r d)\<lparr>a_bundle := keep_only (Some ` set keep) (a_bundle (store_abs J r d))\<rparr>)"
  unfolding sw_pruneOldReleases_def
proof (rule leads_bind)
  note inv = store_invD [OF assms(1)]
  have p: "P (store_abs J r d)" using assms(2) by (rule pruned_self [where K = "set keep"])
  show "leads P J r (sw_releasesDirectory (sw_production r)) d (releases_path r) (store_abs J r d)"
    using does_leads [OF sw_places(1) [OF inv(2,1) okv_now [where P = P, OF assms(1) p]] inv(1)] inv(3)
    by (simp add: view_inv_with_dir view_simps)
qed (rule prune_list_leads, assumption, assumption, rule assms(2))

lemma sw_place:
  assumes "store_inv J r d" and i: "simple_name i" and "P (store_abs J r d)"
    and "P ((store_abs J r d)\<lparr>a_bundle := (a_bundle (store_abs J r d))(i := None)\<rparr>)"
    and "P ((store_abs J r d)\<lparr>a_bundle := (a_bundle (store_abs J r d))(i \<mapsto> c)\<rparr>)"
  shows "leads P J r (sw_place_bundle (sw_production r) i c) d ()
           ((store_abs J r d)\<lparr>a_bundle := (a_bundle (store_abs J r d))(i \<mapsto> c)\<rparr>)"
proof -
  note inv = store_invD [OF assms(1)]
  let ?Q = "okv P J r"
  let ?v = "with_dir (release_dir r i) (dview d)"
  let ?w = "?v(bundle_tmp r i \<mapsto> File c)"
  let ?w' = "?w(bundle_file r i := None)"
  let ?u = "?v(bundle_file r i := None, bundle_tmp r i := None, bundle_file r i \<mapsto> File c)"
  have iv: "view_inv J r ?v" and a: "view_abs J r ?v = store_abs J r d"
    using inv by (simp_all add: view_inv_with_dir view_simps)
  have iw: "view_inv J r ?w" by (rule view_inv_put [OF iv]) simp_all
  have aw: "view_abs J r ?w = store_abs J r d" by (simp add: view_abs_tmp a)
  have qw: "?Q ?w" using iw aw assms(3) by (simp add: okv_def)
  have qd: "?Q ?w'"
    using view_inv_del [OF iw] aw assms(4) by (simp add: okv_def view_abs_bundle_del del: view_abs_sel)
  have iu: "view_inv J r ?u" by (rule view_inv_put [OF view_inv_del [OF view_inv_del [OF iv]]]) simp_all
  have au: "view_abs J r ?u = (store_abs J r d)\<lparr>a_bundle := (a_bundle (store_abs J r d))(i \<mapsto> c)\<rparr>"
    by (simp add: view_abs_bundle_put [OF i] view_abs_bundle_del view_abs_tmp a del: view_abs_sel)
  have qu: "?Q ?u" using iu au assms(5) by (simp add: okv_def)
  have nd: "?v (bundle_tmp r i) \<noteq> Some Dir" "?v (bundle_file r i) \<noteq> Some Dir"
    using shapeD(1) [OF view_inv_shape [OF iv]] by simp_all
  have e: "?w'(bundle_tmp r i := None, bundle_file r i \<mapsto> File c) = ?u" by (auto simp: fun_eq_iff)
  let ?clear = "bind_io (fileExists (bundle_file r i)) (\<lambda>ex. if ex then failing (delete_tree (bundle_file r i)) else ret ())"
  let ?move = "failing (move_file (bundle_tmp r i) (bundle_file r i))"
  have clear: "does ?Q ?clear d1 () ?w'" if d1: "good d1" "dview d1 = ?w" for d1
  proof (cases "dview d1 (bundle_file r i)")
    case None
    then have "dview d1 = ?w'" using d1(2) by (auto simp: fun_eq_iff)
    with None d1(1) exists_view [OF layout_simple(8) [OF inv(1) i], of d1] show ?thesis
      by (simp add: does_def fileExists_def bind_io_def) (metis chg_refl)
  next
    case (Some n)
    have q1: "?Q (dview d1)" and q2: "?Q ((dview d1)(bundle_file r i := None))"
      using qw qd by (simp_all only: d1(2))
    have "dview d1 (bundle_file r i) \<noteq> Some Dir" using nd(2) by (simp add: d1(2))
    from delete_tree_file_Q [OF d1(1) layout_simple(8) [OF inv(1) i] this q1 q2] Some
    obtain d2 where "delete_tree (bundle_file r i) d1 = (True, d2)" "chg ?Q d1 ((dview d1)(bundle_file r i := None)) d2"
      by auto
    then show ?thesis
      using Some exists_view [OF layout_simple(8) [OF inv(1) i], of d1]
      by (simp add: does_def fileExists_def bind_io_def failing_def d1(2))
  qed
  have move: "does ?Q ?move d1 () ?u" if d1: "good d1" "dview d1 = ?w'" for d1
  proof -
    have "\<not> path_exists (bundle_file r i) d1"
      using exists_view [OF layout_simple(8) [OF inv(1) i], of d1] d1(2) by simp
    moreover have "\<exists>d'. rename_file (bundle_tmp r i) (bundle_file r i) d1 = (True, d') \<and> chg ?Q d1 ?u d'"
      using rename_Q [where Q = ?Q and c = c, OF d1(1) layout_simple(9,8) [OF inv(1) i]] qu e d1(2) by simp
    ultimately show ?thesis by (intro failing_does) (simp add: move_file_def)
  qed
  have "does ?Q (sw_place_bundle (sw_production r) i c) d () ?u"
    unfolding sw_place_bundle_def
  proof (rule does_bind [OF sw_places(1) [OF inv(2,1) okv_now [where P = P, OF assms(1,3)]]],
      unfold Let_def sw_children(6) [OF i] sw_children(7,8))
    fix d1 assume d1: "good d1" "dview d1 = with_dir (base_of r) (dview d)"
    have q1: "?Q (dview d1)" using okv_with_dir [OF okv_now [where P = P, OF assms(1,3)]] d1(2) by simp
    have m: "does ?Q (failing (mkdirs (release_dir r i))) d1 () ?v"
      using mkdirs_does [OF d1(1) layout_simple(7) [OF inv(1) i] q1 dir_places(3)] d1(2)
      by (auto simp: with_dir_absorb intro!: failing_does)
    have w: "does ?Q (failing (write_file_atomic (bundle_tmp r i) c)) d2 () ?w"
      if "good d2" "dview d2 = ?v" for d2
      using write_atomic_Q [OF that(1) layout_simple(9) [OF inv(1) i], of ?Q c] that(2) nd qw
      by (auto intro!: failing_does)
    show "does ?Q (then_io (failing (mkdirs (release_dir r i)))
        (then_io (failing (write_file_atomic (bundle_tmp r i) c)) (then_io ?clear ?move))) d1 () ?u"
      by (rule does_then [OF m], rule does_then [OF w], assumption+, rule does_then [OF clear], assumption+,
          rule move, assumption+)
  qed
  from does_leads [OF this inv(1) iu au] show ?thesis .
qed

lemma sw_install:
  assumes "json_ok J" and "store_inv J r d" and i: "simple_name i"
    and P: "\<And>x. install_stage i c (store_abs J r d) x \<Longrightarrow> P x"
  shows "leads P J r (sw_installUpdate J (sw_production r) i c) d () (a_install i c (store_abs J r d))"
proof -
  let ?e = "sw_production r"
  have "leads P J r (then_io (sw_place_bundle ?e i c) (bind_io (sw_readState J ?e) (\<lambda>s.
      then_io (sw_writeState J ?e (install_state i s)) (then_io (sw_clearMountedMarker ?e)
        (sw_pruneOldReleases ?e (i # (case currentReleaseId s of None \<Rightarrow> [] | Some p \<Rightarrow> [p]))))))) d ()
    (a_install i c (store_abs J r d))"
    by (rule install_chain [where P = P, OF assms(2) i P sw_place [OF assms(2) i] sw_readState
          sw_writeState [OF assms(1)] sw_clearMounted sw_prune])
  then show ?thesis by (simp add: sw_installUpdate_def install_state_def Let_def)
qed

end
