(* ===== verification/SwiftApp.thy ===== *)
theory SwiftApp
  imports SwiftRefine KotlinApp
begin

text \<open>
  The iOS storage as an implementation of \<open>release_store\<close>, in its production configuration, what follows
  for a device that uses it, and the comparison of the two platforms. The last section leaves the healthy
  disks: what a full device does to a rollback.
\<close>

definition swift_api :: "serror store_api" where
  "swift_api = \<lparr>api_base = (\<lambda>r. sw_baseDirectory (sw_production r)),
     api_install = (\<lambda>J r. sw_installUpdate J (sw_production r)),
     api_confirm = (\<lambda>J r. sw_confirmBoot J (sw_production r)),
     api_uncaught = (\<lambda>J r. sw_rollbackToPreviousIfUnconfirmed J (sw_production r)),
     api_resolve = (\<lambda>J r. sw_resolveBundlePath J (sw_production r)),
     api_current = (\<lambda>J r. sw_getCurrentReleaseId J (sw_production r))\<rparr>"

lemma swift_api_sel [simp]:
  "api_base swift_api r = sw_baseDirectory (sw_production r)"
  "api_install swift_api J r = sw_installUpdate J (sw_production r)"
  "api_confirm swift_api J r = sw_confirmBoot J (sw_production r)"
  "api_uncaught swift_api J r = sw_rollbackToPreviousIfUnconfirmed J (sw_production r)"
  "api_resolve swift_api J r = sw_resolveBundlePath J (sw_production r)"
  "api_current swift_api J r = sw_getCurrentReleaseId J (sw_production r)"
  by (simp_all add: swift_api_def)

lemma sw_base_law:
  assumes "store_inv J r d"
  shows "\<exists>d'. sw_baseDirectory (sw_production r) d = (Inr (base_of r), d') \<and> store_inv J r d'
    \<and> store_abs J r d' = store_abs J r d \<and> dview d' (base_of r) = Some Dir"
  using sw_base [OF store_invD(2,1) [OF assms] okv_now [where P = "\<lambda>_. True", OF assms TrueI]]
    store_invD [OF assms]
  by (auto simp: does_def chg_def store_inv_def view_inv_with_dir view_simps)

interpretation swift: release_store swift_api
  by unfold_locales
    (simp_all add: sw_base_law sw_install sw_confirm sw_rollback_unconfirmed sw_resolve sw_current
      del: view_abs_sel)

section \<open>The iOS device\<close>

text \<open>C12. Simulation: every run of an iOS device from a device without a storage directory leaves exactly the
  state that the specified operations produce from the empty state, and keeps the storage well formed.\<close>

theorem sw_run_refines:
  assumes "json_ok J" and "new_device r d0" and "device_run swift_api J r e d0 evs d"
  shows "store_inv J r d \<and> store_abs J r d = a_run evs a_empty \<and> a_inv (store_abs J r d)"
  by (rule swift.run_from_new [OF assms(1,3,2)])

theorem sw_run_refines_witness:
  "\<exists>d. device_run swift_api sample_json [''data''] (sample_env IOS) sample_disk sample_events d
     \<and> a_current (store_abs sample_json [''data''] d) = Some ''b''"
proof -
  obtain d where d: "device_run swift_api sample_json [''data''] (sample_env IOS) sample_disk sample_events d"
    using swift.sample_run by blast
  from sw_run_refines [OF sample_json_ok sample_new_device d] d sample_history(1) show ?thesis
    by (auto simp del: view_abs_sel)
qed

text \<open>After any history \<open>resolveBundlePath\<close> on iOS returns the path of the current release's bundle, or nil
  when none is installed; the file is there and holds the bytes installed last under that id.\<close>

theorem sw_boots_what_was_installed:
  assumes "json_ok J" and "new_device r d0" and "device_run swift_api J r e d0 evs d"
  shows "\<exists>d' x. sw_resolveBundlePath J (sw_production r) d = (Inr x, d')
    \<and> x = map_option (bundle_string r) (a_current (store_abs J r d'))
    \<and> (\<forall>i. a_current (store_abs J r d') = Some i \<longrightarrow>
        (\<exists>c. last_installed evs i = Some c \<and> dview d' (bundle_file r i) = Some (File c)))"
  using swift.boots_what_was_installed [OF assms] by simp

theorem sw_boots_what_was_installed_witness:
  "\<exists>d x d'. device_run swift_api sample_json [''data''] (sample_env IOS) sample_disk sample_events d
     \<and> sw_resolveBundlePath sample_json (sw_production [''data'']) d = (Inr x, d')"
proof -
  obtain d where d: "device_run swift_api sample_json [''data''] (sample_env IOS) sample_disk sample_events d"
    using swift.sample_run by blast
  from sw_boots_what_was_installed [OF sample_json_ok sample_new_device d] d show ?thesis by blast
qed

text \<open>End to end on iOS: when a release that has not confirmed its boot dies of one of the handled signals,
  the next \<open>resolveBundlePath\<close> returns the bundle of the release before it, untouched; that release is
  current and counts as confirmed.\<close>

theorem sw_signal_rolls_back:
  assumes "json_ok J" and "new_device r d0" and "device_run swift_api J r e d0 evs d"
    and "dview d (mount_path r) = None" and "a_previous (store_abs J r d) = Some p"
    and "device_step swift_api J r e d Signal d1"
  shows "\<exists>d2. sw_resolveBundlePath J (sw_production r) d1 = (Inr (Some (bundle_string r p)), d2)
    \<and> a_current (store_abs J r d2) = Some p \<and> dview d2 (mount_path r) \<noteq> None
    \<and> dview d2 (bundle_file r p) = dview d (bundle_file r p)"
  using swift.signal_rolls_back [OF assms] by simp

theorem sw_signal_rolls_back_witness:
  "\<exists>d1 d2. sw_resolveBundlePath sample_json (sw_production [''data'']) d1
     = (Inr (Some ''/data/salve-push/releases/a/bundle.js''), d2)"
proof -
  obtain d where d: "device_run swift_api sample_json [''data''] (sample_env IOS) sample_disk sample_events d"
    and i: "store_inv sample_json [''data''] d" and a: "store_abs sample_json [''data''] d = a_run sample_events a_empty"
    using swift.sample_run by blast
  have m: "dview d (mount_path [''data'']) = None" using sample_history(3) by (simp add: a [symmetric])
  have p: "a_previous (store_abs sample_json [''data''] d) = Some ''a''" unfolding a by (rule sample_history(2))
  obtain d1 where s: "device_step swift_api sample_json [''data''] (sample_env IOS) d Signal d1"
    using swift.step_exists [OF sample_json_ok i sample_env_ok(1) sample_base_short] by fastforce
  from sw_signal_rolls_back [OF sample_json_ok sample_new_device d m p s] show ?thesis
    by (auto simp: bundle_string_def bundle_file_def path_str_def)
qed

text \<open>Atomicity of \<open>installUpdate\<close> on iOS under a kill of the process: whatever file system state the kill
  leaves, the next boot runs the release it would have run without the installation or the current one (they differ only while a crash
  marker waits), its bundle untouched, or the new release with all its bytes. There is one exception: when the release that
  would have run is itself installed again, its bundle may be missing, and the app boots the embedded one.\<close>

theorem sw_install_kill_safe:
  assumes "json_ok J" and "store_inv J r d" and "a_inv (store_abs J r d)" and "simple_name i"
  shows "\<exists>d' fs. sw_installUpdate J (sw_production r) i c d = (Inr (), d') \<and> d_hist d' = d_hist d @ fs
    \<and> (\<forall>f \<in> set fs. \<forall>k. good k \<longrightarrow> d_fs k = f \<longrightarrow>
        (\<exists>x k'. sw_resolveBundlePath J (sw_production r) k = (Inr (map_option (bundle_string r) x), k')
          \<and> ((x = a_current (store_abs J r d) \<or> x = a_current (a_process_crash (store_abs J r d)))
                \<and> (\<forall>j. x = Some j \<longrightarrow> dview k' (bundle_file r j) = dview d (bundle_file r j))
            \<or> x = Some i \<and> dview k' (bundle_file r i) = Some (File c)
            \<or> x = None \<and> a_current (a_process_crash (store_abs J r d)) = Some i)))"
  using swift.install_kill_safe [OF assms] by simp

theorem sw_install_kill_safe_witness:
  "\<exists>d d' fs. a_current (store_abs sample_json [''data''] d) = Some ''b''
     \<and> sw_installUpdate sample_json (sw_production [''data'']) ''c'' ''bundle C'' d = (Inr (), d')
     \<and> d_hist d' = d_hist d @ fs"
proof -
  obtain d where i: "store_inv sample_json [''data''] d"
    and a: "store_abs sample_json [''data''] d = a_run sample_events a_empty"
    using swift.sample_run by blast
  have v: "a_inv (store_abs sample_json [''data''] d)"
    unfolding a by (simp add: a_run_inv a_inv_empty)
  have s: "simple_name ''c''" by (simp add: simple_name_def)
  from sw_install_kill_safe [OF sample_json_ok i v s, of "''bundle C''"] sample_history(1) show ?thesis
    unfolding a [symmetric] by blast
qed

section \<open>The two platforms\<close>

text \<open>Round trip of \<open>state.json\<close>: what one platform writes, it reads back as the same state, and so does the
  other platform's reader; an id that is null is left out of the text and read back as null.\<close>

theorem state_round_trip:
  assumes "json_ok J"
  shows "fromJson J (toJson J s) d = (Inr s, d) \<and> sw_decode J (sw_encode J s) d = (Inr s, d)
    \<and> fromJson J (sw_encode J s) d = (Inr s, d) \<and> sw_decode J (toJson J s) d = (Inr s, d)"
proof -
  have "holds_state J (toJson J s) s" "holds_state J (sw_encode J s) s"
    by (simp_all add: kt_toJson sw_encode holds_state_print assms)
  then show ?thesis by (simp add: kt_fromJson sw_decode)
qed

theorem state_round_trip_witness:
  "sw_decode sample_json (toJson sample_json \<lparr>currentReleaseId = Some ''b'', previousReleaseId = None, bootStatus = ''pending''\<rparr>) sample_disk
     = (Inr \<lparr>currentReleaseId = Some ''b'', previousReleaseId = None, bootStatus = ''pending''\<rparr>, sample_disk)"
  using state_round_trip [OF sample_json_ok] by simp


text \<open>C22. The two storages are observably one program: after the same history, whatever JSON library each
  uses, both answer \<open>getCurrentReleaseId\<close> and \<open>resolveBundlePath\<close> alike, and hold the same bundles.\<close>

theorem platforms_agree:
  assumes "json_ok J" and "json_ok J'" and "new_device r d0" and "new_device r d0'"
    and "device_run kotlin_api J r e d0 evs d" and "device_run swift_api J' r e' d0' evs d'"
  shows "(\<exists>x. fst (kt_resolveBundlePath J r d) = Inr x \<and> fst (sw_resolveBundlePath J' (sw_production r) d') = Inr x)
    \<and> (\<exists>i. fst (kt_getCurrentReleaseId J r d) = Inr i \<and> fst (sw_getCurrentReleaseId J' (sw_production r) d') = Inr i)
    \<and> (\<forall>i. simple_name i \<longrightarrow> dview d (bundle_file r i) = dview d' (bundle_file r i))"
proof -
  note k = kotlin.run_from_new [OF assms(1,5,3)]
  note s = swift.run_from_new [OF assms(2,6,4)]
  have a: "store_abs J r d = store_abs J' r d'" using k s by simp
  have "\<exists>x. fst (kt_resolveBundlePath J r d) = Inr x \<and> fst (sw_resolveBundlePath J' (sw_production r) d') = Inr x"
    using kotlin.resolve_law [OF assms(1) conjunct1 [OF k]] swift.resolve_law [OF assms(2) conjunct1 [OF s]]
    unfolding a by (auto simp: leads_def)
  moreover have "\<exists>i. fst (kt_getCurrentReleaseId J r d) = Inr i \<and> fst (sw_getCurrentReleaseId J' (sw_production r) d') = Inr i"
    using kotlin.current_law [OF assms(1) conjunct1 [OF k]] swift.current_law [OF assms(2) conjunct1 [OF s]]
    unfolding a by (auto simp: leads_def)
  moreover have "dview d (bundle_file r i) = dview d' (bundle_file r i)" if "simple_name i" for i
    using arg_cong [OF a, of "\<lambda>x. a_bundle x i"] that
      shape_cases [OF store_invD(4) [OF conjunct1 [OF k]] file_places(5), of i]
      shape_cases [OF store_invD(4) [OF conjunct1 [OF s]] file_places(5), of i] by auto
  ultimately show ?thesis by blast
qed

theorem platforms_agree_witness:
  "\<exists>d d' x. fst (kt_resolveBundlePath sample_json [''data''] d) = Inr x
     \<and> fst (sw_resolveBundlePath sample_json (sw_production [''data'']) d') = Inr x
     \<and> store_abs sample_json [''data''] d = a_run sample_events a_empty"
proof -
  obtain d where d: "device_run kotlin_api sample_json [''data''] (sample_env Android) sample_disk sample_events d"
    and a: "store_abs sample_json [''data''] d = a_run sample_events a_empty"
    using kotlin.sample_run by blast
  obtain d' where d': "device_run swift_api sample_json [''data''] (sample_env IOS) sample_disk sample_events d'"
    using swift.sample_run by blast
  from platforms_agree [OF sample_json_ok sample_json_ok sample_new_device sample_new_device d d'] a
  show ?thesis by blast
qed

section \<open>A full device\<close>

text \<open>Without room for the new pointer state, the readings go on as before.\<close>

lemma full_disk_base:
  assumes "store_inv J r (d\<lparr>d_room := None\<rparr>)" and "dview d (base_of r) = Some Dir"
  shows "sw_baseDirectory (sw_production r) d = (Inr (base_of r), d)"
proof -
  let ?d = "d\<lparr>d_room := None\<rparr>"
  note inv = store_invD [OF assms(1)]
  have "dget d q = Some Dir" if "q \<in> set (tl (prefixes (base_of r)))" for q
  proof -
    from that have q: "prefix q (base_of r)" by (metis in_set_prefixes list.set_sel(2) prefixes.simps(1) tl_Nil)
    then show ?thesis
      using tree_prefix [OF good_tree [OF inv(2)], of "base_of r" q] assms(2)
        simple_prefix [OF layout_simple(1) [OF inv(1)] q]
      by (cases "q = base_of r") (auto simp: fview_simple strict_prefix_def)
  qed
  then have "mkdirs (base_of r) d = (True, d)"
    using inv(1) by (simp add: mkdirs_def norm_simple make_dirs_existing)
  then show ?thesis
    by (simp add: sw_baseDirectory_def sw_production_def Let_def dropped_def failing_def then_io_def
        bind_io_def try_opt_def catch_io_def)
qed

lemma full_disk_read:
  assumes "store_inv J r (d\<lparr>d_room := None\<rparr>)" and "dview d (base_of r) = Some Dir"
  shows "sw_readState J (sw_production r) d = (Inr (a_state (store_abs J r d)), d)"
proof -
  let ?d = "d\<lparr>d_room := None\<rparr>"
  note inv = store_invD [OF assms(1)]
  have p: "sw_statePath (sw_production r) d = (Inr (state_path r), d)"
    by (simp add: sw_statePath_def bind_io_def full_disk_base [OF assms])
  have rd: "read_file (state_path r) d = (case dview d (state_path r) of Some (File c) \<Rightarrow> Some c | _ \<Rightarrow> None)"
    using healthy_sel(1) [OF good_healthy [OF inv(2)], of "norm (state_path r)"]
    by (simp add: read_file_def fview_simple [OF layout_simple(2) [OF inv(1)]])
  show ?thesis
    using view_inv_state [OF inv(3)] p rd
    by (auto simp: sw_readState_def try_opt_def catch_io_def bind_io_def dataContents_def sw_decode)
qed

text \<open>When the device is too full for the new \<open>state.json\<close>, the iOS rollback drops the error and still creates
  the mount marker: the unconfirmed release stays current and counts as confirmed from then on.\<close>

theorem sw_full_disk_rollback:
  assumes "store_inv J r (d\<lparr>d_room := None\<rparr>)" and "dview d (base_of r) = Some Dir" and "d_room d = Some k"
    and "dview d (mount_path r) = None" and "a_previous (store_abs J r d) = Some p"
    and "k < length (sw_encode J (rollback_state p (a_state (store_abs J r d))))"
  shows "\<exists>d'. sw_rollbackToPreviousIfUnconfirmed J (sw_production r) d = (Inr (), d')
    \<and> a_state (store_abs J r d') = a_state (store_abs J r d) \<and> a_current (store_abs J r d') = a_current (store_abs J r d)
    \<and> dview d' (mount_path r) \<noteq> None"
proof -
  let ?e = "sw_production r"
  let ?s = "rollback_state p (a_state (store_abs J r d))"
  note inv = store_invD [OF assms(1)]
  note base = full_disk_base [OF assms(1,2)]
  have perm: "may_read d q" "may_write d q" for q
    using healthy_sel(1,2) [OF good_healthy [OF inv(2)], of q] by simp_all
  have paths: "sw_statePath ?e d = (Inr (state_path r), d)" "sw_mountMarkerPath ?e d = (Inr (mount_path r), d)"
    by (simp_all add: sw_statePath_def sw_mountMarkerPath_def bind_io_def base)
  have mounted: "sw_isMounted ?e d = (Inr False, d)"
    using exists_view [OF layout_simple(4) [OF inv(1)], of d] assms(4) paths(2)
    by (simp add: sw_isMounted_def bind_io_def fileExists_def)
  have wr: "sw_writeState J ?e ?s d = (Inl CocoaError, d)"
    using assms(3,6) paths(1) by (simp add: sw_writeState_def bind_io_def failing_def write_file_atomic_def grant_def)
  let ?d' = "spend 0 (set_fs (fput (mount_path r) (File []) (d_fs d)) d)"
  have "write_file_atomic (mount_path r) [] d = (True, ?d')"
    using perm assms(2,4) inv(1)
    by (simp add: write_file_atomic_def parent_view fview_simple grant_def split: option.splits)
  then have mk: "sw_markMounted ?e d = (Inr (), ?d')"
    using paths(2) by (simp add: sw_markMounted_def bind_io_def dropped_def then_io_def try_opt_def catch_io_def failing_def)
  have rb: "sw_rollbackToPreviousIfUnconfirmed J ?e d = (Inr (), ?d')"
    using mounted full_disk_read [OF assms(1,2)] assms(5) wr mk
    by (simp add: sw_rollbackToPreviousIfUnconfirmed_def sw_rollbackToPrevious_def bind_io_def then_io_def
        dropped_def try_opt_def catch_io_def rollback_state_def)
  have "dview ?d' = (dview d)(mount_path r \<mapsto> File [])" using inv(1) by (simp add: fview_fput)
  with rb show ?thesis by simp
qed

theorem sw_full_disk_rollback_witness:
  "\<exists>d d'. sw_rollbackToPreviousIfUnconfirmed sample_json (sw_production [''data'']) d = (Inr (), d')
     \<and> a_current (store_abs sample_json [''data''] d') = Some ''b'' \<and> dview d' (mount_path [''data'']) \<noteq> None"
proof -
  obtain d0 where i0: "store_inv sample_json [''data''] d0"
    and a0: "store_abs sample_json [''data''] d0 = a_run sample_events a_empty"
    using swift.sample_run by blast
  let ?d = "d0\<lparr>d_room := Some 0\<rparr>"
  have rm: "d_room d0 = None" using good_healthy [OF store_invD(2) [OF i0]] by simp
  have "?d\<lparr>d_room := None\<rparr> = d0" using rm by simp
  with i0 have i: "store_inv sample_json [''data''] (?d\<lparr>d_room := None\<rparr>)" by simp
  have st: "abs_state sample_json (dview d0 (state_path [''data''])) \<noteq> confirmedEmpty"
    using sample_history(1) arg_cong [OF a0, of a_state] by (auto simp: confirmedEmpty_def)
  then have "dview d0 (state_path [''data'']) \<noteq> None"
    by (cases "dview d0 (state_path [''data''])") (simp_all add: abs_state_def)
  from treeD [OF good_tree [OF store_invD(2) [OF i0]] this] have b: "dview ?d (base_of [''data'']) = Some Dir" by simp
  have m: "dview ?d (mount_path [''data'']) = None"
    using sample_history(3) arg_cong [OF a0, of a_mounted] by simp
  have p: "a_previous (store_abs sample_json [''data''] ?d) = Some ''a''"
    using sample_history(2) arg_cong [OF a0, of a_previous] by simp
  have c: "a_current (store_abs sample_json [''data''] ?d) = Some ''b''"
    using sample_history(1) arg_cong [OF a0, of a_current] by simp
  have k: "0 < length (sw_encode sample_json (rollback_state ''a'' (a_state (store_abs sample_json [''data''] ?d))))"
    by (simp add: sw_encode_def sample_json_def sample_print_def)
  have r: "d_room ?d = Some 0" by simp
  from sw_full_disk_rollback [OF i b r m p k] c show ?thesis by (metis (no_types, lifting))
qed

end
