(* ===== verification/CrashBridges.thy ===== *)
theory CrashBridges
  imports KotlinApp SwiftApp
begin

text \<open>
  How the apps install the crash layers: the JNI entry point and \<open>SalvePushCrashHandler.kt\<close> on Android,
  \<open>SalvePushCrashHandlerBridge.mm\<close> on iOS. Each platform adds, to the signal handlers of the C++ file, a hook
  for the exceptions of its own runtime, which rolls an unconfirmed release back in the same session. Handlers
  of other libraries are numbered; running a hook gives the numbers it called and the disk it left.
\<close>

section \<open>Android\<close>

text \<open>
  The JNI entry point: \<open>chars\<close> is \<open>GetStringUTFChars\<close>, the C string of a Java string. Its buffer is released
  after the call, which keeps no pointer into it.
\<close>

definition nativeInstall :: "('s \<Rightarrow> string) \<Rightarrow> env \<Rightarrow> 's \<Rightarrow> process \<Rightarrow> c_fault + process" where
  "nativeInstall chars e baseDirectory p =
     (let path = chars baseDirectory in salve_push_install_crash_handlers e path p)"

datatype uncaught = OurUncaught "uncaught option" | OtherUncaught nat

record kt_crash =
  k_didInstallNative :: bool
  k_process :: process
  k_uncaught :: "uncaught option"

datatype kt_fault = UnsatisfiedLinkError | NoBaseDirectory kexn | NativeFault c_fault

text \<open>\<open>found\<close> tells whether \<open>System.loadLibrary\<close> finds the library; otherwise it throws.\<close>

definition installNativeSignalHandlers ::
    "('s \<Rightarrow> string) \<Rightarrow> (path \<Rightarrow> 's) \<Rightarrow> env \<Rightarrow> bool \<Rightarrow> path \<Rightarrow> kt_crash \<Rightarrow> kt_fault + kt_crash" where
  "installNativeSignalHandlers chars absolutePath e found filesDir k =
     (if k_didInstallNative k then Inr k
      else if \<not> found then Inl UnsatisfiedLinkError
      else case kt_baseDirectory filesDir (p_disk (k_process k)) of
          (Inl x, _) \<Rightarrow> Inl (NoBaseDirectory x)
        | (Inr base, d) \<Rightarrow>
            (case nativeInstall chars e (absolutePath base) ((k_process k)\<lparr>p_disk := d\<rparr>) of
               Inl f \<Rightarrow> Inl (NativeFault f)
             | Inr p \<Rightarrow> Inr (k\<lparr>k_process := p, k_didInstallNative := True\<rparr>)))"

definition installUncaughtExceptionHandler :: "kt_crash \<Rightarrow> kt_crash" where
  "installUncaughtExceptionHandler k = (let previous = k_uncaught k in k\<lparr>k_uncaught := Some (OurUncaught previous)\<rparr>)"

definition kt_crash_install ::
    "('s \<Rightarrow> string) \<Rightarrow> (path \<Rightarrow> 's) \<Rightarrow> env \<Rightarrow> bool \<Rightarrow> path \<Rightarrow> kt_crash \<Rightarrow> kt_fault + kt_crash" where
  "kt_crash_install chars absolutePath e found filesDir k =
     map_sum id installUncaughtExceptionHandler (installNativeSignalHandlers chars absolutePath e found filesDir k)"

text \<open>A throw inside the handler ends it: the previous one is then not called.\<close>

fun run_uncaught :: "json_lib \<Rightarrow> path \<Rightarrow> uncaught \<Rightarrow> disk \<Rightarrow> nat list \<times> disk" where
  "run_uncaught J filesDir (OtherUncaught n) d = ([n], d)"
| "run_uncaught J filesDir (OurUncaught previous) d =
     (case kt_rollbackToPreviousIfUnconfirmed J filesDir d of
        (Inl _, d') \<Rightarrow> ([], d')
      | (Inr _, d') \<Rightarrow> (case previous of None \<Rightarrow> ([], d') | Some h \<Rightarrow> run_uncaught J filesDir h d'))"

section \<open>iOS\<close>

datatype ns_handler = SalvePushHandleUncaughtException | OtherNSHandler nat

datatype rct_log = SalvePushLog "rct_log option" | OtherLog nat

record sw_crash =
  m_process :: process
  m_uncaught :: "ns_handler option"
  m_log :: "rct_log option"

definition sw_installUncaughtExceptionHandler :: "sw_crash \<Rightarrow> sw_crash" where
  "sw_installUncaughtExceptionHandler m = m\<lparr>m_uncaught := Some SalvePushHandleUncaughtException\<rparr>"

definition sw_installFatalJSErrorHandler :: "sw_crash \<Rightarrow> sw_crash" where
  "sw_installFatalJSErrorHandler m = (let previous = m_log m in m\<lparr>m_log := Some (SalvePushLog previous)\<rparr>)"

definition installWithBaseDirectory :: "env \<Rightarrow> string \<Rightarrow> sw_crash \<Rightarrow> c_fault + sw_crash" where
  "installWithBaseDirectory e baseDirectory m =
     (case salve_push_install_crash_handlers e baseDirectory (m_process m) of
        Inl f \<Rightarrow> Inl f
      | Inr p \<Rightarrow> Inr (sw_installFatalJSErrorHandler (sw_installUncaughtExceptionHandler (m\<lparr>m_process := p\<rparr>))))"

definition salve_push_rollback_if_unconfirmed :: "json_lib \<Rightarrow> sw_dirs \<Rightarrow> disk \<Rightarrow> disk" where
  "salve_push_rollback_if_unconfirmed J e d = snd (sw_rollbackToPreviousIfUnconfirmed J e d)"

text \<open>The levels of \<open>RCTLog\<close> are numbers; \<open>fatal\<close> is \<open>RCTLogLevelFatal\<close>.\<close>

fun run_log :: "json_lib \<Rightarrow> sw_dirs \<Rightarrow> nat \<Rightarrow> nat \<Rightarrow> rct_log \<Rightarrow> disk \<Rightarrow> nat list \<times> disk" where
  "run_log J e fatal level (OtherLog n) d = ([n], d)"
| "run_log J e fatal level (SalvePushLog previous) d =
     (let d' = (if fatal \<le> level then salve_push_rollback_if_unconfirmed J e d else d)
      in case previous of None \<Rightarrow> ([], d') | Some f \<Rightarrow> run_log J e fatal level f d')"

fun run_ns_handler :: "json_lib \<Rightarrow> sw_dirs \<Rightarrow> ns_handler \<Rightarrow> disk \<Rightarrow> nat list \<times> disk" where
  "run_ns_handler J e (OtherNSHandler n) d = ([n], d)"
| "run_ns_handler J e SalvePushHandleUncaughtException d = ([], salve_push_rollback_if_unconfirmed J e d)"

section \<open>Rolling back twice\<close>

lemma a_rollback_unconfirmed_idem:
  "a_rollback_unconfirmed (a_rollback_unconfirmed a) = a_rollback_unconfirmed a"
  by (auto simp: a_rollback_unconfirmed_def a_rollback_def rollback_state_def split: option.splits)

lemma kt_rollback_runs:
  assumes "json_ok J" and "store_inv J r d"
  obtains d' where "kt_rollbackToPreviousIfUnconfirmed J r d = (Inr (), d')" "store_inv J r d'"
    "store_abs J r d' = a_rollback_unconfirmed (store_abs J r d)"
  using kt_rollback_unconfirmed [OF assms] by (auto simp: leads_def)

lemma sw_rollback_runs:
  assumes "json_ok J" and "store_inv J r d"
  shows "store_inv J r (salve_push_rollback_if_unconfirmed J (sw_production r) d)"
    "store_abs J r (salve_push_rollback_if_unconfirmed J (sw_production r) d) = a_rollback_unconfirmed (store_abs J r d)"
  using sw_rollback_unconfirmed [OF assms] by (auto simp: leads_def salve_push_rollback_if_unconfirmed_def)

text \<open>How many of our handlers a chain holds, and who is called behind them.\<close>

fun our_uncaught :: "uncaught \<Rightarrow> nat" where
  "our_uncaught (OtherUncaught n) = 0"
| "our_uncaught (OurUncaught previous) = Suc (case previous of None \<Rightarrow> 0 | Some h \<Rightarrow> our_uncaught h)"

fun last_uncaught :: "uncaught \<Rightarrow> nat list" where
  "last_uncaught (OtherUncaught n) = [n]"
| "last_uncaught (OurUncaught previous) = (case previous of None \<Rightarrow> [] | Some h \<Rightarrow> last_uncaught h)"

fun last_log :: "rct_log \<Rightarrow> nat list" where
  "last_log (OtherLog n) = [n]"
| "last_log (SalvePushLog previous) = (case previous of None \<Rightarrow> [] | Some f \<Rightarrow> last_log f)"

lemma run_uncaught_result:
  assumes "json_ok J" and "store_inv J r d"
  shows "fst (run_uncaught J r h d) = last_uncaught h \<and> store_inv J r (snd (run_uncaught J r h d))
    \<and> store_abs J r (snd (run_uncaught J r h d))
        = (if our_uncaught h = 0 then store_abs J r d else a_rollback_unconfirmed (store_abs J r d))"
  using assms(2)
proof (induction h arbitrary: d rule: our_uncaught.induct)
  case (2 previous)
  obtain d' where d': "kt_rollbackToPreviousIfUnconfirmed J r d = (Inr (), d')" "store_inv J r d'"
    "store_abs J r d' = a_rollback_unconfirmed (store_abs J r d)"
    using kt_rollback_runs [OF assms(1) "2.prems"] by blast
  show ?case
  proof (cases previous)
    case None
    then show ?thesis using d' by (simp del: view_abs_sel)
  next
    case (Some h)
    from "2.IH" [OF Some d'(2)] d' Some a_rollback_unconfirmed_idem show ?thesis by (simp del: view_abs_sel)
  qed
qed simp

fun our_log :: "rct_log \<Rightarrow> nat" where
  "our_log (OtherLog n) = 0"
| "our_log (SalvePushLog previous) = Suc (case previous of None \<Rightarrow> 0 | Some f \<Rightarrow> our_log f)"

lemma run_log_result:
  assumes "json_ok J" and "store_inv J r d"
  shows "fst (run_log J (sw_production r) fatal level f d) = last_log f
    \<and> store_inv J r (snd (run_log J (sw_production r) fatal level f d))
    \<and> store_abs J r (snd (run_log J (sw_production r) fatal level f d))
        = (if fatal \<le> level \<and> our_log f \<noteq> 0 then a_rollback_unconfirmed (store_abs J r d) else store_abs J r d)"
  using assms(2)
proof (induction f arbitrary: d rule: our_log.induct)
  case (2 previous)
  note rb = sw_rollback_runs [OF assms(1) "2.prems"]
  let ?d = "if fatal \<le> level then salve_push_rollback_if_unconfirmed J (sw_production r) d else d"
  have d: "store_inv J r ?d" "store_abs J r ?d
      = (if fatal \<le> level then a_rollback_unconfirmed (store_abs J r d) else store_abs J r d)"
    using rb "2.prems" by simp_all
  show ?case
  proof (cases previous)
    case None
    then show ?thesis using d by (simp add: Let_def del: view_abs_sel)
  next
    case (Some f)
    have e: "run_log J (sw_production r) fatal level (SalvePushLog previous) d = run_log J (sw_production r) fatal level f ?d"
      by (simp add: Some Let_def)
    from "2.IH" [OF Some d(1)] d(2) Some a_rollback_unconfirmed_idem show ?thesis
      unfolding e by (cases "fatal \<le> level") (simp_all del: view_abs_sel)
  qed
qed simp

section \<open>Properties\<close>

lemma kt_base_exists: "\<exists>d'. kt_baseDirectory r d = (Inr (file_child r ''salve-push''), d')"
  by (simp add: kt_baseDirectory_def Let_def ignored_def io_simps split: prod.split)

text \<open>A fresh process in which another library already watches for uncaught exceptions.\<close>

definition sample_crash :: kt_crash where
  "sample_crash = \<lparr>k_didInstallNative = False, k_process = fresh_process sample_disk, k_uncaught = Some (OtherUncaught 7)\<rparr>"

lemma sample_crash_base: "simple_path (file_child [''data''] ''salve-push'')"
  by (simp add: file_child_def comps_simple simple_name_def norm_def norm_step_def)

lemma sample_crash_installs:
  "\<exists>k1 k2. kt_crash_install id path_str (sample_env Android) True [''data''] sample_crash = Inr k1
     \<and> kt_crash_install id path_str (sample_env Android) True [''data''] k1 = Inr k2"
proof -
  obtain d where d: "kt_baseDirectory [''data''] sample_disk = (Inr (file_child [''data''] ''salve-push''), d)"
    using kt_base_exists by blast
  let ?p = "(fresh_process sample_disk)\<lparr>p_disk := d\<rparr>"
  have "statics_ok ?p" using fresh_process_ok(1) [of sample_disk] by (simp add: statics_ok_def)
  from install_result [OF this path_str_no_nul [OF sample_crash_base]] obtain p' where
    "salve_push_install_crash_handlers (sample_env Android) (path_str (file_child [''data''] ''salve-push'')) ?p = Inr p'"
    by blast
  with d show ?thesis
    by (simp add: kt_crash_install_def installNativeSignalHandlers_def nativeInstall_def sample_crash_def
        installUncaughtExceptionHandler_def Let_def)
qed

text \<open>C36. Android installs the signal handlers once: a second installation leaves them as they are, so a signal no
  one else handled still ends the process by that signal. (On iOS a second installation makes it hang.)\<close>

theorem kt_second_install_is_harmless:
  assumes "own_ok e" and "statics_ok (k_process k)" and "\<forall>p. chars (absolutePath p) = path_str p"
    and "simple_path (file_child r ''salve-push'')" and "\<not> k_didInstallNative k"
    and "kt_crash_install chars absolutePath e found r k = Inr k1"
    and "kt_crash_install chars absolutePath e found' r k1 = Inr k2"
    and "sint n \<in> set (handled_signals (plat e))" and "inert (plat e) (p_disp (k_process k) (sint n))"
  shows "k_process k2 = k_process k1
    \<and> (\<exists>q. deliver e n (k_process k2) = Some (Inr q) \<and> p_killed q = Some (sint n))"
proof -
  obtain d where d: "kt_baseDirectory r (p_disk (k_process k)) = (Inr (file_child r ''salve-push''), d)"
    using kt_base_exists by blast
  let ?p = "(k_process k)\<lparr>p_disk := d\<rparr>"
  have i: "salve_push_install_crash_handlers e (path_str (file_child r ''salve-push'')) ?p = Inr (k_process k1)"
    and did: "k_didInstallNative k1"
    using assms(3,5,6) d
    by (auto simp: kt_crash_install_def installNativeSignalHandlers_def nativeInstall_def
        installUncaughtExceptionHandler_def Let_def split: if_splits sum.splits)
  have same: "k_process k2 = k_process k1"
    using assms(7) did by (auto simp: kt_crash_install_def installNativeSignalHandlers_def
        installUncaughtExceptionHandler_def Let_def)
  have st: "statics_ok ?p" using assms(2) by (simp add: statics_ok_def)
  note f = install_facts [OF st path_str_no_nul [OF assms(4)] i]
  obtain q where w: "writeCrashMarker n (enter_handler (sint n) (k_process k1)) = Inr q"
    using writeCrashMarker_Inr by blast
  have ours: "p_disp (k_process k1) (sint n) = our_action e" using assms(8) by (simp add: f(1))
  have prev: "inert (plat e) (previous_of (k_process k1) n)" using assms(8,9) by (simp add: f(2))
  note dl = deliver_inert [OF assms(1) ours prev w]
  show ?thesis using dl leave_reraise same by auto
qed

theorem kt_second_install_is_harmless_witness:
  "\<exists>k1 k2 q. kt_crash_install id path_str (sample_env Android) True [''data''] sample_crash = Inr k1
     \<and> kt_crash_install id path_str (sample_env Android) True [''data''] k1 = Inr k2
     \<and> deliver (sample_env Android) 11 (k_process k2) = Some (Inr q) \<and> p_killed q = Some 11"
proof -
  obtain k1 k2 where k: "kt_crash_install id path_str (sample_env Android) True [''data''] sample_crash = Inr k1"
    "kt_crash_install id path_str (sample_env Android) True [''data''] k1 = Inr k2"
    using sample_crash_installs by blast
  have st: "statics_ok (k_process sample_crash)" "\<not> k_didInstallNative sample_crash" by (simp_all add: sample_crash_def)
  have c: "\<forall>p. id (path_str p) = path_str p" by simp
  have h: "sint (11 :: 32 word) \<in> set (handled_signals (plat (sample_env Android)))" by (simp add: handled_signals_def)
  have i: "inert (plat (sample_env Android)) (p_disp (k_process sample_crash) (sint (11 :: 32 word)))"
    by (simp add: sample_crash_def)
  from kt_second_install_is_harmless [OF sample_env_ok(1) st(1) c sample_crash_base st(2) k h i] k
  show ?thesis by auto
qed

text \<open>An uncaught Java exception after any of these installations rolls an unconfirmed release back exactly
  once and then reaches the handler that was there before, once.\<close>

theorem kt_uncaught_chain:
  assumes "json_ok J" and "store_inv J r d" and "k_uncaught k = map_option OtherUncaught other"
    and "kt_crash_install chars absolutePath e found r k = Inr k1"
    and "kt_crash_install chars absolutePath e found' r k1 = Inr k2"
  shows "\<exists>h. k_uncaught k2 = Some h
    \<and> fst (run_uncaught J r h d) = (case other of None \<Rightarrow> [] | Some m \<Rightarrow> [m])
    \<and> store_abs J r (snd (run_uncaught J r h d)) = a_rollback_unconfirmed (store_abs J r d)"
proof -
  have u: "k_uncaught k2 = Some (OurUncaught (Some (OurUncaught (map_option OtherUncaught other))))"
    using assms(3-5) by (auto simp: kt_crash_install_def installNativeSignalHandlers_def
        installUncaughtExceptionHandler_def Let_def split: if_splits sum.splits prod.splits)
  show ?thesis
    using run_uncaught_result [OF assms(1,2), of "OurUncaught (Some (OurUncaught (map_option OtherUncaught other)))"] u
    by (auto split: option.split simp del: view_abs_sel run_uncaught.simps)
qed

theorem kt_uncaught_chain_witness:
  "\<exists>h d. fst (run_uncaught sample_json [''data''] h d) = [7] \<and> a_current (store_abs sample_json [''data''] d) = Some ''b''
     \<and> a_current (store_abs sample_json [''data''] (snd (run_uncaught sample_json [''data''] h d))) = Some ''a''"
proof -
  obtain k1 k2 where k: "kt_crash_install id path_str (sample_env Android) True [''data''] sample_crash = Inr k1"
    "kt_crash_install id path_str (sample_env Android) True [''data''] k1 = Inr k2"
    using sample_crash_installs by blast
  have u: "k_uncaught sample_crash = map_option OtherUncaught (Some 7)" by (simp add: sample_crash_def)
  obtain d where i: "store_inv sample_json [''data''] d"
    and a: "store_abs sample_json [''data''] d = a_run sample_events a_empty"
    using kotlin.sample_run by blast
  obtain h where h: "fst (run_uncaught sample_json [''data''] h d) = [7]"
    "store_abs sample_json [''data''] (snd (run_uncaught sample_json [''data''] h d))
       = a_rollback_unconfirmed (a_run sample_events a_empty)"
    using kt_uncaught_chain [OF sample_json_ok i u k] unfolding a by auto
  have "a_current (a_rollback_unconfirmed (a_run sample_events a_empty)) = Some ''a''"
    using sample_history by (simp add: a_rollback_unconfirmed_def a_rollback_def rollback_state_def)
  with h a sample_history(1) show ?thesis by (metis)
qed

text \<open>On iOS a fatal log message rolls an unconfirmed release back and still reaches the log function that was
  there before, a lesser message only the latter; an uncaught Objective-C exception rolls back too, but the
  handler another library had installed for it is gone.\<close>

theorem ios_hooks:
  assumes "json_ok J" and "store_inv J r d" and "installWithBaseDirectory e base m = Inr m1"
    and "m_log m = map_option OtherLog other"
  shows "\<exists>f h. m_log m1 = Some f \<and> m_uncaught m1 = Some h
    \<and> fst (run_log J (sw_production r) fatal level f d) = (case other of None \<Rightarrow> [] | Some k \<Rightarrow> [k])
    \<and> store_abs J r (snd (run_log J (sw_production r) fatal level f d))
        = (if fatal \<le> level then a_rollback_unconfirmed (store_abs J r d) else store_abs J r d)
    \<and> fst (run_ns_handler J (sw_production r) h d) = []
    \<and> store_abs J r (snd (run_ns_handler J (sw_production r) h d)) = a_rollback_unconfirmed (store_abs J r d)"
proof -
  have m: "m_log m1 = Some (SalvePushLog (map_option OtherLog other))" "m_uncaught m1 = Some SalvePushHandleUncaughtException"
    using assms(3,4) by (auto simp: installWithBaseDirectory_def sw_installFatalJSErrorHandler_def
        sw_installUncaughtExceptionHandler_def Let_def split: sum.splits)
  show ?thesis
    using run_log_result [OF assms(1,2), of fatal level "SalvePushLog (map_option OtherLog other)"] m
      sw_rollback_runs(2) [OF assms(1,2)]
    by (auto split: option.split simp del: view_abs_sel run_log.simps)
qed

theorem ios_hooks_witness:
  "\<exists>m1 f d. installWithBaseDirectory (sample_env IOS) ''/data''
       \<lparr>m_process = fresh_process sample_disk, m_uncaught = Some (OtherNSHandler 3), m_log = Some (OtherLog 5)\<rparr> = Inr m1
     \<and> m_log m1 = Some f \<and> fst (run_log sample_json (sw_production [''data'']) 4 4 f d) = [5]
     \<and> a_current (store_abs sample_json [''data''] (snd (run_log sample_json (sw_production [''data'']) 4 4 f d))) = Some ''a''"
proof -
  let ?m = "\<lparr>m_process = fresh_process sample_disk, m_uncaught = Some (OtherNSHandler 3), m_log = Some (OtherLog 5)\<rparr>"
  have n: "CHR 0x00 \<notin> set ''/data''" by simp
  obtain p' where "salve_push_install_crash_handlers (sample_env IOS) ''/data'' (fresh_process sample_disk) = Inr p'"
    using install_result [OF fresh_process_ok(1) n] by blast
  then obtain m1 where m1: "installWithBaseDirectory (sample_env IOS) ''/data'' ?m = Inr m1"
    by (simp add: installWithBaseDirectory_def)
  have u: "m_log ?m = map_option OtherLog (Some 5)" by simp
  obtain d where i: "store_inv sample_json [''data''] d"
    and a: "store_abs sample_json [''data''] d = a_run sample_events a_empty"
    using kotlin.sample_run by blast
  have b: "a_current (a_rollback_unconfirmed (a_run sample_events a_empty)) = Some ''a''"
    using sample_history by (simp add: a_rollback_unconfirmed_def a_rollback_def rollback_state_def)
  obtain f where "m_log m1 = Some f" "fst (run_log sample_json (sw_production [''data'']) 4 4 f d) = [5]"
    "store_abs sample_json [''data''] (snd (run_log sample_json (sw_production [''data'']) 4 4 f d))
       = a_rollback_unconfirmed (a_run sample_events a_empty)"
    using ios_hooks [OF sample_json_ok i m1 u, of 4 4] unfolding a by auto
  with b m1 show ?thesis by metis
qed

end
