(* ===== verification/NitroBridge.thy ===== *)
theory NitroBridge
  imports KotlinApp SwiftApp
begin

text \<open>
  The way of a JavaScript call to the storage and of its outcome back: the generated C++ of both platforms,
  which turns a Java or Swift promise into a C++ one, and the hand-written \<open>HybridSalvePushNative\<close> behind
  it. The promises of NitroModules are not part of the repository: \<open>promise_lib\<close> (C++) and
  \<open>source_lib\<close> (Java, Swift) stand for them, with their documented behaviour as \<open>promise_ok\<close> and
  \<open>source_ok\<close>. Background tasks run whole, one at a time; on iOS in the order of the serial queue, on
  Android in any order.
\<close>

section \<open>The promises of NitroModules\<close>

datatype 'x outcome = Pending | Resolved | Rejected 'x

datatype 'x settlement = Done | Failed 'x

record ('p, 'x) promise_lib =
  p_create :: 'p
  p_resolve :: "'p \<Rightarrow> 'p"
  p_reject :: "'x \<Rightarrow> 'p \<Rightarrow> 'p"
  p_outcome :: "'p \<Rightarrow> 'x outcome"

definition promise_ok :: "('p, 'x) promise_lib \<Rightarrow> bool" where
  "promise_ok PL \<longleftrightarrow> p_outcome PL (p_create PL) = Pending
     \<and> (\<forall>p. p_outcome PL p = Pending \<longrightarrow> p_outcome PL (p_resolve PL p) = Resolved
          \<and> (\<forall>x. p_outcome PL (p_reject PL x p) = Rejected x))"

text \<open>The closures the adaptor registers; each captures the C++ promise it settles.\<close>

datatype callback = CallResolve nat | CallReject nat

text \<open>\<open>Result<T>\<close>: a value or an error, as Swift hands it to C++.\<close>

record ('v, 'x, 'r) result_lib =
  r_withValue :: "'v \<Rightarrow> 'r"
  r_withError :: "'x \<Rightarrow> 'r"
  r_hasError :: "'r \<Rightarrow> bool"
  r_error :: "'r \<Rightarrow> 'x"
  r_value :: "'r \<Rightarrow> 'v"

definition result_ok :: "('v, 'x, 'r) result_lib \<Rightarrow> bool" where
  "result_ok RL \<longleftrightarrow> (\<forall>v. \<not> r_hasError RL (r_withValue RL v) \<and> r_value RL (r_withValue RL v) = v)
     \<and> (\<forall>x. r_hasError RL (r_withError RL x) \<and> r_error RL (r_withError RL x) = x)"

record ('r, 'j, 'x) source_lib =
  j_new :: 'j
  j_onResolved :: "callback \<Rightarrow> 'j \<Rightarrow> (callback \<times> 'x settlement) list \<times> 'j"
  j_onRejected :: "callback \<Rightarrow> 'j \<Rightarrow> (callback \<times> 'x settlement) list \<times> 'j"
  j_settle :: "'x settlement \<Rightarrow> 'j \<Rightarrow> (callback \<times> 'x settlement) list \<times> 'j"
  j_result :: "'j \<Rightarrow> 'x settlement option"
  j_waiting :: "'j \<Rightarrow> callback list \<times> callback list"
  j_results :: "(nat, 'x, 'r) result_lib"

text \<open>
  A listener added to an unsettled promise waits; settling a promise calls the listeners that wait
  for that kind of outcome, each once, and is final.
\<close>

definition source_ok :: "('r, 'j, 'x) source_lib \<Rightarrow> bool" where
  "source_ok SL \<longleftrightarrow> result_ok (j_results SL) \<and> j_result SL (j_new SL) = None \<and> j_waiting SL (j_new SL) = ([], [])
     \<and> (\<forall>j cb. j_result SL j = None \<longrightarrow>
          fst (j_onResolved SL cb j) = [] \<and> j_result SL (snd (j_onResolved SL cb j)) = None
          \<and> j_waiting SL (snd (j_onResolved SL cb j)) = (fst (j_waiting SL j) @ [cb], snd (j_waiting SL j))
          \<and> fst (j_onRejected SL cb j) = [] \<and> j_result SL (snd (j_onRejected SL cb j)) = None
          \<and> j_waiting SL (snd (j_onRejected SL cb j)) = (fst (j_waiting SL j), snd (j_waiting SL j) @ [cb]))
     \<and> (\<forall>j r. j_result SL j = None \<longrightarrow> j_result SL (snd (j_settle SL r j)) = Some r
          \<and> fst (j_settle SL r j) =
              map (\<lambda>cb. (cb, r)) (case r of Done \<Rightarrow> fst (j_waiting SL j) | Failed _ \<Rightarrow> snd (j_waiting SL j)))"

section \<open>The world of the bridge\<close>

datatype task = InstallTask string string | ConfirmTask

record ('p, 'j) bridge =
  b_promises :: "'p list"
  b_sources :: "'j list"
  b_buffers :: "string list"
  b_tasks :: "(nat \<times> task) list"
  b_disk :: disk

text \<open>Running a closure: \<open>__promise->resolve()\<close>, \<open>__promise->reject(...)\<close>.\<close>

definition run_call :: "('p, 'x) promise_lib \<Rightarrow> callback \<times> 'x settlement \<Rightarrow> ('p, 'j) bridge \<Rightarrow> ('p, 'j) bridge" where
  "run_call PL c w =
     (case c of
        (CallResolve n, _) \<Rightarrow> w\<lparr>b_promises := (b_promises w)[n := p_resolve PL (b_promises w ! n)]\<rparr>
      | (CallReject n, Failed x) \<Rightarrow> w\<lparr>b_promises := (b_promises w)[n := p_reject PL x (b_promises w ! n)]\<rparr>
      | (CallReject n, Done) \<Rightarrow> w)"

text \<open>
  The adaptor: a new C++ promise, and a listener for each outcome of the source promise that settles it.
\<close>

definition adapt_promise ::
    "('p, 'x) promise_lib \<Rightarrow> ('r, 'j, 'x) source_lib \<Rightarrow> nat \<Rightarrow> ('p, 'j) bridge \<Rightarrow> nat \<times> ('p, 'j) bridge" where
  "adapt_promise PL SL source w =
     (let promise = length (b_promises w);
          w1 = w\<lparr>b_promises := b_promises w @ [p_create PL]\<rparr>;
          (calls, j) = j_onResolved SL (CallResolve promise) (b_sources w1 ! source);
          w2 = fold (run_call PL) calls (w1\<lparr>b_sources := (b_sources w1)[source := j]\<rparr>);
          (calls', j') = j_onRejected SL (CallReject promise) (b_sources w2 ! source);
          w3 = fold (run_call PL) calls' (w2\<lparr>b_sources := (b_sources w2)[source := j']\<rparr>)
      in (promise, w3))"

text \<open>\<open>Promise.parallel\<close> hands a block to the background and returns a new promise for its outcome.\<close>

definition parallel :: "('r, 'j, 'x) source_lib \<Rightarrow> task \<Rightarrow> ('p, 'j) bridge \<Rightarrow> nat \<times> ('p, 'j) bridge" where
  "parallel SL t w =
     (length (b_sources w),
      w\<lparr>b_sources := b_sources w @ [j_new SL], b_tasks := b_tasks w @ [(length (b_sources w), t)]\<rparr>)"

section \<open>Android\<close>

text \<open>\<open>HybridSalvePushNative.kt\<close>: the bytes are copied before the block is queued.\<close>

definition kt_hybrid_installUpdate :: "('r, 'j, 'x) source_lib \<Rightarrow> string \<Rightarrow> nat \<Rightarrow> ('p, 'j) bridge \<Rightarrow> nat \<times> ('p, 'j) bridge" where
  "kt_hybrid_installUpdate SL releaseId bundle w =
     (let bytes = b_buffers w ! bundle in parallel SL (InstallTask releaseId bytes) w)"

definition kt_hybrid_notifyAppReady :: "('r, 'j, 'x) source_lib \<Rightarrow> ('p, 'j) bridge \<Rightarrow> nat \<times> ('p, 'j) bridge" where
  "kt_hybrid_notifyAppReady SL w = parallel SL ConfirmTask w"

datatype throwable = StorageException kexn | NoApplicationContext

text \<open>A background block reads \<open>context\<close> first; without an application context it throws.\<close>

definition kt_run_block :: "json_lib \<Rightarrow> path option \<Rightarrow> task \<Rightarrow> disk \<Rightarrow> throwable settlement \<times> disk" where
  "kt_run_block J context t d =
     (case context of
        None \<Rightarrow> (Failed NoApplicationContext, d)
      | Some filesDir \<Rightarrow>
          (case (case t of InstallTask i c \<Rightarrow> kt_installUpdate J filesDir i c d | ConfirmTask \<Rightarrow> kt_confirmBoot J filesDir d) of
             (Inr _, d') \<Rightarrow> (Done, d') | (Inl e, d') \<Rightarrow> (Failed (StorageException e), d')))"

definition kt_hybrid_getCurrentReleaseId :: "json_lib \<Rightarrow> path option \<Rightarrow> (disk, throwable, string) action" where
  "kt_hybrid_getCurrentReleaseId J context d =
     (case context of
        None \<Rightarrow> (Inl NoApplicationContext, d)
      | Some filesDir \<Rightarrow> (case kt_getCurrentReleaseId J filesDir d of
            (Inr i, d') \<Rightarrow> (Inr i, d') | (Inl e, d') \<Rightarrow> (Inl (StorageException e), d')))"

text \<open>\<open>JHybridSalvePushNativeSpec\<close>: the C++ methods JavaScript calls.\<close>

definition jni_installUpdate where
  "jni_installUpdate PL SL releaseId bundle w =
     (case kt_hybrid_installUpdate SL releaseId bundle w of (result, w1) \<Rightarrow> adapt_promise PL SL result w1)"

definition jni_notifyAppReady where
  "jni_notifyAppReady PL SL w =
     (case kt_hybrid_notifyAppReady SL w of (result, w1) \<Rightarrow> adapt_promise PL SL result w1)"

text \<open>A Java exception leaves the call as a C++ one; the Java string is read into a C++ one.\<close>

definition jni_getCurrentReleaseId :: "json_lib \<Rightarrow> path option \<Rightarrow> (disk, throwable, string) action" where
  "jni_getCurrentReleaseId J context d = kt_hybrid_getCurrentReleaseId J context d"

section \<open>iOS\<close>

definition sw_hybrid_installUpdate ::
    "('r, 'j, 'x) source_lib \<Rightarrow> string \<Rightarrow> nat \<Rightarrow> ('p, 'j) bridge \<Rightarrow> ('x + nat) \<times> ('p, 'j) bridge" where
  "sw_hybrid_installUpdate SL releaseId bundle w =
     (let data = b_buffers w ! bundle in
      case parallel SL (InstallTask releaseId data) w of (p, w') \<Rightarrow> (Inr p, w'))"

definition sw_hybrid_notifyAppReady :: "('r, 'j, 'x) source_lib \<Rightarrow> ('p, 'j) bridge \<Rightarrow> ('x + nat) \<times> ('p, 'j) bridge" where
  "sw_hybrid_notifyAppReady SL w = (case parallel SL ConfirmTask w of (p, w') \<Rightarrow> (Inr p, w'))"

definition sw_run_block :: "json_lib \<Rightarrow> sw_dirs \<Rightarrow> task \<Rightarrow> disk \<Rightarrow> serror settlement \<times> disk" where
  "sw_run_block J e t d =
     (case (case t of InstallTask i c \<Rightarrow> sw_installUpdate J e i c d | ConfirmTask \<Rightarrow> sw_confirmBoot J e d) of
        (Inr _, d') \<Rightarrow> (Done, d') | (Inl x, d') \<Rightarrow> (Failed x, d'))"

text \<open>
  The Swift half of the bridge turns a thrown error into a \<open>Result\<close> with an error, a returned promise into a
  \<open>Result\<close> with the adapted one; the C++ half takes the \<open>Result\<close> apart and throws the error again.
\<close>

definition create_Result_std__shared_ptr_Promise_void__value :: "(nat, 'x, 'r) result_lib \<Rightarrow> nat \<Rightarrow> 'r" where
  "create_Result_std__shared_ptr_Promise_void__value RL value = r_withValue RL value"

definition create_Result_std__shared_ptr_Promise_void__error :: "(nat, 'x, 'r) result_lib \<Rightarrow> 'x \<Rightarrow> 'r" where
  "create_Result_std__shared_ptr_Promise_void__error RL error = r_withError RL error"

definition create_Result_std__string_value :: "(string, 'x, 'r) result_lib \<Rightarrow> string \<Rightarrow> 'r" where
  "create_Result_std__string_value RL value = r_withValue RL value"

definition create_Result_std__string_error :: "(string, 'x, 'r) result_lib \<Rightarrow> 'x \<Rightarrow> 'r" where
  "create_Result_std__string_error RL error = r_withError RL error"

text \<open>The C++ promise of a Swift call, and the holder through which Swift settles it.\<close>

datatype promise_holder = PromiseHolder (held_promise: nat)

definition create_std__shared_ptr_Promise_void ::
    "('p, 'x) promise_lib \<Rightarrow> ('p, 'j) bridge \<Rightarrow> nat \<times> ('p, 'j) bridge" where
  "create_std__shared_ptr_Promise_void PL w = (length (b_promises w), w\<lparr>b_promises := b_promises w @ [p_create PL]\<rparr>)"

definition wrap_std__shared_ptr_Promise_void :: "nat \<Rightarrow> promise_holder" where
  "wrap_std__shared_ptr_Promise_void promise = PromiseHolder promise"

definition sw_adapt_promise ::
    "('p, 'x) promise_lib \<Rightarrow> ('r, 'j, 'x) source_lib \<Rightarrow> nat \<Rightarrow> ('p, 'j) bridge \<Rightarrow> nat \<times> ('p, 'j) bridge" where
  "sw_adapt_promise PL SL source w =
     (let (promise, w1) = create_std__shared_ptr_Promise_void PL w;
          promiseHolder = wrap_std__shared_ptr_Promise_void promise;
          (calls, j) = j_onResolved SL (CallResolve (held_promise promiseHolder)) (b_sources w1 ! source);
          w2 = fold (run_call PL) calls (w1\<lparr>b_sources := (b_sources w1)[source := j]\<rparr>);
          (calls', j') = j_onRejected SL (CallReject (held_promise promiseHolder)) (b_sources w2 ! source);
          w3 = fold (run_call PL) calls' (w2\<lparr>b_sources := (b_sources w2)[source := j']\<rparr>)
      in (promise, w3))"

definition sw_cxx_method ::
    "('p, 'x) promise_lib \<Rightarrow> ('r, 'j, 'x) source_lib \<Rightarrow> ('x + nat) \<times> ('p, 'j) bridge \<Rightarrow> 'r \<times> ('p, 'j) bridge" where
  "sw_cxx_method PL SL called =
     (case called of
        (Inl e, w) \<Rightarrow> (create_Result_std__shared_ptr_Promise_void__error (j_results SL) e, w)
      | (Inr source, w) \<Rightarrow> (case sw_adapt_promise PL SL source w of (p, w') \<Rightarrow>
          (create_Result_std__shared_ptr_Promise_void__value (j_results SL) p, w')))"

definition sw_cxx_getCurrentReleaseId ::
    "(string, serror, 'r) result_lib \<Rightarrow> json_lib \<Rightarrow> sw_dirs \<Rightarrow> disk \<Rightarrow> 'r \<times> disk" where
  "sw_cxx_getCurrentReleaseId RL J e d =
     (case sw_getCurrentReleaseId J e d of
        (Inr v, d') \<Rightarrow> (create_Result_std__string_value RL v, d')
      | (Inl x, d') \<Rightarrow> (create_Result_std__string_error RL x, d'))"

text \<open>\<open>HybridSalvePushNativeSpecSwift\<close>: the C++ methods JavaScript calls; \<open>Inl\<close> is a rethrown exception.\<close>

definition swift_spec_installUpdate where
  "swift_spec_installUpdate PL SL releaseId bundle w =
     (case sw_cxx_method PL SL (sw_hybrid_installUpdate SL releaseId bundle w) of
        (result, w') \<Rightarrow>
          if r_hasError (j_results SL) result then (Inl (r_error (j_results SL) result), w')
          else (Inr (r_value (j_results SL) result), w'))"

definition swift_spec_notifyAppReady where
  "swift_spec_notifyAppReady PL SL w =
     (case sw_cxx_method PL SL (sw_hybrid_notifyAppReady SL w) of
        (result, w') \<Rightarrow>
          if r_hasError (j_results SL) result then (Inl (r_error (j_results SL) result), w')
          else (Inr (r_value (j_results SL) result), w'))"

definition swift_spec_getCurrentReleaseId ::
    "(string, serror, 'r) result_lib \<Rightarrow> json_lib \<Rightarrow> sw_dirs \<Rightarrow> (disk, serror, string) action" where
  "swift_spec_getCurrentReleaseId RL J e d =
     (case sw_cxx_getCurrentReleaseId RL J e d of
        (result, d') \<Rightarrow>
          if r_hasError RL result then (Inl (r_error RL result), d') else (Inr (r_value RL result), d'))"

section \<open>Runs\<close>

text \<open>The background finishes one queued block: its source promise settles and the listeners run.\<close>

definition finish_task ::
    "('p, 'x) promise_lib \<Rightarrow> ('r, 'j, 'x) source_lib \<Rightarrow> (task \<Rightarrow> disk \<Rightarrow> 'x settlement \<times> disk) \<Rightarrow> nat
       \<Rightarrow> ('p, 'j) bridge \<Rightarrow> ('p, 'j) bridge" where
  "finish_task PL SL block k w =
     (let (source, t) = b_tasks w ! k;
          (r, d') = block t (b_disk w);
          (calls, j) = j_settle SL r (b_sources w ! source)
      in fold (run_call PL) calls
           (w\<lparr>b_tasks := take k (b_tasks w) @ drop (Suc k) (b_tasks w), b_disk := d',
              b_sources := (b_sources w)[source := j]\<rparr>))"

text \<open>
  What can happen: JavaScript installs, confirms or writes into a buffer; the background finishes a
  block; the rest of the app changes the disk.
\<close>

inductive bridge_step :: "('p, 'x) promise_lib \<Rightarrow> ('r, 'j, 'x) source_lib \<Rightarrow> (task \<Rightarrow> disk \<Rightarrow> 'x settlement \<times> disk)
    \<Rightarrow> ('p, 'j) bridge \<Rightarrow> ('p, 'j) bridge \<Rightarrow> bool" for PL SL block where
  install: "jni_installUpdate PL SL i b w = (p, w') \<Longrightarrow> bridge_step PL SL block w w'"
| confirm: "jni_notifyAppReady PL SL w = (p, w') \<Longrightarrow> bridge_step PL SL block w w'"
| install_swift: "swift_spec_installUpdate PL SL i b w = (Inr p, w') \<Longrightarrow> bridge_step PL SL block w w'"
| confirm_swift: "swift_spec_notifyAppReady PL SL w = (Inr p, w') \<Longrightarrow> bridge_step PL SL block w w'"
| buffer: "bridge_step PL SL block w (w\<lparr>b_buffers := bs\<rparr>)"
| disk: "bridge_step PL SL block w (w\<lparr>b_disk := d\<rparr>)"
| finish: "k < length (b_tasks w) \<Longrightarrow> finish_task PL SL block k w = w' \<Longrightarrow> bridge_step PL SL block w w'"

inductive bridge_reach for PL SL block where
  start: "b_promises w = [] \<Longrightarrow> b_sources w = [] \<Longrightarrow> b_tasks w = [] \<Longrightarrow> bridge_reach PL SL block w"
| step: "bridge_reach PL SL block w \<Longrightarrow> bridge_step PL SL block w w' \<Longrightarrow> bridge_reach PL SL block w'"

definition of_settlement :: "'x settlement \<Rightarrow> 'x outcome" where
  "of_settlement r = (case r of Done \<Rightarrow> Resolved | Failed x \<Rightarrow> Rejected x)"

text \<open>
  The invariant: promise and source of the same number belong together; a queued block's promise is
  pending, its source unsettled with the two listeners waiting; every other promise has the outcome
  its source was settled with.
\<close>

definition bridge_inv :: "('p, 'x) promise_lib \<Rightarrow> ('r, 'j, 'x) source_lib \<Rightarrow> ('p, 'j) bridge \<Rightarrow> bool" where
  "bridge_inv PL SL w \<longleftrightarrow>
     length (b_sources w) = length (b_promises w) \<and> distinct (map fst (b_tasks w))
     \<and> (\<forall>n t. (n, t) \<in> set (b_tasks w) \<longrightarrow> n < length (b_promises w))
     \<and> (\<forall>n < length (b_promises w).
          if n \<in> fst ` set (b_tasks w)
          then p_outcome PL (b_promises w ! n) = Pending \<and> j_result SL (b_sources w ! n) = None
            \<and> j_waiting SL (b_sources w ! n) = ([CallResolve n], [CallReject n])
          else (\<exists>r. j_result SL (b_sources w ! n) = Some r \<and> p_outcome PL (b_promises w ! n) = of_settlement r))"

section \<open>The invariant\<close>

lemma source_okD:
  assumes "source_ok SL"
  shows "j_result SL (j_new SL) = None" "j_waiting SL (j_new SL) = ([], [])"
    "j_result SL j = None \<Longrightarrow> fst (j_onResolved SL cb j) = []"
    "j_result SL j = None \<Longrightarrow> j_result SL (snd (j_onResolved SL cb j)) = None"
    "j_result SL j = None \<Longrightarrow> j_waiting SL (snd (j_onResolved SL cb j)) = (fst (j_waiting SL j) @ [cb], snd (j_waiting SL j))"
    "j_result SL j = None \<Longrightarrow> fst (j_onRejected SL cb j) = []"
    "j_result SL j = None \<Longrightarrow> j_result SL (snd (j_onRejected SL cb j)) = None"
    "j_result SL j = None \<Longrightarrow> j_waiting SL (snd (j_onRejected SL cb j)) = (fst (j_waiting SL j), snd (j_waiting SL j) @ [cb])"
    "j_result SL j = None \<Longrightarrow> j_result SL (snd (j_settle SL r j)) = Some r"
    "j_result SL j = None \<Longrightarrow> fst (j_settle SL r j) =
       map (\<lambda>cb. (cb, r)) (case r of Done \<Rightarrow> fst (j_waiting SL j) | Failed _ \<Rightarrow> snd (j_waiting SL j))"
  using assms by (simp_all add: source_ok_def)

text \<open>Every call of the two methods, on either platform, has this effect.\<close>

definition queued :: "('p, 'x) promise_lib \<Rightarrow> ('r, 'j, 'x) source_lib \<Rightarrow> task \<Rightarrow> ('p, 'j) bridge \<Rightarrow> nat \<times> ('p, 'j) bridge" where
  "queued PL SL t w = (case parallel SL t w of (source, w1) \<Rightarrow> adapt_promise PL SL source w1)"

lemma result_okD:
  assumes "result_ok RL"
  shows "\<not> r_hasError RL (r_withValue RL v)" "r_value RL (r_withValue RL v) = v"
    "r_hasError RL (r_withError RL x)" "r_error RL (r_withError RL x) = x"
  using assms by (simp_all add: result_ok_def)

lemma source_ok_results: "source_ok SL \<Longrightarrow> result_ok (j_results SL)"
  by (simp add: source_ok_def)

text \<open>Both platforms adapt a promise alike.\<close>

lemma sw_adapt_promise_eq: "sw_adapt_promise PL SL source w = adapt_promise PL SL source w"
  by (simp add: sw_adapt_promise_def adapt_promise_def create_std__shared_ptr_Promise_void_def
      wrap_std__shared_ptr_Promise_void_def Let_def)

lemma calls_queue:
  "jni_installUpdate PL SL i b w = queued PL SL (InstallTask i (b_buffers w ! b)) w"
  "jni_notifyAppReady PL SL w = queued PL SL ConfirmTask w"
  "source_ok SL \<Longrightarrow> swift_spec_installUpdate PL SL i b w =
     (case queued PL SL (InstallTask i (b_buffers w ! b)) w of (p, w') \<Rightarrow> (Inr p, w'))"
  "source_ok SL \<Longrightarrow> swift_spec_notifyAppReady PL SL w = (case queued PL SL ConfirmTask w of (p, w') \<Rightarrow> (Inr p, w'))"
  by (simp_all add: jni_installUpdate_def jni_notifyAppReady_def swift_spec_installUpdate_def
      swift_spec_notifyAppReady_def kt_hybrid_installUpdate_def kt_hybrid_notifyAppReady_def
      sw_hybrid_installUpdate_def sw_hybrid_notifyAppReady_def sw_cxx_method_def sw_adapt_promise_eq queued_def
      create_Result_std__shared_ptr_Promise_void__value_def result_okD [OF source_ok_results]
      parallel_def Let_def split: prod.split)

lemma queued_result:
  assumes "source_ok SL" and "length (b_sources w) = length (b_promises w)"
  defines "n \<equiv> length (b_promises w)"
  shows "\<exists>j. queued PL SL t w = (n, w\<lparr>b_promises := b_promises w @ [p_create PL],
      b_sources := b_sources w @ [j], b_tasks := b_tasks w @ [(n, t)]\<rparr>)
    \<and> j_result SL j = None \<and> j_waiting SL j = ([CallResolve n], [CallReject n])"
proof -
  note new = source_okD(1,2) [OF assms(1)]
  note s1 = source_okD(3-5) [OF assms(1) new(1), of "CallResolve n"]
  obtain j1 where e1: "j_onResolved SL (CallResolve n) (j_new SL) = ([], j1)"
    using s1(1) by (metis prod.collapse)
  note r1 = s1(2) [unfolded e1 snd_conv] s1(3) [unfolded e1 snd_conv]
  note s2 = source_okD(6-8) [OF assms(1) r1(1), of "CallReject n"]
  obtain j2 where e2: "j_onRejected SL (CallReject n) j1 = ([], j2)"
    using s2(1) by (metis prod.collapse)
  have "queued PL SL t w = (n, w\<lparr>b_promises := b_promises w @ [p_create PL],
      b_sources := b_sources w @ [j2], b_tasks := b_tasks w @ [(n, t)]\<rparr>)"
    using assms(2) e1 e2
    by (simp add: queued_def parallel_def adapt_promise_def Let_def n_def nth_append list_update_append)
  with s2(2,3) r1 e2 new(2) show ?thesis by auto
qed

lemma bridge_invD:
  assumes "bridge_inv PL SL w"
  shows "length (b_sources w) = length (b_promises w)" "distinct (map fst (b_tasks w))"
    "(n, t) \<in> set (b_tasks w) \<Longrightarrow> n < length (b_promises w)"
    "(n, t) \<in> set (b_tasks w) \<Longrightarrow> p_outcome PL (b_promises w ! n) = Pending \<and> j_result SL (b_sources w ! n) = None
       \<and> j_waiting SL (b_sources w ! n) = ([CallResolve n], [CallReject n])"
    "n < length (b_promises w) \<Longrightarrow> n \<notin> fst ` set (b_tasks w) \<Longrightarrow>
       \<exists>r. j_result SL (b_sources w ! n) = Some r \<and> p_outcome PL (b_promises w ! n) = of_settlement r"
proof -
  show "length (b_sources w) = length (b_promises w)" "distinct (map fst (b_tasks w))"
    and lt: "(n, t) \<in> set (b_tasks w) \<Longrightarrow> n < length (b_promises w)"
    using assms unfolding bridge_inv_def by blast+
  show "(n, t) \<in> set (b_tasks w) \<Longrightarrow> p_outcome PL (b_promises w ! n) = Pending \<and> j_result SL (b_sources w ! n) = None
       \<and> j_waiting SL (b_sources w ! n) = ([CallResolve n], [CallReject n])"
    using assms lt unfolding bridge_inv_def by (metis fst_conv image_eqI)
  show "n < length (b_promises w) \<Longrightarrow> n \<notin> fst ` set (b_tasks w) \<Longrightarrow>
       \<exists>r. j_result SL (b_sources w ! n) = Some r \<and> p_outcome PL (b_promises w ! n) = of_settlement r"
    using assms unfolding bridge_inv_def by metis
qed

lemma queued_inv:
  assumes "promise_ok PL" and "source_ok SL" and i: "bridge_inv PL SL w" and "queued PL SL t w = (p, w')"
  shows "bridge_inv PL SL w'"
proof -
  note inv = bridge_invD [OF i]
  obtain j where q: "queued PL SL t w = (length (b_promises w), w\<lparr>b_promises := b_promises w @ [p_create PL],
      b_sources := b_sources w @ [j], b_tasks := b_tasks w @ [(length (b_promises w), t)]\<rparr>)"
    and j: "j_result SL j = None" "j_waiting SL j = ([CallResolve (length (b_promises w))], [CallReject (length (b_promises w))])"
    using queued_result [OF assms(2) inv(1)] by blast
  have fresh: "length (b_promises w) \<notin> fst ` set (b_tasks w)" using inv(3) by fastforce
  have w': "w' = w\<lparr>b_promises := b_promises w @ [p_create PL], b_sources := b_sources w @ [j],
      b_tasks := b_tasks w @ [(length (b_promises w), t)]\<rparr>" using q assms(4) by simp
  have new: "p_outcome PL (p_create PL) = Pending" using assms(1) by (simp add: promise_ok_def)
  have "if n \<in> fst ` set (b_tasks w')
      then p_outcome PL (b_promises w' ! n) = Pending \<and> j_result SL (b_sources w' ! n) = None
        \<and> j_waiting SL (b_sources w' ! n) = ([CallResolve n], [CallReject n])
      else (\<exists>r. j_result SL (b_sources w' ! n) = Some r \<and> p_outcome PL (b_promises w' ! n) = of_settlement r)"
    if n: "n < length (b_promises w')" for n
  proof (cases "n = length (b_promises w)")
    case True
    then show ?thesis using new j inv(1) by (simp add: w' nth_append)
  next
    case False
    with n have lt: "n < length (b_promises w)" by (simp add: w')
    show ?thesis
    proof (cases "n \<in> fst ` set (b_tasks w)")
      case True
      then obtain t' where "(n, t') \<in> set (b_tasks w)" by auto
      from inv(4) [OF this] True lt inv(1) show ?thesis by (simp add: w' nth_append)
    next
      case out: False
      from inv(5) [OF lt out] out False lt inv(1) show ?thesis by (simp add: w' nth_append)
    qed
  qed
  moreover have "length (b_sources w') = length (b_promises w')" "distinct (map fst (b_tasks w'))"
    "(n, t') \<in> set (b_tasks w') \<Longrightarrow> n < length (b_promises w')" for n t'
    using inv(1,2) fresh inv(3) by (auto simp: w' less_Suc_eq)
  ultimately show ?thesis unfolding bridge_inv_def by blast
qed

text \<open>Finishing a block settles the promise of its call, and no other.\<close>

lemma finish_result:
  assumes "promise_ok PL" and "source_ok SL" and i: "bridge_inv PL SL w" and k: "k < length (b_tasks w)"
    and t: "b_tasks w ! k = (n, t)" and b: "block t (b_disk w) = (r, d')"
  shows "\<exists>j. finish_task PL SL block k w = w\<lparr>b_tasks := take k (b_tasks w) @ drop (Suc k) (b_tasks w), b_disk := d',
      b_sources := (b_sources w)[n := j],
      b_promises := (b_promises w)[n := case r of Done \<Rightarrow> p_resolve PL (b_promises w ! n) | Failed x \<Rightarrow> p_reject PL x (b_promises w ! n)]\<rparr>
    \<and> j_result SL j = Some r"
proof -
  note inv = bridge_invD [OF i]
  have m: "(n, t) \<in> set (b_tasks w)" using k t by (metis nth_mem)
  note st = inv(4) [OF m]
  let ?j = "snd (j_settle SL r (b_sources w ! n))"
  have c: "j_settle SL r (b_sources w ! n)
      = (case r of Done \<Rightarrow> [(CallResolve n, r)] | Failed _ \<Rightarrow> [(CallReject n, r)], ?j)"
    using source_okD(10) [OF assms(2), of "b_sources w ! n" r] st by (cases r) (simp_all add: prod_eq_iff)
  have "finish_task PL SL block k w = w\<lparr>b_tasks := take k (b_tasks w) @ drop (Suc k) (b_tasks w), b_disk := d',
      b_sources := (b_sources w)[n := ?j],
      b_promises := (b_promises w)[n := case r of Done \<Rightarrow> p_resolve PL (b_promises w ! n) | Failed x \<Rightarrow> p_reject PL x (b_promises w ! n)]\<rparr>"
    by (subst finish_task_def, simp only: t b Let_def prod.case, subst c) (cases r; simp add: run_call_def)
  moreover have "j_result SL ?j = Some r" using source_okD(9) [OF assms(2)] st by blast
  ultimately show ?thesis by blast
qed

lemma removed_task:
  assumes "distinct (map fst ts)" and "k < length ts" and "ts ! k = (n, t)"
  shows "fst ` set (take k ts @ drop (Suc k) ts) = fst ` set ts - {n}"
    "distinct (map fst (take k ts @ drop (Suc k) ts))" "set (take k ts @ drop (Suc k) ts) \<subseteq> set ts"
proof -
  have e: "ts = take k ts @ (n, t) # drop (Suc k) ts" using assms(2,3) by (metis id_take_nth_drop)
  then have d: "distinct (map fst (take k ts @ (n, t) # drop (Suc k) ts))" using assms(1) by simp
  show "distinct (map fst (take k ts @ drop (Suc k) ts))" using d by simp
  have "fst ` set ts = fst ` set (take k ts @ (n, t) # drop (Suc k) ts)" using e by simp
  with d show "fst ` set (take k ts @ drop (Suc k) ts) = fst ` set ts - {n}" by auto
  show "set (take k ts @ drop (Suc k) ts) \<subseteq> set ts" by (simp add: set_take_subset set_drop_subset)
qed

lemma finish_inv:
  assumes "promise_ok PL" and "source_ok SL" and i: "bridge_inv PL SL w" and k: "k < length (b_tasks w)"
    and f: "finish_task PL SL block k w = w'"
  shows "bridge_inv PL SL w'"
proof -
  note inv = bridge_invD [OF i]
  obtain n t where t: "b_tasks w ! k = (n, t)" by (cases "b_tasks w ! k")
  obtain r d' where b: "block t (b_disk w) = (r, d')" by (cases "block t (b_disk w)")
  obtain j where fin: "finish_task PL SL block k w = w\<lparr>b_tasks := take k (b_tasks w) @ drop (Suc k) (b_tasks w), b_disk := d',
      b_sources := (b_sources w)[n := j],
      b_promises := (b_promises w)[n := case r of Done \<Rightarrow> p_resolve PL (b_promises w ! n) | Failed x \<Rightarrow> p_reject PL x (b_promises w ! n)]\<rparr>"
    and j: "j_result SL j = Some r"
    using finish_result [where block = block, OF assms(1-3) k t b] by blast
  have m: "(n, t) \<in> set (b_tasks w)" using k t by (metis nth_mem)
  have pend: "p_outcome PL (b_promises w ! n) = Pending" using inv(4) [OF m] by simp
  have out: "p_outcome PL (case r of Done \<Rightarrow> p_resolve PL (b_promises w ! n) | Failed x \<Rightarrow> p_reject PL x (b_promises w ! n))
      = of_settlement r"
    using assms(1) pend by (cases r) (simp_all add: promise_ok_def of_settlement_def)
  note rm = removed_task [OF inv(2) k t]
  note w' = fin [unfolded f]
  have "if m \<in> fst ` set (b_tasks w')
      then p_outcome PL (b_promises w' ! m) = Pending \<and> j_result SL (b_sources w' ! m) = None
        \<and> j_waiting SL (b_sources w' ! m) = ([CallResolve m], [CallReject m])
      else (\<exists>r. j_result SL (b_sources w' ! m) = Some r \<and> p_outcome PL (b_promises w' ! m) = of_settlement r)"
    if lt: "m < length (b_promises w')" for m
  proof (cases "m = n")
    case True
    then show ?thesis using rm(1) out j inv(1) lt by (simp add: w')
  next
    case False
    have lt': "m < length (b_promises w)" using lt by (simp add: w')
    show ?thesis
    proof (cases "m \<in> fst ` set (b_tasks w)")
      case True
      then obtain t' where "(m, t') \<in> set (b_tasks w)" by auto
      from inv(4) [OF this] True False rm(1) show ?thesis by (simp add: w')
    next
      case out': False
      from inv(5) [OF lt' out'] out' False rm(1) show ?thesis by (simp add: w')
    qed
  qed
  moreover have "length (b_sources w') = length (b_promises w')" "distinct (map fst (b_tasks w'))"
    "(m, t') \<in> set (b_tasks w') \<Longrightarrow> m < length (b_promises w')" for m t'
    using inv(1) rm(2,3) inv(3) by (auto simp: w')
  ultimately show ?thesis unfolding bridge_inv_def by blast
qed

lemma bridge_step_inv:
  assumes "promise_ok PL" and "source_ok SL" and "bridge_step PL SL block w w'" and "bridge_inv PL SL w"
  shows "bridge_inv PL SL w'"
  using assms(3)
proof (cases rule: bridge_step.cases)
  case (install i b p)
  then show ?thesis using queued_inv [OF assms(1,2,4)] by (simp add: calls_queue)
next
  case (confirm p)
  then show ?thesis using queued_inv [OF assms(1,2,4)] by (simp add: calls_queue)
next
  case (install_swift i b p)
  then show ?thesis using queued_inv [OF assms(1,2,4)] assms(2) by (auto simp: calls_queue split: prod.splits)
next
  case (confirm_swift p)
  then show ?thesis using queued_inv [OF assms(1,2,4)] assms(2) by (auto simp: calls_queue split: prod.splits)
next
  case (buffer bs)
  then show ?thesis using assms(4) by (simp add: bridge_inv_def)
next
  case (disk d)
  then show ?thesis using assms(4) by (simp add: bridge_inv_def)
next
  case (finish k)
  then show ?thesis using finish_inv [OF assms(1,2,4)] by blast
qed

lemma bridge_reach_inv:
  assumes "promise_ok PL" and "source_ok SL" and "bridge_reach PL SL block w"
  shows "bridge_inv PL SL w"
  using assms(3)
proof (induction rule: bridge_reach.induct)
  case (start w)
  then show ?case by (simp add: bridge_inv_def)
next
  case (step w w')
  from bridge_step_inv [OF assms(1,2) step.hyps(2) step.IH] show ?case .
qed

end
