(* ===== verification/NitroProps.thy ===== *)
theory NitroProps
  imports NitroBridge
begin

text \<open>
  What JavaScript can rely on when it calls the native module: the promise it gets settles with the outcome of
  its own background block and of no other, on the bytes the buffer held at the call, and the storage is then
  in the specified state. The sample libraries at the end of the first section have the documented
  behaviour of the NitroModules promises.
\<close>

section \<open>Histories of calls and blocks\<close>

lemma task_stays:
  assumes "promise_ok PL" and "source_ok SL" and "bridge_inv PL SL w" and "bridge_step PL SL block w w'"
    and "n < length (b_promises w)"
  shows "length (b_promises w) \<le> length (b_promises w')
    \<and> ((n, t) \<in> set (b_tasks w') \<longrightarrow> (n, t) \<in> set (b_tasks w))"
proof -
  have q: "length (b_promises w) \<le> length (b_promises w'')
      \<and> ((n, t) \<in> set (b_tasks w'') \<longrightarrow> (n, t) \<in> set (b_tasks w))"
    if "queued PL SL t' w = (p, w'')" for t' p w''
    using queued_result [where t = t' and PL = PL, OF assms(2) bridge_invD(1) [OF assms(3)]] that assms(5) by auto
  show ?thesis
    using assms(4)
  proof (cases rule: bridge_step.cases)
    case (install i b p)
    then show ?thesis using q by (simp add: calls_queue)
  next
    case (confirm p)
    then show ?thesis using q by (simp add: calls_queue)
  next
    case (install_swift i b p)
    then show ?thesis using q assms(2) by (auto simp: calls_queue split: prod.splits)
  next
    case (confirm_swift p)
    then show ?thesis using q assms(2) by (auto simp: calls_queue split: prod.splits)
  next
    case (finish k)
    obtain m t' where t: "b_tasks w ! k = (m, t')" by (cases "b_tasks w ! k")
    obtain r d' where b: "block t' (b_disk w) = (r, d')" by (cases "block t' (b_disk w)")
    from finish_result [where block = block, OF assms(1-3) finish(1) t b] finish(2)
      removed_task(3) [OF bridge_invD(2) [OF assms(3)] finish(1) t]
    show ?thesis by auto
  qed simp_all
qed

definition bridge_steps where
  "bridge_steps PL SL block = (bridge_step PL SL block)\<^sup>*\<^sup>*"

lemma steps_keep_task:
  assumes "bridge_steps PL SL block w1 w2" and "promise_ok PL" and "source_ok SL" and "bridge_inv PL SL w1"
    and "n < length (b_promises w1)" and "(n, t) \<in> set (b_tasks w2)"
  shows "(n, t) \<in> set (b_tasks w1) \<and> bridge_inv PL SL w2"
proof -
  have "length (b_promises w1) \<le> length (b_promises w2) \<and> bridge_inv PL SL w2
      \<and> ((n, t) \<in> set (b_tasks w2) \<longrightarrow> (n, t) \<in> set (b_tasks w1))"
    using assms(1) unfolding bridge_steps_def
  proof (induction rule: rtranclp_induct)
    case base
    show ?case using assms(4) by simp
  next
    case (step y z)
    from step.IH assms(5) have "n < length (b_promises y)" and i: "bridge_inv PL SL y" by simp_all
    from task_stays [OF assms(2,3) i step.hyps(2) this(1), of t] bridge_step_inv [OF assms(2,3) step.hyps(2) i] step.IH
    show ?case by auto
  qed
  with assms(6) show ?thesis by blast
qed

text \<open>The block of a call, whenever it finishes: its arguments, its promise, its effect.\<close>

lemma call_outcome:
  assumes "promise_ok PL" and "source_ok SL" and "bridge_reach PL SL block w"
    and "queued PL SL t w = (p, w1)" and "bridge_steps PL SL block w1 w2"
    and "k < length (b_tasks w2)" and "fst (b_tasks w2 ! k) = p"
  shows "b_tasks w2 ! k = (p, t) \<and> p_outcome PL (b_promises w2 ! p) = Pending
    \<and> p_outcome PL (b_promises (finish_task PL SL block k w2) ! p) = of_settlement (fst (block t (b_disk w2)))
    \<and> b_disk (finish_task PL SL block k w2) = snd (block t (b_disk w2))
    \<and> (\<forall>q. q \<noteq> p \<longrightarrow> b_promises (finish_task PL SL block k w2) ! q = b_promises w2 ! q)"
proof -
  note i = bridge_reach_inv [OF assms(1-3)]
  obtain j where p: "p = length (b_promises w)" and w1: "b_promises w1 = b_promises w @ [p_create PL]"
      "b_tasks w1 = b_tasks w @ [(p, t)]"
    using queued_result [where t = t and PL = PL, OF assms(2) bridge_invD(1) [OF i]] assms(4) by auto
  note i1 = queued_inv [OF assms(1,2) i assms(4)]
  obtain t' where t': "b_tasks w2 ! k = (p, t')" using assms(7) by (cases "b_tasks w2 ! k") auto
  then have m2: "(p, t') \<in> set (b_tasks w2)" using assms(6) by (metis nth_mem)
  from steps_keep_task [OF assms(5,1,2) i1 _ m2] p w1 have m1: "(p, t') \<in> set (b_tasks w1)"
    and i2: "bridge_inv PL SL w2" by auto
  have "t' = t"
  proof (rule ccontr)
    assume "t' \<noteq> t"
    with m1 w1(2) have "(p, t') \<in> set (b_tasks w)" by auto
    with bridge_invD(3) [OF i] p show False by fastforce
  qed
  with t' have t: "b_tasks w2 ! k = (p, t)" by simp
  then have m: "(p, t) \<in> set (b_tasks w2)" using assms(6) by (metis nth_mem)
  note inv2 = bridge_invD(3,4) [OF i2 m]
  obtain r d' where b: "block t (b_disk w2) = (r, d')" by (cases "block t (b_disk w2)")
  from finish_result [where block = block, OF assms(1,2) i2 assms(6) t b] inv2 assms(1) b t
  show ?thesis by (cases r) (auto simp: promise_ok_def of_settlement_def)
qed

section \<open>Sample promise libraries\<close>

definition sample_promises :: "('x outcome, 'x) promise_lib" where
  "sample_promises = \<lparr>p_create = Pending, p_resolve = (\<lambda>_. Resolved), p_reject = (\<lambda>x _. Rejected x),
     p_outcome = (\<lambda>p. p)\<rparr>"

definition sample_results :: "('v, 'x, 'x + 'v) result_lib" where
  "sample_results = \<lparr>r_withValue = Inr, r_withError = Inl, r_hasError = isl, r_error = projl, r_value = projr\<rparr>"

lemma sample_results_ok [simp]: "result_ok sample_results"
  by (simp add: result_ok_def sample_results_def)

definition sample_sources :: "('x + nat, 'x settlement option \<times> callback list \<times> callback list, 'x) source_lib" where
  "sample_sources =
     \<lparr>j_new = (None, [], []),
      j_onResolved = (\<lambda>cb (r, a, b). case r of None \<Rightarrow> ([], (r, a @ [cb], b))
         | Some Done \<Rightarrow> ([(cb, Done)], (r, a, b)) | Some (Failed x) \<Rightarrow> ([], (r, a, b))),
      j_onRejected = (\<lambda>cb (r, a, b). case r of None \<Rightarrow> ([], (r, a, b @ [cb]))
         | Some Done \<Rightarrow> ([], (r, a, b)) | Some (Failed x) \<Rightarrow> ([(cb, Failed x)], (r, a, b))),
      j_settle = (\<lambda>s (r, a, b). (map (\<lambda>cb. (cb, s)) (case s of Done \<Rightarrow> a | Failed _ \<Rightarrow> b), (Some s, [], []))),
      j_result = fst, j_waiting = snd, j_results = sample_results\<rparr>"

lemma sample_promises_ok [simp]: "promise_ok sample_promises"
  by (simp add: promise_ok_def sample_promises_def)

lemma sample_sources_ok [simp]: "source_ok sample_sources"
  by (auto simp: source_ok_def sample_sources_def split: prod.splits settlement.splits)

definition sample_world :: "disk \<Rightarrow> ('x outcome, 'x settlement option \<times> callback list \<times> callback list) bridge" where
  "sample_world d = \<lparr>b_promises = [], b_sources = [], b_buffers = [''bundle A''], b_tasks = [], b_disk = d\<rparr>"

section \<open>Calls from JavaScript\<close>

text \<open>C15. Android, end to end: the promise of an \<open>installUpdate\<close> call stays pending until the background
  finishes its block, whatever else is called, written into the buffer or finished in between; then it resolves,
  with the bytes the buffer held at the call installed as the specification says, or, without an
  application context, it is rejected and the disk untouched. No other promise is affected.\<close>

theorem jni_install_end_to_end:
  assumes "promise_ok PL" and "source_ok SL" and "json_ok J"
    and "bridge_reach PL SL (kt_run_block J context) w" and "jni_installUpdate PL SL i buf w = (p, w1)"
    and "bridge_steps PL SL (kt_run_block J context) w1 w2"
    and "k < length (b_tasks w2)" and "fst (b_tasks w2 ! k) = p"
    and "store_inv J r (b_disk w2)" and "simple_name i"
  defines "w3 \<equiv> finish_task PL SL (kt_run_block J context) k w2"
  shows "p_outcome PL (b_promises w2 ! p) = Pending \<and> (\<forall>q. q \<noteq> p \<longrightarrow> b_promises w3 ! q = b_promises w2 ! q)
    \<and> (context = Some r \<longrightarrow> p_outcome PL (b_promises w3 ! p) = Resolved
         \<and> store_abs J r (b_disk w3) = a_install i (b_buffers w ! buf) (store_abs J r (b_disk w2)))
    \<and> (context = None \<longrightarrow> p_outcome PL (b_promises w3 ! p) = Rejected NoApplicationContext \<and> b_disk w3 = b_disk w2)"
proof -
  note c = call_outcome [OF assms(1,2,4) assms(5) [unfolded calls_queue] assms(6-8), folded w3_def]
  show ?thesis
  proof (cases "context = Some r")
    case True
    obtain d' where "kt_installUpdate J r i (b_buffers w ! buf) (b_disk w2) = (Inr (), d')"
      "store_abs J r d' = a_install i (b_buffers w ! buf) (store_abs J r (b_disk w2))"
      using kt_install [OF assms(3,9,10), of _ "\<lambda>_. True"] by (auto simp: leads_def)
    with c True show ?thesis by (simp add: kt_run_block_def of_settlement_def del: view_abs_sel)
  next
    case False
    with c show ?thesis by (auto simp: kt_run_block_def of_settlement_def)
  qed
qed

lemma sample_call:
  fixes d :: disk
  obtains w1 where "queued (sample_promises :: ('x outcome, 'x) promise_lib) sample_sources t (sample_world d) = (0, w1)"
    and "b_tasks w1 = [(0, t)]" and "b_disk w1 = d"
  using queued_result [where PL = "sample_promises :: ('x outcome, 'x) promise_lib" and SL = sample_sources
      and w = "sample_world d" and t = t, OF sample_sources_ok] that
  by (auto simp: sample_world_def)

lemma sample_reach: "bridge_reach PL SL block (sample_world d)"
  by (rule bridge_reach.start) (simp_all add: sample_world_def)

theorem jni_install_end_to_end_witness:
  "\<exists>w3 :: (throwable outcome, throwable settlement option \<times> callback list \<times> callback list) bridge.
     b_promises w3 ! 0 = Resolved \<and> a_current (store_abs sample_json [''data''] (b_disk w3)) = Some ''a''"
proof -
  let ?PL = "sample_promises :: (throwable outcome, throwable) promise_lib"
  let ?blk = "kt_run_block sample_json (Some [''data''])"
  let ?w = "sample_world sample_disk :: (throwable outcome, throwable settlement option \<times> callback list \<times> callback list) bridge"
  obtain w1 where q: "queued ?PL sample_sources (InstallTask ''a'' (b_buffers ?w ! 0)) ?w = (0, w1)"
    and w1: "b_tasks w1 = [(0, InstallTask ''a'' (b_buffers ?w ! 0))]" "b_disk w1 = sample_disk"
    by (rule sample_call [of "InstallTask ''a'' (b_buffers ?w ! 0)" sample_disk])
  have c: "jni_installUpdate ?PL sample_sources ''a'' 0 ?w = (0, w1)" unfolding calls_queue by (rule q)
  have st: "bridge_steps ?PL sample_sources ?blk w1 w1" by (simp add: bridge_steps_def)
  have k: "0 < length (b_tasks w1)" "fst (b_tasks w1 ! 0) = 0" by (simp_all add: w1)
  have i: "store_inv sample_json [''data''] (b_disk w1)"
    using new_device_store(1) [OF sample_new_device] by (simp add: w1)
  have s: "simple_name ''a''" by (simp add: simple_name_def)
  from jni_install_end_to_end [OF sample_promises_ok sample_sources_ok sample_json_ok sample_reach c st k i s]
  show ?thesis by (auto simp: sample_promises_def a_install_def install_state_def simp del: view_abs_sel)
qed

text \<open>C34. iOS, end to end: \<open>installUpdate\<close> of the C++ class does not throw for a call of the storage module: it returns a
  promise that is pending, with its block queued behind the others. However the bridge goes on, the promise is
  pending as long as the block is queued; when the serial queue has come to the block and runs it, the promise resolves, with
  the bytes the buffer held at the call installed as the specification says. No other promise is affected.\<close>

theorem swift_install_end_to_end:
  assumes "promise_ok PL" and "source_ok SL" and "json_ok J"
    and "bridge_reach PL SL (sw_run_block J (sw_production r)) w"
    and "swift_spec_installUpdate PL SL i buf w = (res, w1)" and "simple_name i"
  shows "\<exists>p. res = Inr p \<and> p \<notin> fst ` set (b_tasks w) \<and> b_tasks w1 = b_tasks w @ [(p, InstallTask i (b_buffers w ! buf))]
    \<and> (\<forall>w2. bridge_steps PL SL (sw_run_block J (sw_production r)) w1 w2 \<longrightarrow> p \<in> fst ` set (b_tasks w2) \<longrightarrow>
        p_outcome PL (b_promises w2 ! p) = Pending
        \<and> (fst (hd (b_tasks w2)) = p \<longrightarrow> store_inv J r (b_disk w2) \<longrightarrow>
            (let w3 = finish_task PL SL (sw_run_block J (sw_production r)) 0 w2 in
               p_outcome PL (b_promises w3 ! p) = Resolved
               \<and> store_abs J r (b_disk w3) = a_install i (b_buffers w ! buf) (store_abs J r (b_disk w2))
               \<and> (\<forall>q. q \<noteq> p \<longrightarrow> b_promises w3 ! q = b_promises w2 ! q))))"
proof -
  let ?blk = "sw_run_block J (sw_production r)" and ?t = "InstallTask i (b_buffers w ! buf)"
  obtain p where p: "res = Inr p" "queued PL SL ?t w = (p, w1)"
    using assms(2,5) by (auto simp: calls_queue split: prod.splits)
  note inv = bridge_invD [OF bridge_reach_inv [OF assms(1,2,4)]]
  have new: "p \<notin> fst ` set (b_tasks w)" "b_tasks w1 = b_tasks w @ [(p, ?t)]"
    using queued_result [OF assms(2) inv(1), of PL ?t] p(2) inv(3) by fastforce+
  have pending: "p_outcome PL (b_promises w2 ! p) = Pending"
    if "bridge_steps PL SL ?blk w1 w2" and q: "p \<in> fst ` set (b_tasks w2)" for w2
  proof -
    from q obtain k where "k < length (b_tasks w2)" "fst (b_tasks w2 ! k) = p" by (auto simp: in_set_conv_nth)
    from call_outcome [OF assms(1,2,4) p(2) that(1) this] show ?thesis by simp
  qed
  have settled: "let w3 = finish_task PL SL ?blk 0 w2 in p_outcome PL (b_promises w3 ! p) = Resolved
      \<and> store_abs J r (b_disk w3) = a_install i (b_buffers w ! buf) (store_abs J r (b_disk w2))
      \<and> (\<forall>q. q \<noteq> p \<longrightarrow> b_promises w3 ! q = b_promises w2 ! q)"
    if "bridge_steps PL SL ?blk w1 w2" and q: "p \<in> fst ` set (b_tasks w2)" and h: "fst (hd (b_tasks w2)) = p"
      and st: "store_inv J r (b_disk w2)" for w2
  proof -
    have k: "0 < length (b_tasks w2)" "fst (b_tasks w2 ! 0) = p" using q h by (cases "b_tasks w2"; auto)+
    obtain d' where "sw_installUpdate J (sw_production r) i (b_buffers w ! buf) (b_disk w2) = (Inr (), d')"
      "store_abs J r d' = a_install i (b_buffers w ! buf) (store_abs J r (b_disk w2))"
      using sw_install [OF assms(3) st assms(6), of _ "\<lambda>_. True"] by (auto simp: leads_def)
    with call_outcome [OF assms(1,2,4) p(2) that(1) k] show ?thesis
      by (simp add: sw_run_block_def of_settlement_def Let_def del: view_abs_sel)
  qed
  from p(1) new pending settled show ?thesis by blast
qed

theorem swift_install_end_to_end_witness:
  "\<exists>w3 :: (serror outcome, serror settlement option \<times> callback list \<times> callback list) bridge.
     b_promises w3 ! 0 = Resolved \<and> a_current (store_abs sample_json [''data''] (b_disk w3)) = Some ''a''"
proof -
  let ?PL = "sample_promises :: (serror outcome, serror) promise_lib"
  let ?blk = "sw_run_block sample_json (sw_production [''data''])"
  let ?w = "sample_world sample_disk :: (serror outcome, serror settlement option \<times> callback list \<times> callback list) bridge"
  obtain w1 where q: "queued ?PL sample_sources (InstallTask ''a'' (b_buffers ?w ! 0)) ?w = (0, w1)"
    and w1: "b_tasks w1 = [(0, InstallTask ''a'' (b_buffers ?w ! 0))]" "b_disk w1 = sample_disk"
    by (rule sample_call [of "InstallTask ''a'' (b_buffers ?w ! 0)" sample_disk])
  have c: "swift_spec_installUpdate ?PL sample_sources ''a'' 0 ?w = (Inr 0, w1)"
    by (simp add: calls_queue q)
  have st: "bridge_steps ?PL sample_sources ?blk w1 w1" by (simp add: bridge_steps_def)
  have i: "store_inv sample_json [''data''] (b_disk w1)"
    using new_device_store(1) [OF sample_new_device] by (simp add: w1)
  have s: "simple_name ''a''" by (simp add: simple_name_def)
  let ?w3 = "finish_task ?PL sample_sources ?blk 0 w1"
  have hd: "0 \<in> fst ` set (b_tasks w1)" "fst (hd (b_tasks w1)) = 0" by (simp_all add: w1)
  from swift_install_end_to_end [OF sample_promises_ok sample_sources_ok sample_json_ok sample_reach c s] obtain p
    where "(Inr 0 :: serror + nat) = Inr p"
      and all: "\<forall>w2. bridge_steps ?PL sample_sources ?blk w1 w2 \<longrightarrow> p \<in> fst ` set (b_tasks w2) \<longrightarrow>
        p_outcome ?PL (b_promises w2 ! p) = Pending
        \<and> (fst (hd (b_tasks w2)) = p \<longrightarrow> store_inv sample_json [''data''] (b_disk w2) \<longrightarrow>
            (let w3 = finish_task ?PL sample_sources ?blk 0 w2 in p_outcome ?PL (b_promises w3 ! p) = Resolved
               \<and> store_abs sample_json [''data''] (b_disk w3)
                 = a_install ''a'' (b_buffers ?w ! 0) (store_abs sample_json [''data''] (b_disk w2))
               \<and> (\<forall>q. q \<noteq> p \<longrightarrow> b_promises w3 ! q = b_promises w2 ! q)))" by blast
  then have "p_outcome ?PL (b_promises ?w3 ! 0) = Resolved"
    "store_abs sample_json [''data''] (b_disk ?w3)
      = a_install ''a'' (b_buffers ?w ! 0) (store_abs sample_json [''data''] (b_disk w1))"
    using st hd i by (auto simp: Let_def simp del: view_abs_sel)
  then show ?thesis
    by (intro exI [of _ ?w3]) (simp add: sample_promises_def a_install_def install_state_def del: view_abs_sel)
qed

lemma unique_key:
  assumes "distinct (map fst ts)" and "k < length ts" and "k' < length ts" and "fst (ts ! k) = fst (ts ! k')"
  shows "k = k'"
  using assms nth_eq_iff_index_eq [of "map fst ts" k k'] by simp

text \<open>C16. In every reachable state of the bridge each promise handed to JavaScript either waits for exactly one
  queued block or has settled with the outcome its native promise got; it never settles early, twice or with
  another call's outcome.\<close>

theorem promises_settle_with_their_source:
  assumes "promise_ok PL" and "source_ok SL" and "bridge_reach PL SL block w" and "n < length (b_promises w)"
  shows "if n \<in> fst ` set (b_tasks w)
    then p_outcome PL (b_promises w ! n) = Pending \<and> (\<exists>!k. k < length (b_tasks w) \<and> fst (b_tasks w ! k) = n)
    else (\<exists>r. j_result SL (b_sources w ! n) = Some r \<and> p_outcome PL (b_promises w ! n) = of_settlement r)"
proof -
  note inv = bridge_invD [OF bridge_reach_inv [OF assms(1-3)]]
  show ?thesis
  proof (cases "n \<in> fst ` set (b_tasks w)")
    case True
    then obtain t where m: "(n, t) \<in> set (b_tasks w)" by auto
    then obtain k where "k < length (b_tasks w)" "fst (b_tasks w ! k) = n"
      by (metis fst_conv in_set_conv_nth)
    then have "\<exists>!k. k < length (b_tasks w) \<and> fst (b_tasks w ! k) = n"
      using unique_key [OF inv(2)] by blast
    with inv(4) [OF m] True show ?thesis by simp
  next
    case False
    with inv(5) [OF assms(4) False] show ?thesis by simp
  qed
qed

theorem promises_settle_with_their_source_witness:
  "\<exists>w :: (throwable outcome, throwable settlement option \<times> callback list \<times> callback list) bridge.
     length (b_promises w) = 1 \<and> p_outcome sample_promises (b_promises w ! 0) = Pending"
proof -
  let ?PL = "sample_promises :: (throwable outcome, throwable) promise_lib"
  let ?w = "sample_world sample_disk :: (throwable outcome, throwable settlement option \<times> callback list \<times> callback list) bridge"
  obtain j where q: "queued ?PL sample_sources ConfirmTask ?w = (0, ?w\<lparr>b_promises := [p_create ?PL],
      b_sources := [j], b_tasks := [(0, ConfirmTask)]\<rparr>)"
    using queued_result [OF sample_sources_ok, of ?w ?PL ConfirmTask] by (auto simp: sample_world_def)
  then have "jni_notifyAppReady ?PL sample_sources ?w = (0, ?w\<lparr>b_promises := [p_create ?PL],
      b_sources := [j], b_tasks := [(0, ConfirmTask)]\<rparr>)" by (simp only: calls_queue)
  from bridge_reach.step [OF sample_reach bridge_step.confirm [OF this], of "\<lambda>_ d. (Done, d)"]
  have r: "bridge_reach ?PL sample_sources (\<lambda>_ d. (Done, d)) (?w\<lparr>b_promises := [p_create ?PL],
      b_sources := [j], b_tasks := [(0, ConfirmTask)]\<rparr>)" .
  have "0 < length (b_promises (?w\<lparr>b_promises := [p_create ?PL], b_sources := [j], b_tasks := [(0, ConfirmTask)]\<rparr>))"
    by simp
  from promises_settle_with_their_source [OF sample_promises_ok sample_sources_ok r this] show ?thesis
    by (intro exI [of _ "?w\<lparr>b_promises := [p_create ?PL], b_sources := [j], b_tasks := [(0, ConfirmTask)]\<rparr>"]) simp
qed

end
