(* ===== verification/NitroObjects.thy ===== *)
theory NitroObjects
  imports Prelude "HOL-Library.Multiset"
begin

text \<open>
  The objects of the native module and who owns them. A C++ object lives as long as a \<open>shared_ptr\<close> to it, a
  Swift object as long as a strong reference, a Java object is kept by global references. The generated bridge
  converts between these: \<open>SalvePushNative-Swift-Cxx-Bridge\<close>, \<open>HybridSalvePushNativeSpecSwift\<close>,
  \<open>HybridSalvePushNativeSpec_cxx.swift\<close> on iOS, \<open>JHybridSalvePushNativeSpec\<close> on Android. Addresses are
  positions in the lists of the heap and are never reused.
\<close>

section \<open>The heap\<close>

text \<open>The dynamic class of a C++ hybrid object, with the member that refers to its other half.\<close>

datatype cpp_class = SwiftSpec nat | JavaSpec nat | OtherHybrid

record cpp_object =
  c_name :: string
  c_class :: cpp_class
  c_uses :: nat

text \<open>A \<open>HybridSalvePushNative\<close> of Swift, with the weak \<open>cxxWrapper\<close> of its base class.\<close>

record swift_impl =
  i_retains :: nat
  i_wrapper :: "nat option"

text \<open>A \<open>HybridSalvePushNativeSpec_cxx\<close>: strong \<open>__implementation\<close>, weak \<open>__cxxPart\<close>.\<close>

record swift_wrapper =
  s_impl :: nat
  s_retains :: nat
  s_cxxPart :: "nat option"

record java_object =
  j_class :: string
  j_globals :: nat

record heap =
  o_cpp :: "cpp_object list"
  o_impl :: "swift_impl list"
  o_wrap :: "swift_wrapper list"
  o_java :: "java_object list"

definition alive_cpp :: "nat \<Rightarrow> heap \<Rightarrow> bool" where
  "alive_cpp p h \<longleftrightarrow> p < length (o_cpp h) \<and> 0 < c_uses (o_cpp h ! p)"

definition alive_wrap :: "nat \<Rightarrow> heap \<Rightarrow> bool" where
  "alive_wrap s h \<longleftrightarrow> s < length (o_wrap h) \<and> 0 < s_retains (o_wrap h ! s)"

text \<open>Locking a weak reference: the object if it is still there.\<close>

definition lock :: "(nat \<Rightarrow> heap \<Rightarrow> bool) \<Rightarrow> nat option \<Rightarrow> heap \<Rightarrow> nat option" where
  "lock alive weak h = (case weak of Some a \<Rightarrow> if alive a h then Some a else None | None \<Rightarrow> None)"

section \<open>Reference counts\<close>

definition retain_impl :: "nat \<Rightarrow> heap \<Rightarrow> heap" where
  "retain_impl i h = h\<lparr>o_impl := (o_impl h)[i := (o_impl h ! i)\<lparr>i_retains := i_retains (o_impl h ! i) + 1\<rparr>]\<rparr>"

definition release_impl :: "nat \<Rightarrow> heap \<Rightarrow> heap" where
  "release_impl i h = h\<lparr>o_impl := (o_impl h)[i := (o_impl h ! i)\<lparr>i_retains := i_retains (o_impl h ! i) - 1\<rparr>]\<rparr>"

definition retain_wrap :: "nat \<Rightarrow> heap \<Rightarrow> heap" where
  "retain_wrap s h = h\<lparr>o_wrap := (o_wrap h)[s := (o_wrap h ! s)\<lparr>s_retains := s_retains (o_wrap h ! s) + 1\<rparr>]\<rparr>"

text \<open>The last reference to a wrapper takes its strong reference to the implementation with it.\<close>

definition release_wrap :: "nat \<Rightarrow> heap \<Rightarrow> heap" where
  "release_wrap s h =
     (let x = o_wrap h ! s; h' = h\<lparr>o_wrap := (o_wrap h)[s := x\<lparr>s_retains := s_retains x - 1\<rparr>]\<rparr>
      in if s_retains x = 1 then release_impl (s_impl x) h' else h')"

definition make_global :: "nat \<Rightarrow> heap \<Rightarrow> heap" where
  "make_global j h = h\<lparr>o_java := (o_java h)[j := (o_java h ! j)\<lparr>j_globals := j_globals (o_java h ! j) + 1\<rparr>]\<rparr>"

definition delete_global :: "nat \<Rightarrow> heap \<Rightarrow> heap" where
  "delete_global j h = h\<lparr>o_java := (o_java h)[j := (o_java h ! j)\<lparr>j_globals := j_globals (o_java h ! j) - 1\<rparr>]\<rparr>"

definition copy_shared :: "nat \<Rightarrow> heap \<Rightarrow> heap" where
  "copy_shared p h = h\<lparr>o_cpp := (o_cpp h)[p := (o_cpp h ! p)\<lparr>c_uses := c_uses (o_cpp h ! p) + 1\<rparr>]\<rparr>"

text \<open>
  The destructors: \<open>HybridSalvePushNativeSpecSwift\<close> releases its Swift part, \<open>~JHybridSalvePushNativeSpec\<close>
  resets its global reference.
\<close>

definition HybridSalvePushNativeSpecSwift_destroy :: "nat \<Rightarrow> heap \<Rightarrow> heap" where
  "HybridSalvePushNativeSpecSwift_destroy swiftPart h = release_wrap swiftPart h"

definition JHybridSalvePushNativeSpec_destroy :: "nat \<Rightarrow> heap \<Rightarrow> heap" where
  "JHybridSalvePushNativeSpec_destroy javaPart h = delete_global javaPart h"

definition drop_shared :: "nat \<Rightarrow> heap \<Rightarrow> heap" where
  "drop_shared p h =
     (let x = o_cpp h ! p; h' = h\<lparr>o_cpp := (o_cpp h)[p := x\<lparr>c_uses := c_uses x - 1\<rparr>]\<rparr>
      in if c_uses x = 1
         then (case c_class x of
                 SwiftSpec s \<Rightarrow> HybridSalvePushNativeSpecSwift_destroy s h'
               | JavaSpec j \<Rightarrow> JHybridSalvePushNativeSpec_destroy j h'
               | OtherHybrid \<Rightarrow> h')
         else h')"

section \<open>The bridge to Swift\<close>

definition HybridSalvePushNativeSpec_TAG :: string where
  "HybridSalvePushNativeSpec_TAG = ''SalvePushNative''"

text \<open>\<open>std::make_shared\<close> of a new object; it starts with one use.\<close>

definition make_shared :: "cpp_class \<Rightarrow> heap \<Rightarrow> nat \<times> heap" where
  "make_shared c h = (length (o_cpp h),
     h\<lparr>o_cpp := o_cpp h @ [\<lparr>c_name = HybridSalvePushNativeSpec_TAG, c_class = c, c_uses = 1\<rparr>]\<rparr>)"

text \<open>The constructor copies the reference to the Swift part into its member.\<close>

definition HybridSalvePushNativeSpecSwift_new :: "nat \<Rightarrow> heap \<Rightarrow> nat \<times> heap" where
  "HybridSalvePushNativeSpecSwift_new swiftPart h = make_shared (SwiftSpec swiftPart) (retain_wrap swiftPart h)"

definition getSwiftPart :: "nat \<Rightarrow> heap \<Rightarrow> nat option" where
  "getSwiftPart p h = (case c_class (o_cpp h ! p) of SwiftSpec s \<Rightarrow> Some s | JavaSpec _ \<Rightarrow> None | OtherHybrid \<Rightarrow> None)"

text \<open>\<open>passRetained(self).toOpaque()\<close> and \<open>takeRetainedValue()\<close>: the raw pointer owns one reference.\<close>

definition toUnsafe :: "nat \<Rightarrow> heap \<Rightarrow> nat \<times> heap" where
  "toUnsafe s h = (s, retain_wrap s h)"

definition fromUnsafe :: "nat \<Rightarrow> heap \<Rightarrow> nat \<times> heap" where
  "fromUnsafe pointer h = (pointer, h)"

definition create_std__shared_ptr_HybridSalvePushNativeSpec :: "nat \<Rightarrow> heap \<Rightarrow> nat \<times> heap" where
  "create_std__shared_ptr_HybridSalvePushNativeSpec swiftUnsafePointer h =
     (case fromUnsafe swiftUnsafePointer h of (swiftPart, h1) \<Rightarrow>
        (case HybridSalvePushNativeSpecSwift_new swiftPart h1 of (ptr, h2) \<Rightarrow>
           (ptr, release_wrap swiftPart h2)))"

datatype fault = NullDereference | RuntimeError string

text \<open>
  The way back. The argument is a copy of the caller's \<open>shared_ptr\<close>, \<open>swiftWrapper\<close> is another owner; both go
  when the call ends. Only a build with \<open>NITRO_DEBUG\<close> tests the cast.
\<close>

definition get_std__shared_ptr_HybridSalvePushNativeSpec :: "bool \<Rightarrow> nat option \<Rightarrow> heap \<Rightarrow> (fault + nat) \<times> heap" where
  "get_std__shared_ptr_HybridSalvePushNativeSpec nitro_debug cppType h =
     (case cppType of
        None \<Rightarrow> (Inl (if nitro_debug then RuntimeError ''Class \"HybridSalvePushNativeSpec\" is not implemented in Swift!''
                      else NullDereference), h)
      | Some p \<Rightarrow>
          (let h1 = copy_shared p h in
           case getSwiftPart p h1 of
             None \<Rightarrow> (if nitro_debug
                 then (Inl (RuntimeError ''Class \"HybridSalvePushNativeSpec\" is not implemented in Swift!''), drop_shared p h1)
                 else (Inl NullDereference, h1))
           | Some swiftPart \<Rightarrow>
               (let h2 = copy_shared p h1;
                    (pointer, h3) = toUnsafe swiftPart h2
                in (Inr pointer, drop_shared p (drop_shared p h3)))))"

text \<open>\<open>HybridSalvePushNativeSpec_cxx.getCxxPart\<close>: the C++ part that is still there, or a new one.\<close>

definition weakify_std__shared_ptr_HybridSalvePushNativeSpec :: "nat \<Rightarrow> nat option" where
  "weakify_std__shared_ptr_HybridSalvePushNativeSpec strong = Some strong"

definition getCxxPart :: "nat \<Rightarrow> heap \<Rightarrow> nat \<times> heap" where
  "getCxxPart s h =
     (case lock alive_cpp (s_cxxPart (o_wrap h ! s)) h of
        Some cached \<Rightarrow> (cached, copy_shared cached h)
      | None \<Rightarrow>
          (case toUnsafe s h of (pointer, h1) \<Rightarrow>
             (case create_std__shared_ptr_HybridSalvePushNativeSpec pointer h1 of (newCxxPart, h2) \<Rightarrow>
                (newCxxPart,
                 h2\<lparr>o_wrap := (o_wrap h2)[s := (o_wrap h2 ! s)
                      \<lparr>s_cxxPart := weakify_std__shared_ptr_HybridSalvePushNativeSpec newCxxPart\<rparr>]\<rparr>))))"

definition HybridSalvePushNative_init :: "heap \<Rightarrow> nat \<times> heap" where
  "HybridSalvePushNative_init h =
     (length (o_impl h), h\<lparr>o_impl := o_impl h @ [\<lparr>i_retains = 1, i_wrapper = None\<rparr>]\<rparr>)"

text \<open>\<open>HybridSalvePushNativeSpec_base.getCxxWrapper\<close>: the caller gets a strong reference.\<close>

definition getCxxWrapper :: "nat \<Rightarrow> heap \<Rightarrow> nat \<times> heap" where
  "getCxxWrapper i h =
     (case lock alive_wrap (i_wrapper (o_impl h ! i)) h of
        Some s \<Rightarrow> (s, retain_wrap s h)
      | None \<Rightarrow>
          (let s = length (o_wrap h);
               h1 = (retain_impl i h)\<lparr>o_wrap := o_wrap h @ [\<lparr>s_impl = i, s_retains = 1, s_cxxPart = None\<rparr>]\<rparr>
           in (s, h1\<lparr>o_impl := (o_impl h1)[i := (o_impl h1 ! i)\<lparr>i_wrapper := Some s\<rparr>]\<rparr>)))"

text \<open>\<open>createSalvePushNative\<close>: its two local references go when it returns.\<close>

definition createSalvePushNative :: "heap \<Rightarrow> nat \<times> heap" where
  "createSalvePushNative h =
     (case HybridSalvePushNative_init h of (hybridObject, h1) \<Rightarrow>
        (case getCxxWrapper hybridObject h1 of (cxxWrapped, h2) \<Rightarrow>
           (case getCxxPart cxxWrapped h2 of (part, h3) \<Rightarrow>
              (part, release_impl hybridObject (release_wrap cxxWrapped h3)))))"

text \<open>The remaining members delegate to the implementation; \<open>memory\<close> and \<open>dispose\<close> are those of its class.\<close>

definition HybridSalvePushNativeSpecSwift_getExternalMemorySize :: "(nat \<Rightarrow> nat) \<Rightarrow> nat \<Rightarrow> heap \<Rightarrow> nat option" where
  "HybridSalvePushNativeSpecSwift_getExternalMemorySize memory p h =
     map_option (\<lambda>s. memory (s_impl (o_wrap h ! s))) (getSwiftPart p h)"

definition HybridSalvePushNativeSpecSwift_equals :: "nat \<Rightarrow> nat option \<Rightarrow> heap \<Rightarrow> bool option" where
  "HybridSalvePushNativeSpecSwift_equals p other h =
     (case getSwiftPart p h of
        None \<Rightarrow> None
      | Some s \<Rightarrow>
          (case Option.bind other (\<lambda>q. getSwiftPart q h) of
             Some t \<Rightarrow> Some (s_impl (o_wrap h ! s) = s_impl (o_wrap h ! t))
           | None \<Rightarrow> Some False))"

definition HybridSalvePushNativeSpecSwift_dispose :: "(nat \<Rightarrow> heap \<Rightarrow> heap) \<Rightarrow> nat \<Rightarrow> heap \<Rightarrow> heap option" where
  "HybridSalvePushNativeSpecSwift_dispose dispose p h =
     map_option (\<lambda>s. dispose (s_impl (o_wrap h ! s)) h) (getSwiftPart p h)"

definition HybridSalvePushNativeSpecSwift_toString :: "nat \<Rightarrow> heap \<Rightarrow> string option" where
  "HybridSalvePushNativeSpecSwift_toString p h =
     map_option (\<lambda>_. ''[HybridObject SalvePushNative]'') (getSwiftPart p h)"

section \<open>The bridge to Java\<close>

definition JavaPart_descriptor :: string where
  "JavaPart_descriptor = ''Lcom/margelo/nitro/salvepush/HybridSalvePushNativeSpec;''"

definition JHybridSalvePushNativeSpecImpl_descriptor :: string where
  "JHybridSalvePushNativeSpecImpl_descriptor = ''Lcom/margelo/nitro/salvepush/HybridSalvePushNative;''"

text \<open>\<open>HybridSalvePushNative\<close> is the one subclass of \<open>HybridSalvePushNativeSpec\<close>.\<close>

definition instance_of_JavaPart :: "java_object \<Rightarrow> bool" where
  "instance_of_JavaPart x \<longleftrightarrow> j_class x \<in> {JavaPart_descriptor, JHybridSalvePushNativeSpecImpl_descriptor}"

definition JHybridSalvePushNativeSpec_new :: "nat \<Rightarrow> heap \<Rightarrow> nat \<times> heap" where
  "JHybridSalvePushNativeSpec_new javaPart h = make_shared (JavaSpec javaPart) (make_global javaPart h)"

definition getJavaPart :: "nat \<Rightarrow> heap \<Rightarrow> nat option" where
  "getJavaPart p h = (case c_class (o_cpp h ! p) of JavaSpec j \<Rightarrow> Some j | SwiftSpec _ \<Rightarrow> None | OtherHybrid \<Rightarrow> None)"

definition createHybridObject :: "nat \<Rightarrow> heap \<Rightarrow> (fault + nat) \<times> heap" where
  "createHybridObject javaPart h =
     (if instance_of_JavaPart (o_java h ! javaPart)
      then (case JHybridSalvePushNativeSpec_new javaPart h of (p, h') \<Rightarrow> (Inr p, h'))
      else (Inl (RuntimeError ''Failed to cast JHybridObject::JavaPart to JHybridSalvePushNativeSpec::JavaPart!''), h))"

text \<open>
  \<open>getJHybridObject\<close> of NitroModules is a parameter: it finds the C++ part of a Java object or makes one with
  the virtual \<open>createHybridObject\<close>. The generated code narrows the result.
\<close>

type_synonym hybrid_lib = "(nat \<Rightarrow> heap \<Rightarrow> (fault + nat) \<times> heap) \<Rightarrow> nat \<Rightarrow> heap \<Rightarrow> (fault + nat) \<times> heap"

definition getJHybridSalvePushNativeSpec :: "hybrid_lib \<Rightarrow> nat \<Rightarrow> heap \<Rightarrow> (fault + nat) \<times> heap" where
  "getJHybridSalvePushNativeSpec getJHybridObject javaPart h =
     (case getJHybridObject createHybridObject javaPart h of
        (Inl e, h1) \<Rightarrow> (Inl e, h1)
      | (Inr hybridObject, h1) \<Rightarrow>
          (case c_class (o_cpp h1 ! hybridObject) of
             JavaSpec _ \<Rightarrow> (Inr hybridObject, h1)
           | _ \<Rightarrow> (Inl (RuntimeError ''Failed to downcast JHybridObject to JHybridSalvePushNativeSpec!''),
                   drop_shared hybridObject h1)))"

text \<open>\<open>JHybridSalvePushNativeSpecImpl::create\<close>: a new Java object and its C++ part.\<close>

definition JHybridSalvePushNativeSpecImpl_create :: "hybrid_lib \<Rightarrow> heap \<Rightarrow> (fault + nat) \<times> heap" where
  "JHybridSalvePushNativeSpecImpl_create getJHybridObject h =
     (let javaPart = length (o_java h);
          h1 = h\<lparr>o_java := o_java h @ [\<lparr>j_class = JHybridSalvePushNativeSpecImpl_descriptor, j_globals = 0\<rparr>]\<rparr>
      in getJHybridSalvePushNativeSpec getJHybridObject javaPart h1)"

text \<open>
  Documented behaviour of \<open>getJHybridObject\<close>: the object made by \<open>create\<close>, or another owner of the live object
  made from this Java object before.
\<close>

definition hybrid_lib_ok :: "hybrid_lib \<Rightarrow> bool" where
  "hybrid_lib_ok G \<longleftrightarrow> (\<forall>create j h. G create j h = create j h
     \<or> (\<exists>p. alive_cpp p h \<and> c_class (o_cpp h ! p) = JavaSpec j \<and> G create j h = (Inr p, copy_shared p h)))"

section \<open>Closures of Swift\<close>

text \<open>
  \<open>Func_void.swift\<close> boxes a closure in an object; C++ keeps the box in a \<open>std::function\<close> (\<open>None\<close> is the
  empty one), and the wrapper class keeps that behind a \<open>unique_ptr\<close> (\<open>None\<close> after a move).
\<close>

record 'f closure =
  f_retains :: nat
  f_body :: 'f

type_synonym std_function = "nat option"

record func_wrapper =
  fw_function :: "std_function option"

record func_exception_wrapper =
  fe_function :: "std_function option"

datatype call_fault = NullFunction | BadFunctionCall

definition create_Func_void :: "nat \<Rightarrow> 'f closure list \<Rightarrow> std_function \<times> 'f closure list" where
  "create_Func_void swiftClosureWrapper cs = (let swiftClosure = swiftClosureWrapper in (Some swiftClosure, cs))"

definition create_Func_void_std__exception_ptr :: "nat \<Rightarrow> 'f closure list \<Rightarrow> std_function \<times> 'f closure list" where
  "create_Func_void_std__exception_ptr swiftClosureWrapper cs =
     (let swiftClosure = swiftClosureWrapper in (Some swiftClosure, cs))"

definition wrap_Func_void :: "std_function \<Rightarrow> func_wrapper" where
  "wrap_Func_void value = \<lparr>fw_function = Some value\<rparr>"

definition wrap_Func_void_std__exception_ptr :: "std_function \<Rightarrow> func_exception_wrapper" where
  "wrap_Func_void_std__exception_ptr value = \<lparr>fe_function = Some value\<rparr>"

definition move_wrapper :: "func_wrapper \<Rightarrow> func_wrapper \<times> func_wrapper" where
  "move_wrapper f = (f, f\<lparr>fw_function := None\<rparr>)"

definition Func_void_Wrapper_call :: "func_wrapper \<Rightarrow> ('w \<Rightarrow> 'w) closure list \<Rightarrow> 'w \<Rightarrow> call_fault + 'w" where
  "Func_void_Wrapper_call f cs w =
     (case fw_function f of
        None \<Rightarrow> Inl NullFunction
      | Some None \<Rightarrow> Inl BadFunctionCall
      | Some (Some c) \<Rightarrow> Inr (f_body (cs ! c) w))"

definition Func_void_std__exception_ptr_Wrapper_call ::
    "func_exception_wrapper \<Rightarrow> ('x \<Rightarrow> 'w \<Rightarrow> 'w) closure list \<Rightarrow> 'x \<Rightarrow> 'w \<Rightarrow> call_fault + 'w" where
  "Func_void_std__exception_ptr_Wrapper_call f cs error w =
     (case fe_function f of
        None \<Rightarrow> Inl NullFunction
      | Some None \<Rightarrow> Inl BadFunctionCall
      | Some (Some c) \<Rightarrow> Inr (f_body (cs ! c) error w))"

text \<open>Copies of a \<open>std::function\<close> own a reference to the box each; the last one frees it.\<close>

definition copy_function :: "std_function \<Rightarrow> 'f closure list \<Rightarrow> 'f closure list" where
  "copy_function f cs = (case f of None \<Rightarrow> cs | Some c \<Rightarrow> cs[c := (cs ! c)\<lparr>f_retains := f_retains (cs ! c) + 1\<rparr>])"

definition drop_function :: "std_function \<Rightarrow> 'f closure list \<Rightarrow> 'f closure list" where
  "drop_function f cs = (case f of None \<Rightarrow> cs | Some c \<Rightarrow> cs[c := (cs ! c)\<lparr>f_retains := f_retains (cs ! c) - 1\<rparr>])"

definition closure_toUnsafe :: "nat \<Rightarrow> 'f closure list \<Rightarrow> nat \<times> 'f closure list" where
  "closure_toUnsafe c cs = (c, cs[c := (cs ! c)\<lparr>f_retains := f_retains (cs ! c) + 1\<rparr>])"

end
