(* ===== verification/NitroOwnership.thy ===== *)
theory NitroOwnership
  imports NitroObjects
begin

text \<open>
  Every reference count of the bridge is exact. \<open>owners\<close> lists the references the program holds (C++
  \<open>shared_ptr\<close>s, raw retained pointers, strong Swift references, global Java references); \<open>balanced\<close> says
  that the counts of the heap are these plus the references other live objects hold. Each primitive operation
  moves references between the two, and the operations of the bridge are chains of the primitives.
\<close>

named_theorems own_intros \<open>how the primitive operations move references\<close>

section \<open>Counting the references inside the heap\<close>

definition owned :: "('a \<Rightarrow> bool) \<Rightarrow> 'a list \<Rightarrow> nat" where
  "owned f xs = length (filter f xs)"

lemma owned_simps [simp]:
  "owned f [] = 0" "owned f (xs @ [x]) = owned f xs + of_bool (f x)"
  by (simp_all add: owned_def)

lemma owned_update:
  "i < length xs \<Longrightarrow> owned f (xs[i := x]) + of_bool (f (xs ! i)) = owned f xs + of_bool (f x)"
proof (induction xs arbitrary: i)
  case (Cons a xs)
  from Cons.prems Cons.IH show ?case by (cases i) (fastforce simp: owned_def)+
qed simp

lemma owned_same: "f x = f (xs ! i) \<Longrightarrow> owned f (xs[i := x]) = owned f xs"
  using owned_update [of i xs f x] by (cases "i < length xs") (auto simp: list_update_beyond)

lemma owned_change:
  assumes "i < length xs" and "f (xs ! i)" and "\<not> f x"
  shows "owned f xs = Suc (owned f (xs[i := x]))"
  using owned_update [OF assms(1), of f x] assms(2,3) by simp

lemma owned_pos: "i < length xs \<Longrightarrow> f (xs ! i) \<Longrightarrow> 0 < owned f xs"
  by (auto simp: owned_def filter_empty_conv)

record owners =
  h_shared :: "nat multiset"
  h_wrap :: "nat multiset"
  h_raw :: "nat multiset"
  h_impl :: "nat multiset"
  h_global :: "nat multiset"

definition no_owners :: owners where
  "no_owners = \<lparr>h_shared = {#}, h_wrap = {#}, h_raw = {#}, h_impl = {#}, h_global = {#}\<rparr>"

definition live_part :: "cpp_class \<Rightarrow> cpp_object \<Rightarrow> bool" where
  "live_part c x \<longleftrightarrow> 0 < c_uses x \<and> c_class x = c"

definition live_wrap :: "nat \<Rightarrow> swift_wrapper \<Rightarrow> bool" where
  "live_wrap i x \<longleftrightarrow> 0 < s_retains x \<and> s_impl x = i"

text \<open>A count outside the heap is zero.\<close>

definition at :: "('a \<Rightarrow> nat) \<Rightarrow> 'a list \<Rightarrow> nat \<Rightarrow> nat" where
  "at f xs i = (if i < length xs then f (xs ! i) else 0)"

lemma at_simps [simp]:
  "at f (xs @ [x]) i = (if i = length xs then f x else at f xs i)"
  "i < length xs \<Longrightarrow> at f (xs[i := x]) j = (if j = i then f x else at f xs j)"
  by (auto simp: at_def nth_append)

lemma at_in: "i < length xs \<Longrightarrow> f (xs ! i) = at f xs i" by (simp add: at_def)

lemma at_length [simp]: "at f xs (length xs) = 0" by (simp add: at_def)

definition balanced :: "heap \<Rightarrow> owners \<Rightarrow> bool" where
  "balanced h g \<longleftrightarrow>
     (\<forall>p. at c_uses (o_cpp h) p = count (h_shared g) p)
     \<and> (\<forall>s. at s_retains (o_wrap h) s = count (h_wrap g) s + count (h_raw g) s + owned (live_part (SwiftSpec s)) (o_cpp h))
     \<and> (\<forall>i. at i_retains (o_impl h) i = count (h_impl g) i + owned (live_wrap i) (o_wrap h))
     \<and> (\<forall>j. at j_globals (o_java h) j = count (h_global g) j + owned (live_part (JavaSpec j)) (o_cpp h))"

text \<open>What the weak references and the members point to; the class of an object never changes.\<close>

definition linked :: "heap \<Rightarrow> bool" where
  "linked h \<longleftrightarrow>
     (\<forall>s < length (o_wrap h). s_impl (o_wrap h ! s) < length (o_impl h)
        \<and> (\<forall>p. s_cxxPart (o_wrap h ! s) = Some p \<longrightarrow> p < length (o_cpp h) \<and> c_class (o_cpp h ! p) = SwiftSpec s))
     \<and> (\<forall>i < length (o_impl h). \<forall>s. i_wrapper (o_impl h ! i) = Some s \<longrightarrow> s < length (o_wrap h) \<and> s_impl (o_wrap h ! s) = i)
     \<and> (\<forall>p < length (o_cpp h). \<forall>s. c_class (o_cpp h ! p) = SwiftSpec s \<longrightarrow> s < length (o_wrap h))
     \<and> (\<forall>p < length (o_cpp h). \<forall>j. c_class (o_cpp h ! p) = JavaSpec j \<longrightarrow> j < length (o_java h))"

definition well_owned :: "heap \<Rightarrow> owners \<Rightarrow> bool" where
  "well_owned h g \<longleftrightarrow> balanced h g \<and> linked h"

lemma balancedD:
  assumes "balanced h g"
  shows "at c_uses (o_cpp h) p = count (h_shared g) p"
    "at s_retains (o_wrap h) s = count (h_wrap g) s + count (h_raw g) s + owned (live_part (SwiftSpec s)) (o_cpp h)"
    "at i_retains (o_impl h) i = count (h_impl g) i + owned (live_wrap i) (o_wrap h)"
    "at j_globals (o_java h) j = count (h_global g) j + owned (live_part (JavaSpec j)) (o_cpp h)"
  using assms by (simp_all add: balanced_def)

lemma held:
  assumes "balanced h g"
  shows "p \<in># h_shared g \<Longrightarrow> alive_cpp p h"
    "s \<in># h_wrap g \<Longrightarrow> alive_wrap s h" "s \<in># h_raw g \<Longrightarrow> alive_wrap s h"
    "i \<in># h_impl g \<Longrightarrow> i < length (o_impl h) \<and> 0 < i_retains (o_impl h ! i)"
    "alive_cpp p h \<Longrightarrow> p \<in># h_shared g"
proof -
  show "p \<in># h_shared g \<Longrightarrow> alive_cpp p h" "alive_cpp p h \<Longrightarrow> p \<in># h_shared g"
    using balancedD(1) [OF assms, of p]
    by (auto simp: alive_cpp_def at_def not_in_iff simp flip: count_greater_zero_iff split: if_splits)
  show "s \<in># h_wrap g \<Longrightarrow> alive_wrap s h" "s \<in># h_raw g \<Longrightarrow> alive_wrap s h"
    using balancedD(2) [OF assms, of s]
    by (auto simp: alive_wrap_def at_def simp flip: count_greater_zero_iff split: if_splits)
  show "i \<in># h_impl g \<Longrightarrow> i < length (o_impl h) \<and> 0 < i_retains (o_impl h ! i)"
    using balancedD(3) [OF assms, of i] by (auto simp: at_def simp flip: count_greater_zero_iff split: if_splits)
qed

text \<open>A live C++ object keeps its Swift part, a live wrapper its implementation.\<close>

lemma kept:
  assumes "balanced h g" and "linked h"
  shows "alive_cpp p h \<Longrightarrow> c_class (o_cpp h ! p) = SwiftSpec s \<Longrightarrow> alive_wrap s h"
    "alive_wrap s h \<Longrightarrow> s_impl (o_wrap h ! s) < length (o_impl h) \<and> 0 < i_retains (o_impl h ! s_impl (o_wrap h ! s))"
    "alive_cpp p h \<Longrightarrow> c_class (o_cpp h ! p) = JavaSpec j \<Longrightarrow> j < length (o_java h) \<and> 0 < j_globals (o_java h ! j)"
proof -
  show "alive_wrap s h" if "alive_cpp p h" "c_class (o_cpp h ! p) = SwiftSpec s"
    using balancedD(2) [OF assms(1), of s] owned_pos [of p "o_cpp h" "live_part (SwiftSpec s)"] that
    by (auto simp: alive_cpp_def alive_wrap_def live_part_def at_def split: if_splits)
  show "s_impl (o_wrap h ! s) < length (o_impl h) \<and> 0 < i_retains (o_impl h ! s_impl (o_wrap h ! s))" if "alive_wrap s h"
    using balancedD(3) [OF assms(1), of "s_impl (o_wrap h ! s)"] owned_pos [of s "o_wrap h" "live_wrap (s_impl (o_wrap h ! s))"] that
    by (auto simp: alive_wrap_def live_wrap_def at_def split: if_splits)
  show "j < length (o_java h) \<and> 0 < j_globals (o_java h ! j)" if "alive_cpp p h" "c_class (o_cpp h ! p) = JavaSpec j"
    using balancedD(4) [OF assms(1), of j] owned_pos [of p "o_cpp h" "live_part (JavaSpec j)"] that
    by (auto simp: alive_cpp_def live_part_def at_def split: if_splits)
qed

section \<open>The primitives\<close>

text \<open>Linking only depends on the classes and the fields that refer to other objects.\<close>

definition same_links :: "heap \<Rightarrow> heap \<Rightarrow> bool" where
  "same_links h h' \<longleftrightarrow> map c_class (o_cpp h') = map c_class (o_cpp h)
     \<and> map s_impl (o_wrap h') = map s_impl (o_wrap h) \<and> map s_cxxPart (o_wrap h') = map s_cxxPart (o_wrap h)
     \<and> map i_wrapper (o_impl h') = map i_wrapper (o_impl h) \<and> map j_class (o_java h') = map j_class (o_java h)"

lemma same_linksD:
  assumes "same_links h h'"
  shows "length (o_cpp h') = length (o_cpp h)" "length (o_wrap h') = length (o_wrap h)"
    "length (o_impl h') = length (o_impl h)" "length (o_java h') = length (o_java h)"
    "p < length (o_cpp h) \<Longrightarrow> c_class (o_cpp h' ! p) = c_class (o_cpp h ! p)"
    "s < length (o_wrap h) \<Longrightarrow> s_impl (o_wrap h' ! s) = s_impl (o_wrap h ! s)"
    "s < length (o_wrap h) \<Longrightarrow> s_cxxPart (o_wrap h' ! s) = s_cxxPart (o_wrap h ! s)"
    "i < length (o_impl h) \<Longrightarrow> i_wrapper (o_impl h' ! i) = i_wrapper (o_impl h ! i)"
    "j < length (o_java h) \<Longrightarrow> j_class (o_java h' ! j) = j_class (o_java h ! j)"
  using assms unfolding same_links_def by (metis length_map nth_map)+

lemma same_links_trans: "same_links h h' \<Longrightarrow> same_links h' h'' \<Longrightarrow> same_links h h''"
  by (simp add: same_links_def)

lemma linkedD:
  assumes "linked h"
  shows "s < length (o_wrap h) \<Longrightarrow> s_impl (o_wrap h ! s) < length (o_impl h)"
    "s < length (o_wrap h) \<Longrightarrow> s_cxxPart (o_wrap h ! s) = Some p \<Longrightarrow> p < length (o_cpp h) \<and> c_class (o_cpp h ! p) = SwiftSpec s"
    "i < length (o_impl h) \<Longrightarrow> i_wrapper (o_impl h ! i) = Some s \<Longrightarrow> s < length (o_wrap h) \<and> s_impl (o_wrap h ! s) = i"
    "p < length (o_cpp h) \<Longrightarrow> c_class (o_cpp h ! p) = SwiftSpec s \<Longrightarrow> s < length (o_wrap h)"
    "p < length (o_cpp h) \<Longrightarrow> c_class (o_cpp h ! p) = JavaSpec j \<Longrightarrow> j < length (o_java h)"
  using assms unfolding linked_def by blast+

lemma linkedI:
  assumes "\<And>s. s < length (o_wrap h) \<Longrightarrow> s_impl (o_wrap h ! s) < length (o_impl h)"
    and "\<And>s p. s < length (o_wrap h) \<Longrightarrow> s_cxxPart (o_wrap h ! s) = Some p \<Longrightarrow> p < length (o_cpp h) \<and> c_class (o_cpp h ! p) = SwiftSpec s"
    and "\<And>i s. i < length (o_impl h) \<Longrightarrow> i_wrapper (o_impl h ! i) = Some s \<Longrightarrow> s < length (o_wrap h) \<and> s_impl (o_wrap h ! s) = i"
    and "\<And>p s. p < length (o_cpp h) \<Longrightarrow> c_class (o_cpp h ! p) = SwiftSpec s \<Longrightarrow> s < length (o_wrap h)"
    and "\<And>p j. p < length (o_cpp h) \<Longrightarrow> c_class (o_cpp h ! p) = JavaSpec j \<Longrightarrow> j < length (o_java h)"
  shows "linked h"
  using assms unfolding linked_def by blast

lemma same_links_linked:
  assumes "same_links h h'" and "linked h"
  shows "linked h'"
proof -
  note d = same_linksD [OF assms(1)] and l = linkedD [OF assms(2)]
  show ?thesis
  proof (rule linkedI)
    show "s_impl (o_wrap h' ! s) < length (o_impl h')" if "s < length (o_wrap h')" for s
      using that l(1) [of s] by (simp add: d)
    show "p < length (o_cpp h') \<and> c_class (o_cpp h' ! p) = SwiftSpec s"
      if "s < length (o_wrap h')" "s_cxxPart (o_wrap h' ! s) = Some p" for s p
      using that l(2) [of s p] by (simp add: d)
    show "s < length (o_wrap h') \<and> s_impl (o_wrap h' ! s) = i"
      if "i < length (o_impl h')" "i_wrapper (o_impl h' ! i) = Some s" for i s
      using that l(3) [of i s] by (simp add: d)
    show "s < length (o_wrap h')" if "p < length (o_cpp h')" "c_class (o_cpp h' ! p) = SwiftSpec s" for p s
      using that l(4) [of p s] by (simp add: d)
    show "j < length (o_java h')" if "p < length (o_cpp h')" "c_class (o_cpp h' ! p) = JavaSpec j" for p j
      using that l(5) [of p j] by (simp add: d)
  qed
qed

lemma map_update_same [simp]: "f x = f (xs ! i) \<Longrightarrow> map f (xs[i := x]) = map f xs"
  by (metis list_update_id map_update)

lemma same_links_counts [simp]:
  "same_links h (retain_wrap s h)" "same_links h (retain_impl i h)" "same_links h (release_impl i h)"
  "same_links h (make_global j h)" "same_links h (delete_global j h)" "same_links h (copy_shared p h)"
  by (simp_all add: same_links_def retain_wrap_def retain_impl_def release_impl_def make_global_def
      delete_global_def copy_shared_def)

lemma same_links_set [simp]:
  "same_links h (h\<lparr>o_wrap := (o_wrap h)[s := (o_wrap h ! s)\<lparr>s_retains := k\<rparr>]\<rparr>)"
  "same_links h (h\<lparr>o_cpp := (o_cpp h)[p := (o_cpp h ! p)\<lparr>c_uses := k\<rparr>]\<rparr>)"
  by (simp_all add: same_links_def)

lemma same_links_release_wrap [simp]: "same_links h (release_wrap s h)"
  by (simp add: release_wrap_def Let_def same_links_trans [OF same_links_set(1) same_links_counts(3)])

lemma same_links_drop_shared [simp]: "same_links h (drop_shared p h)"
  by (simp add: drop_shared_def Let_def HybridSalvePushNativeSpecSwift_destroy_def
      JHybridSalvePushNativeSpec_destroy_def same_links_trans [OF same_links_set(2) same_links_release_wrap]
      same_links_trans [OF same_links_set(2) same_links_counts(5)] split: cpp_class.split)

lemma balanced_retain_wrap:
  assumes "balanced h g" and "alive_wrap s h"
  shows "balanced (retain_wrap s h) (g\<lparr>h_wrap := add_mset s (h_wrap g)\<rparr>)"
    "balanced (retain_wrap s h) (g\<lparr>h_raw := add_mset s (h_raw g)\<rparr>)"
proof -
  have "owned (live_wrap i) (o_wrap (retain_wrap s h)) = owned (live_wrap i) (o_wrap h)" for i
    using assms(2) by (simp add: retain_wrap_def owned_same live_wrap_def alive_wrap_def)
  moreover have "at s_retains (o_wrap (retain_wrap s h)) t = at s_retains (o_wrap h) t + of_bool (t = s)" for t
    using assms(2) by (simp add: retain_wrap_def alive_wrap_def at_in)
  moreover have "o_cpp (retain_wrap s h) = o_cpp h" "o_impl (retain_wrap s h) = o_impl h" "o_java (retain_wrap s h) = o_java h"
    by (simp_all add: retain_wrap_def)
  ultimately show "balanced (retain_wrap s h) (g\<lparr>h_wrap := add_mset s (h_wrap g)\<rparr>)"
    "balanced (retain_wrap s h) (g\<lparr>h_raw := add_mset s (h_raw g)\<rparr>)"
    using assms(1) by (simp_all add: balanced_def)
qed

lemma balanced_retain_impl:
  assumes "balanced h g" and "i < length (o_impl h)"
  shows "balanced (retain_impl i h) (g\<lparr>h_impl := add_mset i (h_impl g)\<rparr>)"
  using assms by (simp add: balanced_def retain_impl_def at_in [of i "o_impl h" i_retains])

lemma balanced_release_impl:
  assumes "balanced h (g\<lparr>h_impl := add_mset i (h_impl g)\<rparr>)"
  shows "balanced (release_impl i h) g"
proof -
  have i: "i < length (o_impl h)" using held(4) [OF assms, of i] by simp
  with assms show ?thesis by (simp add: balanced_def release_impl_def at_in [of i "o_impl h" i_retains])
qed

lemma balanced_make_global:
  assumes "balanced h g" and "j < length (o_java h)"
  shows "balanced (make_global j h) (g\<lparr>h_global := add_mset j (h_global g)\<rparr>)"
  using assms by (simp add: balanced_def make_global_def at_in [of j "o_java h" j_globals])

lemma balanced_delete_global:
  assumes "balanced h (g\<lparr>h_global := add_mset j (h_global g)\<rparr>)"
  shows "balanced (delete_global j h) g"
proof -
  have "at j_globals (o_java h) j \<noteq> 0" using balancedD(4) [OF assms, of j] by simp
  then have j: "j < length (o_java h)" by (simp add: at_def split: if_splits)
  with assms show ?thesis by (simp add: balanced_def delete_global_def at_in [of j "o_java h" j_globals])
qed

lemma balanced_copy_shared:
  assumes "balanced h g" and "alive_cpp p h"
  shows "balanced (copy_shared p h) (g\<lparr>h_shared := add_mset p (h_shared g)\<rparr>)"
proof -
  have "owned (live_part c) (o_cpp (copy_shared p h)) = owned (live_part c) (o_cpp h)" for c
    using assms(2) by (simp add: copy_shared_def owned_same live_part_def alive_cpp_def)
  moreover have "at c_uses (o_cpp (copy_shared p h)) q = at c_uses (o_cpp h) q + of_bool (q = p)" for q
    using assms(2) by (simp add: copy_shared_def alive_cpp_def at_in)
  moreover have "o_wrap (copy_shared p h) = o_wrap h" "o_impl (copy_shared p h) = o_impl h" "o_java (copy_shared p h) = o_java h"
    by (simp_all add: copy_shared_def)
  ultimately show ?thesis using assms(1) by (simp add: balanced_def)
qed

text \<open>The last reference to an object hands the references it held to whoever releases it.\<close>

lemma owned_flip:
  assumes "i < length xs"
  shows "owned f xs + of_bool (f x) = owned f (xs[i := x]) + of_bool (f (xs ! i))"
  using owned_update [OF assms, of f x] by simp

lemma balanced_release_wrap:
  assumes "balanced h (g\<lparr>h_wrap := add_mset s (h_wrap g)\<rparr>)"
  shows "balanced (release_wrap s h) g"
proof -
  have s: "s < length (o_wrap h)" "0 < s_retains (o_wrap h ! s)"
    using held(2) [OF assms, of s] by (simp_all add: alive_wrap_def)
  let ?x = "(o_wrap h ! s)\<lparr>s_retains := s_retains (o_wrap h ! s) - 1\<rparr>"
  let ?h = "h\<lparr>o_wrap := (o_wrap h)[s := ?x]\<rparr>"
  have o: "owned (live_wrap i) (o_wrap h)
      = owned (live_wrap i) (o_wrap ?h) + of_bool (s_retains (o_wrap h ! s) = 1 \<and> s_impl (o_wrap h ! s) = i)" for i
    using owned_flip [OF s(1), of "live_wrap i" ?x] s(2) by (auto simp: live_wrap_def split: if_splits)
  have r: "at s_retains (o_wrap ?h) t = at s_retains (o_wrap h) t - of_bool (t = s)" for t
    using s by (simp add: at_in)
  have b: "balanced ?h (if s_retains (o_wrap h ! s) = 1
      then g\<lparr>h_impl := add_mset (s_impl (o_wrap h ! s)) (h_impl g)\<rparr> else g)"
    using assms o unfolding balanced_def r by (auto simp del: at_simps(2) list_update_id)
  show ?thesis
  proof (cases "s_retains (o_wrap h ! s) = 1")
    case True
    with b balanced_release_impl [where h = ?h and g = g and i = "s_impl (o_wrap h ! s)"] show ?thesis
      by (simp add: release_wrap_def Let_def)
  next
    case False
    with b show ?thesis by (simp add: release_wrap_def Let_def)
  qed
qed

lemma balanced_drop_shared:
  assumes "balanced h (g\<lparr>h_shared := add_mset p (h_shared g)\<rparr>)"
  shows "balanced (drop_shared p h) g"
proof -
  have p: "p < length (o_cpp h)" "0 < c_uses (o_cpp h ! p)"
    using held(1) [OF assms, of p] by (simp_all add: alive_cpp_def)
  let ?x = "(o_cpp h ! p)\<lparr>c_uses := c_uses (o_cpp h ! p) - 1\<rparr>"
  let ?h = "h\<lparr>o_cpp := (o_cpp h)[p := ?x]\<rparr>"
  let ?c = "c_class (o_cpp h ! p)"
  have o: "owned (live_part c) (o_cpp h) = owned (live_part c) (o_cpp ?h) + of_bool (c_uses (o_cpp h ! p) = 1 \<and> ?c = c)" for c
    using owned_flip [OF p(1), of "live_part c" ?x] p(2) by (auto simp: live_part_def split: if_splits)
  have r: "at c_uses (o_cpp ?h) q = at c_uses (o_cpp h) q - of_bool (q = p)" for q
    using p by (simp add: at_in)
  have b: "balanced ?h (if c_uses (o_cpp h ! p) = 1 then (case ?c of
      SwiftSpec s \<Rightarrow> g\<lparr>h_wrap := add_mset s (h_wrap g)\<rparr>
    | JavaSpec j \<Rightarrow> g\<lparr>h_global := add_mset j (h_global g)\<rparr> | OtherHybrid \<Rightarrow> g) else g)"
    using assms o unfolding balanced_def r by (auto simp del: at_simps(2) list_update_id split: cpp_class.split)
  show ?thesis
  proof (cases "c_uses (o_cpp h ! p) = 1")
    case True
    show ?thesis
    proof (cases ?c)
      case (SwiftSpec s)
      with b True balanced_release_wrap [where h = ?h and g = g and s = s] show ?thesis
        by (simp add: drop_shared_def Let_def HybridSalvePushNativeSpecSwift_destroy_def)
    next
      case (JavaSpec j)
      with b True balanced_delete_global [where h = ?h and g = g and j = j] show ?thesis
        by (simp add: drop_shared_def Let_def JHybridSalvePushNativeSpec_destroy_def)
    next
      case OtherHybrid
      with b True show ?thesis by (simp add: drop_shared_def Let_def)
    qed
  next
    case False
    with b show ?thesis by (simp add: drop_shared_def Let_def)
  qed
qed

lemma balanced_make_shared:
  assumes "balanced h (case c of SwiftSpec s \<Rightarrow> g\<lparr>h_wrap := add_mset s (h_wrap g)\<rparr>
      | JavaSpec j \<Rightarrow> g\<lparr>h_global := add_mset j (h_global g)\<rparr> | OtherHybrid \<Rightarrow> g)"
    and "make_shared c h = (p, h')"
  shows "balanced h' (g\<lparr>h_shared := add_mset p (h_shared g)\<rparr>) \<and> p = length (o_cpp h)"
proof -
  have "count (h_shared g) (length (o_cpp h)) = 0"
    using balancedD(1) [OF assms(1), of "length (o_cpp h)"] by (simp split: cpp_class.splits)
  with assms show ?thesis
    by (auto simp: make_shared_def balanced_def live_part_def split: cpp_class.splits)
qed

end
