(* ===== verification/NitroLifetime.thy ===== *)
theory NitroLifetime
  imports NitroOwnership
begin

text \<open>
  The operations of the bridge keep every count exact: each is a chain of the primitives. Then the runs of a
  program that uses the bridge, and what holds in all of them: no reference dangles, nothing leaks, a Swift
  object has one C++ part while that part lives.
\<close>

abbreviation add_shared :: "nat \<Rightarrow> owners \<Rightarrow> owners" where
  "add_shared p g \<equiv> g\<lparr>h_shared := add_mset p (h_shared g)\<rparr>"

abbreviation add_wrap :: "nat \<Rightarrow> owners \<Rightarrow> owners" where
  "add_wrap s g \<equiv> g\<lparr>h_wrap := add_mset s (h_wrap g)\<rparr>"

abbreviation add_raw :: "nat \<Rightarrow> owners \<Rightarrow> owners" where
  "add_raw s g \<equiv> g\<lparr>h_raw := add_mset s (h_raw g)\<rparr>"

abbreviation add_impl :: "nat \<Rightarrow> owners \<Rightarrow> owners" where
  "add_impl i g \<equiv> g\<lparr>h_impl := add_mset i (h_impl g)\<rparr>"

abbreviation add_global :: "nat \<Rightarrow> owners \<Rightarrow> owners" where
  "add_global j g \<equiv> g\<lparr>h_global := add_mset j (h_global g)\<rparr>"

section \<open>The primitives, with the links\<close>

lemma balanced_raw_wrap: "balanced h (add_raw s g) = balanced h (add_wrap s g)"
  by (simp add: balanced_def)

lemma well_owned_step:
  "well_owned h g \<Longrightarrow> same_links h h' \<Longrightarrow> (balanced h g \<Longrightarrow> balanced h' g') \<Longrightarrow> well_owned h' g'"
  using same_links_linked by (auto simp: well_owned_def)

lemma owned_primitives:
  "well_owned h g \<Longrightarrow> alive_wrap s h \<Longrightarrow> well_owned (retain_wrap s h) (add_wrap s g)"
  "well_owned h g \<Longrightarrow> alive_wrap s h \<Longrightarrow> well_owned (retain_wrap s h) (add_raw s g)"
  "well_owned h g \<Longrightarrow> i < length (o_impl h) \<Longrightarrow> well_owned (retain_impl i h) (add_impl i g)"
  "well_owned h g \<Longrightarrow> j < length (o_java h) \<Longrightarrow> well_owned (make_global j h) (add_global j g)"
  "well_owned h g \<Longrightarrow> alive_cpp p h \<Longrightarrow> well_owned (copy_shared p h) (add_shared p g)"
  "well_owned h (add_wrap s g) \<Longrightarrow> well_owned (release_wrap s h) g"
  "well_owned h (add_impl i g) \<Longrightarrow> well_owned (release_impl i h) g"
  "well_owned h (add_shared p g) \<Longrightarrow> well_owned (drop_shared p h) g"
proof -
  show "well_owned h g \<Longrightarrow> alive_wrap s h \<Longrightarrow> well_owned (retain_wrap s h) (add_wrap s g)"
    by (erule well_owned_step) (simp_all add: balanced_retain_wrap(1))
  show "well_owned h g \<Longrightarrow> alive_wrap s h \<Longrightarrow> well_owned (retain_wrap s h) (add_raw s g)"
    by (erule well_owned_step) (simp_all add: balanced_retain_wrap(2))
  show "well_owned h g \<Longrightarrow> i < length (o_impl h) \<Longrightarrow> well_owned (retain_impl i h) (add_impl i g)"
    by (erule well_owned_step) (simp_all add: balanced_retain_impl)
  show "well_owned h g \<Longrightarrow> j < length (o_java h) \<Longrightarrow> well_owned (make_global j h) (add_global j g)"
    by (erule well_owned_step) (simp_all add: balanced_make_global)
  show "well_owned h g \<Longrightarrow> alive_cpp p h \<Longrightarrow> well_owned (copy_shared p h) (add_shared p g)"
    by (erule well_owned_step) (simp_all add: balanced_copy_shared)
  show "well_owned h (add_wrap s g) \<Longrightarrow> well_owned (release_wrap s h) g"
    by (erule well_owned_step) (simp_all add: balanced_release_wrap)
  show "well_owned h (add_impl i g) \<Longrightarrow> well_owned (release_impl i h) g"
    by (erule well_owned_step) (simp_all add: balanced_release_impl)
  show "well_owned h (add_shared p g) \<Longrightarrow> well_owned (drop_shared p h) g"
    by (erule well_owned_step) (simp_all add: balanced_drop_shared)
qed

text \<open>The order in which references are counted does not matter.\<close>

lemma owners_comm:
  "add_wrap s (add_shared p g) = add_shared p (add_wrap s g)"
  "add_raw s (add_shared p g) = add_shared p (add_raw s g)"
  "add_impl i (add_wrap s g) = add_wrap s (add_impl i g)"
  "add_impl i (add_shared p g) = add_shared p (add_impl i g)"
  "add_global j (add_shared p g) = add_shared p (add_global j g)"
  by (cases g; simp)+

lemma owned_make_shared:
  assumes "make_shared c h = (p, h')"
    and "well_owned h (case c of SwiftSpec s \<Rightarrow> add_wrap s g | JavaSpec j \<Rightarrow> add_global j g | OtherHybrid \<Rightarrow> g)"
    and "c = SwiftSpec s \<Longrightarrow> s < length (o_wrap h)" and "c = JavaSpec j \<Longrightarrow> j < length (o_java h)"
    and "c = OtherHybrid \<or> c = SwiftSpec s \<or> c = JavaSpec j"
  shows "well_owned h' (add_shared p g) \<and> p = length (o_cpp h) \<and> c_class (o_cpp h' ! p) = c
    \<and> o_wrap h' = o_wrap h \<and> o_impl h' = o_impl h \<and> o_java h' = o_java h
    \<and> length (o_cpp h') = Suc (length (o_cpp h)) \<and> (\<forall>q < length (o_cpp h). o_cpp h' ! q = o_cpp h ! q)"
proof -
  have h': "h' = h\<lparr>o_cpp := o_cpp h @ [\<lparr>c_name = HybridSalvePushNativeSpec_TAG, c_class = c, c_uses = 1\<rparr>]\<rparr>"
    and p: "p = length (o_cpp h)" using assms(1) by (simp_all add: make_shared_def)
  have b: "balanced h' (add_shared p g)"
    using balanced_make_shared [OF _ assms(1)] assms(2) unfolding well_owned_def by blast
  note l = linkedD [of h]
  have k: "linked h" using assms(2) by (simp add: well_owned_def)
  have "linked h'"
  proof (rule linkedI)
    show "s_impl (o_wrap h' ! s) < length (o_impl h')" if "s < length (o_wrap h')" for s
      using that l(1) [OF k, of s] by (simp add: h')
    show "q < length (o_cpp h') \<and> c_class (o_cpp h' ! q) = SwiftSpec s"
      if "s < length (o_wrap h')" "s_cxxPart (o_wrap h' ! s) = Some q" for s q
      using that l(2) [OF k, of s q] by (simp add: h' nth_append)
    show "s < length (o_wrap h') \<and> s_impl (o_wrap h' ! s) = i"
      if "i < length (o_impl h')" "i_wrapper (o_impl h' ! i) = Some s" for i s
      using that l(3) [OF k, of i s] by (simp add: h')
    show "t < length (o_wrap h')" if "q < length (o_cpp h')" "c_class (o_cpp h' ! q) = SwiftSpec t" for q t
      using that l(4) [OF k, of q t] assms(3,5) by (auto simp: h' nth_append less_Suc_eq split: if_splits)
    show "t < length (o_java h')" if "q < length (o_cpp h')" "c_class (o_cpp h' ! q) = JavaSpec t" for q t
      using that l(5) [OF k, of q t] assms(4,5) by (auto simp: h' nth_append less_Suc_eq split: if_splits)
  qed
  with b p show ?thesis by (simp add: well_owned_def h' nth_append)
qed

section \<open>The operations of the bridge\<close>

lemma alive_retained: "alive_wrap s h \<Longrightarrow> alive_wrap s (retain_wrap s h)"
  by (simp add: alive_wrap_def retain_wrap_def)

lemma create_owned:
  assumes "well_owned h (add_raw s g)" and "create_std__shared_ptr_HybridSalvePushNativeSpec s h = (p, h')"
  shows "well_owned h' (add_shared p g)" and "p = length (o_cpp h)" and "c_class (o_cpp h' ! p) = SwiftSpec s"
    and "length (o_cpp h') = Suc (length (o_cpp h))"
    and "\<forall>q < length (o_cpp h). o_cpp h' ! q = o_cpp h ! q" and "same_links (h\<lparr>o_cpp := o_cpp h'\<rparr>) h'"
proof -
  have w: "well_owned h (add_wrap s g)" using assms(1) by (simp add: well_owned_def balanced_raw_wrap)
  have a: "alive_wrap s h" using w held(2) [of h "add_wrap s g" s] by (simp add: well_owned_def)
  let ?h1 = "retain_wrap s h"
  have "s < length (o_wrap ?h1)" using alive_retained [OF a] by (simp add: alive_wrap_def)
  obtain h2 where m: "make_shared (SwiftSpec s) ?h1 = (p, h2)" and h': "h' = release_wrap s h2"
    using assms(2) by (auto simp: create_std__shared_ptr_HybridSalvePushNativeSpec_def fromUnsafe_def
        HybridSalvePushNativeSpecSwift_new_def split: prod.splits)
  from owned_make_shared [where s = s and j = 0 and g = "add_wrap s g", OF m]
    owned_primitives(1) [OF w a] \<open>s < length (o_wrap ?h1)\<close>
  have r: "well_owned h2 (add_shared p (add_wrap s g))" "p = length (o_cpp ?h1)" "c_class (o_cpp h2 ! p) = SwiftSpec s"
    "o_wrap h2 = o_wrap ?h1" "o_impl h2 = o_impl ?h1" "o_java h2 = o_java ?h1"
    "length (o_cpp h2) = Suc (length (o_cpp ?h1))" "\<forall>q < length (o_cpp ?h1). o_cpp h2 ! q = o_cpp ?h1 ! q" by auto
  have "well_owned h2 (add_wrap s (add_shared p g))" using r(1) unfolding owners_comm .
  from owned_primitives(6) [OF this] show "well_owned h' (add_shared p g)" by (simp add: h')
  have c: "o_cpp h' = o_cpp h2" by (simp add: h' release_wrap_def Let_def release_impl_def)
  with r show "p = length (o_cpp h)" "c_class (o_cpp h' ! p) = SwiftSpec s" "length (o_cpp h') = Suc (length (o_cpp h))"
    "\<forall>q < length (o_cpp h). o_cpp h' ! q = o_cpp h ! q" by (simp_all add: retain_wrap_def)
  have "same_links (h\<lparr>o_cpp := o_cpp h'\<rparr>) h2" using r(4-6) by (simp add: same_links_def c retain_wrap_def)
  then show "same_links (h\<lparr>o_cpp := o_cpp h'\<rparr>) h'"
    using same_links_trans same_links_release_wrap h' by blast
qed

lemma getSwiftPart_copy [simp]: "getSwiftPart p (copy_shared q h) = getSwiftPart p h"
proof -
  let ?x = "(o_cpp h ! q)\<lparr>c_uses := c_uses (o_cpp h ! q) + 1\<rparr>"
  have "(o_cpp h)[q := ?x] ! p = (if q = p \<and> q < length (o_cpp h) then ?x else o_cpp h ! p)"
    by (cases "q < length (o_cpp h)") (auto simp: nth_list_update list_update_beyond)
  then show ?thesis by (simp add: getSwiftPart_def copy_shared_def)
qed

lemma alive_copied: "alive_cpp p h \<Longrightarrow> alive_cpp p (copy_shared p h)"
  by (simp add: alive_cpp_def copy_shared_def)

lemma swift_part_alive:
  assumes "well_owned h g" and "alive_cpp p h" and "getSwiftPart p h = Some s"
  shows "alive_wrap s h" and "c_class (o_cpp h ! p) = SwiftSpec s"
proof -
  show c: "c_class (o_cpp h ! p) = SwiftSpec s"
    using assms(3) by (auto simp: getSwiftPart_def split: cpp_class.splits)
  show "alive_wrap s h" using kept(1) assms(1,2) c unfolding well_owned_def by blast
qed

lemma get_owned:
  assumes "well_owned h g" and "p \<in># h_shared g"
    and "get_std__shared_ptr_HybridSalvePushNativeSpec nitro_debug (Some p) h = (r, h')"
  shows "r = Inr s \<Longrightarrow> getSwiftPart p h = Some s \<and> well_owned h' (add_raw s g) \<and> same_links h h'"
    and "r = Inl (RuntimeError m) \<Longrightarrow> getSwiftPart p h = None \<and> nitro_debug \<and> well_owned h' g \<and> same_links h h'"
    and "r = Inl NullDereference \<Longrightarrow> getSwiftPart p h = None \<and> \<not> nitro_debug"
proof -
  have a: "alive_cpp p h" using assms(1,2) held(1) unfolding well_owned_def by blast
  let ?h1 = "copy_shared p h" and ?h2 = "copy_shared p (copy_shared p h)"
  note w1 = owned_primitives(5) [OF assms(1) a]
  note w2 = owned_primitives(5) [OF w1 alive_copied [OF a]]
  show "r = Inr s \<Longrightarrow> getSwiftPart p h = Some s \<and> well_owned h' (add_raw s g) \<and> same_links h h'"
  proof -
    assume "r = Inr s"
    with assms(3) have s: "getSwiftPart p h = Some s" and h': "h' = drop_shared p (drop_shared p (retain_wrap s ?h2))"
      by (auto simp: get_std__shared_ptr_HybridSalvePushNativeSpec_def Let_def toUnsafe_def split: option.splits if_splits)
    have "alive_wrap s ?h2"
      using swift_part_alive(1) [OF w2, of p s] s alive_copied [OF alive_copied [OF a]] by simp
    from owned_primitives(2) [OF w2 this]
    have "well_owned (retain_wrap s ?h2) (add_shared p (add_shared p (add_raw s g)))" unfolding owners_comm .
    from owned_primitives(8) [OF owned_primitives(8) [OF this]] s h' show ?thesis
      by (metis same_links_counts(1,6) same_links_drop_shared same_links_trans)
  qed
  show "r = Inl (RuntimeError m) \<Longrightarrow> getSwiftPart p h = None \<and> nitro_debug \<and> well_owned h' g \<and> same_links h h'"
    using assms(3) owned_primitives(8) [OF w1]
    by (auto simp: get_std__shared_ptr_HybridSalvePushNativeSpec_def Let_def toUnsafe_def
        same_links_trans [OF same_links_counts(6) same_links_drop_shared] split: option.splits if_splits)
  show "r = Inl NullDereference \<Longrightarrow> getSwiftPart p h = None \<and> \<not> nitro_debug"
    using assms(3)
    by (auto simp: get_std__shared_ptr_HybridSalvePushNativeSpec_def Let_def toUnsafe_def split: option.splits if_splits)
qed

lemma lock_Some: "lock alive w h = Some a \<Longrightarrow> w = Some a \<and> alive a h"
  by (auto simp: lock_def split: option.splits if_splits)

text \<open>Writing a weak reference that points where it should.\<close>

lemma set_cxxPart_owned:
  assumes "well_owned h g" and "p < length (o_cpp h)" and "c_class (o_cpp h ! p) = SwiftSpec s"
  shows "well_owned (h\<lparr>o_wrap := (o_wrap h)[s := (o_wrap h ! s)\<lparr>s_cxxPart := Some p\<rparr>]\<rparr>) g" (is "well_owned ?h g")
proof -
  have l: "linked h" and b: "balanced h g" using assms(1) by (simp_all add: well_owned_def)
  have s: "s < length (o_wrap h)" using linkedD(4) [OF l assms(2,3)] .
  have n: "o_wrap ?h ! t = (if t = s then (o_wrap h ! s)\<lparr>s_cxxPart := Some p\<rparr> else o_wrap h ! t)" for t
    using s by simp
  have "linked ?h"
  proof (rule linkedI)
    show "s_impl (o_wrap ?h ! t) < length (o_impl ?h)" if "t < length (o_wrap ?h)" for t
      using that linkedD(1) [OF l, of t] unfolding n by (cases "t = s") simp_all
    show "q < length (o_cpp ?h) \<and> c_class (o_cpp ?h ! q) = SwiftSpec t"
      if "t < length (o_wrap ?h)" "s_cxxPart (o_wrap ?h ! t) = Some q" for t q
      using that linkedD(2) [OF l, of t q] assms(2,3) unfolding n by (simp split: if_splits)
    show "t < length (o_wrap ?h) \<and> s_impl (o_wrap ?h ! t) = i"
      if "i < length (o_impl ?h)" "i_wrapper (o_impl ?h ! i) = Some t" for i t
      using that linkedD(3) [OF l, of i t] unfolding n by (cases "t = s") simp_all
    show "t < length (o_wrap ?h)" if "q < length (o_cpp ?h)" "c_class (o_cpp ?h ! q) = SwiftSpec t" for q t
      using that linkedD(4) [OF l, of q t] by simp
    show "j < length (o_java ?h)" if "q < length (o_cpp ?h)" "c_class (o_cpp ?h ! q) = JavaSpec j" for q j
      using that linkedD(5) [OF l, of q j] by simp
  qed
  moreover have "at s_retains (o_wrap ?h) t = at s_retains (o_wrap h) t" for t using s by (simp add: at_in)
  moreover have "owned (live_wrap i) (o_wrap ?h) = owned (live_wrap i) (o_wrap h)" for i
    by (simp add: owned_same live_wrap_def)
  ultimately show ?thesis using b by (simp add: well_owned_def balanced_def)
qed

lemma getCxxPart_owned:
  assumes "well_owned h g" and "s \<in># h_wrap g" and "getCxxPart s h = (p, h')"
  shows "well_owned h' (add_shared p g)" and "s_cxxPart (o_wrap h' ! s) = Some p"
    and "lock alive_cpp (s_cxxPart (o_wrap h ! s)) h = Some p
      \<or> lock alive_cpp (s_cxxPart (o_wrap h ! s)) h = None \<and> p = length (o_cpp h)"
proof -
  have w: "alive_wrap s h" using assms(1,2) held(2) unfolding well_owned_def by blast
  have "well_owned h' (add_shared p g) \<and> s_cxxPart (o_wrap h' ! s) = Some p
    \<and> (lock alive_cpp (s_cxxPart (o_wrap h ! s)) h = Some p
      \<or> lock alive_cpp (s_cxxPart (o_wrap h ! s)) h = None \<and> p = length (o_cpp h))"
  proof (cases "lock alive_cpp (s_cxxPart (o_wrap h ! s)) h")
    case (Some q)
    with assms(3) have "q = p" "h' = copy_shared p h" by (auto simp: getCxxPart_def)
    with Some lock_Some [OF Some] owned_primitives(5) [OF assms(1)] show ?thesis
      by (auto simp: copy_shared_def)
  next
    case None
    obtain h2 where c: "create_std__shared_ptr_HybridSalvePushNativeSpec s (retain_wrap s h) = (p, h2)"
      and h': "h' = h2\<lparr>o_wrap := (o_wrap h2)[s := (o_wrap h2 ! s)\<lparr>s_cxxPart := Some p\<rparr>]\<rparr>"
      using assms(3) None by (auto simp: getCxxPart_def toUnsafe_def
          weakify_std__shared_ptr_HybridSalvePushNativeSpec_def split: prod.splits)
    note k = create_owned [OF owned_primitives(2) [OF assms(1) w] c]
    have "p < length (o_cpp h2)" using k(2,4) by simp
    from set_cxxPart_owned [OF k(1) this k(3)] have o: "well_owned h' (add_shared p g)" by (simp add: h')
    have "s < length (o_wrap h2)"
      using linkedD(4) [of h2 p s] k(1-4) by (simp add: well_owned_def)
    with o None k(2) show ?thesis by (simp add: h' retain_wrap_def)
  qed
  then show "well_owned h' (add_shared p g)" "s_cxxPart (o_wrap h' ! s) = Some p"
    "lock alive_cpp (s_cxxPart (o_wrap h ! s)) h = Some p
      \<or> lock alive_cpp (s_cxxPart (o_wrap h ! s)) h = None \<and> p = length (o_cpp h)" by blast+
qed

lemma init_owned:
  assumes "well_owned h g" and "HybridSalvePushNative_init h = (i, h')"
  shows "well_owned h' (add_impl i g)"
proof -
  have h': "h' = h\<lparr>o_impl := o_impl h @ [\<lparr>i_retains = 1, i_wrapper = None\<rparr>]\<rparr>" and i: "i = length (o_impl h)"
    using assms(2) by (simp_all add: HybridSalvePushNative_init_def)
  have l: "linked h" and b: "balanced h g" using assms(1) by (simp_all add: well_owned_def)
  have "linked h'"
  proof (rule linkedI)
    show "t < length (o_wrap h') \<and> s_impl (o_wrap h' ! t) = k"
      if "k < length (o_impl h')" "i_wrapper (o_impl h' ! k) = Some t" for k t
      using that linkedD(3) [OF l, of k t] by (auto simp: h' nth_append split: if_splits)
    show "s_impl (o_wrap h' ! t) < length (o_impl h')" if "t < length (o_wrap h')" for t
      using that linkedD(1) [OF l, of t] by (simp add: h')
    show "q < length (o_cpp h') \<and> c_class (o_cpp h' ! q) = SwiftSpec t"
      if "t < length (o_wrap h')" "s_cxxPart (o_wrap h' ! t) = Some q" for t q
      using that linkedD(2) [OF l, of t q] by (simp add: h')
    show "t < length (o_wrap h')" if "q < length (o_cpp h')" "c_class (o_cpp h' ! q) = SwiftSpec t" for q t
      using that linkedD(4) [OF l, of q t] by (simp add: h')
    show "j < length (o_java h')" if "q < length (o_cpp h')" "c_class (o_cpp h' ! q) = JavaSpec j" for q j
      using that linkedD(5) [OF l, of q j] by (simp add: h')
  qed
  moreover have "count (h_impl g) i = 0" "owned (live_wrap i) (o_wrap h) = 0"
    using balancedD(3) [OF b, of i] by (simp_all add: i)
  ultimately show ?thesis using b by (auto simp: well_owned_def balanced_def h' i)
qed

lemma getCxxWrapper_owned:
  assumes "well_owned h g" and "i \<in># h_impl g" and "getCxxWrapper i h = (s, h')"
  shows "well_owned h' (add_wrap s g)" and "s < length (o_wrap h') \<and> s_impl (o_wrap h' ! s) = i"
    and "o_cpp h' = o_cpp h"
proof -
  have l: "linked h" and b: "balanced h g" using assms(1) by (simp_all add: well_owned_def)
  have i: "i < length (o_impl h)" using held(4) [OF b assms(2)] by simp
  have "well_owned h' (add_wrap s g) \<and> s < length (o_wrap h') \<and> s_impl (o_wrap h' ! s) = i \<and> o_cpp h' = o_cpp h"
  proof (cases "lock alive_wrap (i_wrapper (o_impl h ! i)) h")
    case (Some t)
    with assms(3) have e: "t = s" "h' = retain_wrap s h" by (auto simp: getCxxWrapper_def)
    note k = lock_Some [OF Some]
    from linkedD(3) [OF l i] k e have "s < length (o_wrap h) \<and> s_impl (o_wrap h ! s) = i" by simp
    with owned_primitives(1) [OF assms(1), of s] k e show ?thesis by (simp add: retain_wrap_def)
  next
    case None
    let ?x = "\<lparr>s_impl = i, s_retains = 1, s_cxxPart = None\<rparr>"
    let ?y = "(o_impl h ! i)\<lparr>i_retains := i_retains (o_impl h ! i) + 1, i_wrapper := Some (length (o_wrap h))\<rparr>"
    have s: "s = length (o_wrap h)" and h': "h' = h\<lparr>o_wrap := o_wrap h @ [?x], o_impl := (o_impl h)[i := ?y]\<rparr>"
      using None assms(3) i by (auto simp: getCxxWrapper_def Let_def retain_impl_def)
    have "linked h'"
    proof (rule linkedI)
      show "s_impl (o_wrap h' ! t) < length (o_impl h')" if "t < length (o_wrap h')" for t
        using that linkedD(1) [OF l, of t] i by (auto simp: h' nth_append less_Suc_eq)
      show "q < length (o_cpp h') \<and> c_class (o_cpp h' ! q) = SwiftSpec t"
        if "t < length (o_wrap h')" "s_cxxPart (o_wrap h' ! t) = Some q" for t q
        using that linkedD(2) [OF l, of t q] by (auto simp: h' nth_append less_Suc_eq split: if_splits)
      show "t < length (o_wrap h') \<and> s_impl (o_wrap h' ! t) = k"
        if "k < length (o_impl h')" "i_wrapper (o_impl h' ! k) = Some t" for k t
        using that linkedD(3) [OF l, of k t] i by (auto simp: h' nth_append nth_list_update less_Suc_eq split: if_splits)
      show "t < length (o_wrap h')" if "q < length (o_cpp h')" "c_class (o_cpp h' ! q) = SwiftSpec t" for q t
        using that linkedD(4) [OF l, of q t] by (simp add: h')
      show "j < length (o_java h')" if "q < length (o_cpp h')" "c_class (o_cpp h' ! q) = JavaSpec j" for q j
        using that linkedD(5) [OF l, of q j] by (simp add: h')
    qed
    moreover have "count (h_wrap g) s = 0 \<and> count (h_raw g) s = 0 \<and> owned (live_part (SwiftSpec s)) (o_cpp h) = 0"
      using balancedD(2) [OF b, of s] by (simp add: s)
    moreover have "at i_retains (o_impl h') k = at i_retains (o_impl h) k + of_bool (k = i)" for k
      using i by (simp add: h' at_in)
    moreover have "owned (live_wrap k) (o_wrap h') = owned (live_wrap k) (o_wrap h) + of_bool (k = i)" for k
      by (auto simp: h' live_wrap_def)
    ultimately show ?thesis using b s by (auto simp: well_owned_def balanced_def h')
  qed
  then show "well_owned h' (add_wrap s g)" "s < length (o_wrap h') \<and> s_impl (o_wrap h' ! s) = i" "o_cpp h' = o_cpp h"
    by blast+
qed

lemma createSalvePushNative_owned:
  assumes "well_owned h g" and "createSalvePushNative h = (p, h')"
  shows "well_owned h' (add_shared p g)"
proof -
  obtain i h1 s h2 h3 where o: "HybridSalvePushNative_init h = (i, h1)" "getCxxWrapper i h1 = (s, h2)"
      "getCxxPart s h2 = (p, h3)" and h': "h' = release_impl i (release_wrap s h3)"
    using assms(2) by (auto simp: createSalvePushNative_def split: prod.splits)
  note w1 = init_owned [OF assms(1) o(1)]
  have w2: "well_owned h2 (add_wrap s (add_impl i g))" using getCxxWrapper_owned(1) [OF w1 _ o(2)] by simp
  have "well_owned h3 (add_shared p (add_wrap s (add_impl i g)))" using getCxxPart_owned(1) [OF w2 _ o(3)] by simp
  moreover have "add_shared p (add_wrap s (add_impl i g)) = add_wrap s (add_impl i (add_shared p g))" by (cases g) simp
  ultimately have "well_owned h3 (add_wrap s (add_impl i (add_shared p g)))" by (simp only:)
  from owned_primitives(7) [OF owned_primitives(6) [OF this]] show ?thesis by (simp add: h')
qed

end
