(* ===== verification/NitroRuns.thy ===== *)
theory NitroRuns
  imports NitroLifetime
begin

text \<open>
  Runs of a program that uses the bridge, on both platforms: which references it may use (those it holds) and
  what it then holds. Along every run the counts stay exact, so that nothing dangles and nothing leaks.
\<close>

section \<open>Java\<close>

lemma new_java_owned:
  assumes "well_owned h g" and "j_globals x = 0"
  shows "well_owned (h\<lparr>o_java := o_java h @ [x]\<rparr>) g" (is "well_owned ?h g")
proof -
  have l: "linked h" and b: "balanced h g" using assms(1) by (simp_all add: well_owned_def)
  have "linked ?h"
  proof (rule linkedI)
    show "s_impl (o_wrap ?h ! t) < length (o_impl ?h)" if "t < length (o_wrap ?h)" for t
      using that linkedD(1) [OF l, of t] by simp
    show "q < length (o_cpp ?h) \<and> c_class (o_cpp ?h ! q) = SwiftSpec t"
      if "t < length (o_wrap ?h)" "s_cxxPart (o_wrap ?h ! t) = Some q" for t q
      using that linkedD(2) [OF l, of t q] by simp
    show "t < length (o_wrap ?h) \<and> s_impl (o_wrap ?h ! t) = k"
      if "k < length (o_impl ?h)" "i_wrapper (o_impl ?h ! k) = Some t" for k t
      using that linkedD(3) [OF l, of k t] by simp
    show "t < length (o_wrap ?h)" if "q < length (o_cpp ?h)" "c_class (o_cpp ?h ! q) = SwiftSpec t" for q t
      using that linkedD(4) [OF l, of q t] by simp
    show "j < length (o_java ?h)" if "q < length (o_cpp ?h)" "c_class (o_cpp ?h ! q) = JavaSpec j" for q j
      using that linkedD(5) [OF l, of q j] by simp
  qed
  moreover have "count (h_global g) (length (o_java h)) = 0"
      "owned (live_part (JavaSpec (length (o_java h)))) (o_cpp h) = 0"
    using balancedD(4) [OF b, of "length (o_java h)"] by simp_all
  ultimately show ?thesis using b assms(2) by (simp add: well_owned_def balanced_def)
qed

lemma createHybridObject_owned:
  assumes "well_owned h g" and "j < length (o_java h)" and "createHybridObject j h = (r, h')"
  shows "r = Inr p \<Longrightarrow> well_owned h' (add_shared p g) \<and> alive_cpp p h' \<and> c_class (o_cpp h' ! p) = JavaSpec j"
    and "r = Inl e \<Longrightarrow> h' = h \<and> \<not> instance_of_JavaPart (o_java h ! j)"
proof -
  show "well_owned h' (add_shared p g) \<and> alive_cpp p h' \<and> c_class (o_cpp h' ! p) = JavaSpec j" if "r = Inr p"
  proof -
    let ?h1 = "make_global j h"
    have m: "make_shared (JavaSpec j) ?h1 = (p, h')"
      using assms(3) that by (auto simp: createHybridObject_def JHybridSalvePushNativeSpec_new_def split: if_splits prod.splits)
    have "j < length (o_java ?h1)" using assms(2) by (simp add: make_global_def)
    with owned_make_shared [where s = 0 and j = j and g = g, OF m] owned_primitives(4) [OF assms(1,2)]
    have r: "well_owned h' (add_shared p g)" "c_class (o_cpp h' ! p) = JavaSpec j" by auto
    with held(1) [of h' "add_shared p g" p] show ?thesis by (simp add: well_owned_def)
  qed
  show "r = Inl e \<Longrightarrow> h' = h \<and> \<not> instance_of_JavaPart (o_java h ! j)"
    using assms(3) by (auto simp: createHybridObject_def split: if_splits prod.splits)
qed

lemma getJHybrid_owned:
  assumes "hybrid_lib_ok G" and "well_owned h g" and "j < length (o_java h)"
    and "getJHybridSalvePushNativeSpec G j h = (r, h')"
  shows "r = Inr p \<Longrightarrow> well_owned h' (add_shared p g) \<and> alive_cpp p h' \<and> c_class (o_cpp h' ! p) = JavaSpec j"
    and "r = Inl e \<Longrightarrow> h' = h \<and> \<not> instance_of_JavaPart (o_java h ! j)"
proof -
  have "(r = Inr p \<longrightarrow> well_owned h' (add_shared p g) \<and> alive_cpp p h' \<and> c_class (o_cpp h' ! p) = JavaSpec j)
      \<and> (r = Inl e \<longrightarrow> h' = h \<and> \<not> instance_of_JavaPart (o_java h ! j))"
  proof (cases "\<exists>q. alive_cpp q h \<and> c_class (o_cpp h ! q) = JavaSpec j \<and> G createHybridObject j h = (Inr q, copy_shared q h)")
    case True
    then obtain q where q: "alive_cpp q h" "c_class (o_cpp h ! q) = JavaSpec j"
      "G createHybridObject j h = (Inr q, copy_shared q h)" by blast
    have c: "c_class (o_cpp (copy_shared q h) ! q) = JavaSpec j"
      using same_linksD(5) [OF same_links_counts(6) [of h q], of q] q(1,2) by (simp add: alive_cpp_def)
    with q assms(4) have "r = Inr q" "h' = copy_shared q h" by (simp_all add: getJHybridSalvePushNativeSpec_def)
    with owned_primitives(5) [OF assms(2) q(1)] alive_copied [OF q(1)] c show ?thesis by auto
  next
    case False
    then have e: "G createHybridObject j h = createHybridObject j h"
      using assms(1) unfolding hybrid_lib_ok_def by blast
    obtain r1 h1 where c: "createHybridObject j h = (r1, h1)" by (cases "createHybridObject j h")
    note k = createHybridObject_owned [OF assms(2,3) c]
    show ?thesis
    proof (cases r1)
      case (Inl x)
      then show ?thesis using assms(4) e c k(2) by (auto simp: getJHybridSalvePushNativeSpec_def)
    next
      case (Inr q)
      then show ?thesis using assms(4) e c k(1) [OF Inr] by (auto simp: getJHybridSalvePushNativeSpec_def)
    qed
  qed
  then show "r = Inr p \<Longrightarrow> well_owned h' (add_shared p g) \<and> alive_cpp p h' \<and> c_class (o_cpp h' ! p) = JavaSpec j"
    "r = Inl e \<Longrightarrow> h' = h \<and> \<not> instance_of_JavaPart (o_java h ! j)" by blast+
qed

lemma Impl_create_owned:
  assumes "hybrid_lib_ok G" and "well_owned h g" and "JHybridSalvePushNativeSpecImpl_create G h = (r, h')"
  shows "\<exists>p. r = Inr p \<and> well_owned h' (add_shared p g) \<and> alive_cpp p h' \<and> c_class (o_cpp h' ! p) = JavaSpec (length (o_java h))"
proof -
  let ?x = "\<lparr>j_class = JHybridSalvePushNativeSpecImpl_descriptor, j_globals = 0\<rparr>"
  let ?h = "h\<lparr>o_java := o_java h @ [?x]\<rparr>"
  have w: "well_owned ?h g" using new_java_owned [OF assms(2)] by simp
  have c: "getJHybridSalvePushNativeSpec G (length (o_java h)) ?h = (r, h')"
    using assms(3) by (simp add: JHybridSalvePushNativeSpecImpl_create_def Let_def)
  note k = getJHybrid_owned [OF assms(1) w _ c]
  show ?thesis
  proof (cases r)
    case (Inl e)
    with k(2) [of e] show ?thesis by (simp add: instance_of_JavaPart_def)
  next
    case (Inr p)
    with k(1) [of p] show ?thesis by simp
  qed
qed

section \<open>Runs\<close>

inductive own_step :: "hybrid_lib \<Rightarrow> heap \<times> owners \<Rightarrow> heap \<times> owners \<Rightarrow> bool" for G where
  init: "HybridSalvePushNative_init h = (i, h') \<Longrightarrow> own_step G (h, g) (h', add_impl i g)"
| drop_impl: "own_step G (h, add_impl i g) (release_impl i h, g)"
| wrapper: "i \<in># h_impl g \<Longrightarrow> getCxxWrapper i h = (s, h') \<Longrightarrow> own_step G (h, g) (h', add_wrap s g)"
| drop_wrap: "own_step G (h, add_wrap s g) (release_wrap s h, g)"
| part: "s \<in># h_wrap g \<Longrightarrow> getCxxPart s h = (p, h') \<Longrightarrow> own_step G (h, g) (h', add_shared p g)"
| copy: "p \<in># h_shared g \<Longrightarrow> own_step G (h, g) (copy_shared p h, add_shared p g)"
| drop: "own_step G (h, add_shared p g) (drop_shared p h, g)"
| raw: "s \<in># h_wrap g \<Longrightarrow> toUnsafe s h = (r, h') \<Longrightarrow> own_step G (h, g) (h', add_raw r g)"
| take: "fromUnsafe r h = (s, h') \<Longrightarrow> own_step G (h, add_raw r g) (h', add_wrap s g)"
| create: "create_std__shared_ptr_HybridSalvePushNativeSpec r h = (p, h') \<Longrightarrow>
    own_step G (h, add_raw r g) (h', add_shared p g)"
| get: "p \<in># h_shared g \<Longrightarrow> get_std__shared_ptr_HybridSalvePushNativeSpec nitro_debug (Some p) h = (Inr r, h') \<Longrightarrow>
    own_step G (h, g) (h', add_raw r g)"
| get_throws: "p \<in># h_shared g \<Longrightarrow>
    get_std__shared_ptr_HybridSalvePushNativeSpec nitro_debug (Some p) h = (Inl (RuntimeError m), h') \<Longrightarrow>
    own_step G (h, g) (h', g)"
| autolink: "createSalvePushNative h = (p, h') \<Longrightarrow> own_step G (h, g) (h', add_shared p g)"
| java_object: "own_step G (h, g) (h\<lparr>o_java := o_java h @ [\<lparr>j_class = c, j_globals = 0\<rparr>]\<rparr>, g)"
| java_part: "j < length (o_java h) \<Longrightarrow> getJHybridSalvePushNativeSpec G j h = (Inr p, h') \<Longrightarrow>
    own_step G (h, g) (h', add_shared p g)"
| java_throws: "j < length (o_java h) \<Longrightarrow> getJHybridSalvePushNativeSpec G j h = (Inl e, h') \<Longrightarrow>
    own_step G (h, g) (h', g)"
| java_create: "JHybridSalvePushNativeSpecImpl_create G h = (Inr p, h') \<Longrightarrow> own_step G (h, g) (h', add_shared p g)"

definition no_objects :: heap where
  "no_objects = \<lparr>o_cpp = [], o_impl = [], o_wrap = [], o_java = []\<rparr>"

inductive own_reach for G where
  start: "own_reach G (no_objects, no_owners)"
| step: "own_reach G x \<Longrightarrow> own_step G x y \<Longrightarrow> own_reach G y"

lemma own_step_well_owned:
  assumes "own_step G x y" and "hybrid_lib_ok G" and "case x of (h, g) \<Rightarrow> well_owned h g"
  shows "case y of (h, g) \<Rightarrow> well_owned h g"
  using assms(1,3)
proof cases
  case (take r h s h' g)
  then show ?thesis using assms(3) by (simp add: fromUnsafe_def well_owned_def balanced_raw_wrap)
next
  case (raw s g h r h')
  then show ?thesis using assms(3) owned_primitives(2) held(2) by (auto simp: toUnsafe_def well_owned_def)
next
  case (copy p g h)
  then show ?thesis using assms(3) owned_primitives(5) held(1) by (auto simp: well_owned_def)
next
  case (java_object h g c)
  then show ?thesis using assms(3) new_java_owned by auto
next
  case (java_throws j h e h' g)
  then show ?thesis using assms(3) getJHybrid_owned(2) [OF assms(2) _ java_throws(3,4) refl] by auto
next
  case (java_create h p h' g)
  then show ?thesis using assms(3) Impl_create_owned [OF assms(2)] by auto
next
  case (get_throws p g d h m h')
  then show ?thesis using assms(3) get_owned(2) by auto
next
  case (get p g d h r h')
  then show ?thesis using assms(3) get_owned(1) by auto
qed (use assms(2,3) init_owned owned_primitives(6-8) getCxxWrapper_owned(1) getCxxPart_owned(1) create_owned(1)
      createSalvePushNative_owned getJHybrid_owned(1) in auto)

lemma own_reach_well_owned:
  assumes "own_reach G x" and "hybrid_lib_ok G"
  shows "case x of (h, g) \<Rightarrow> well_owned h g"
  using assms(1)
proof induction
  case start
  show ?case by (simp add: no_objects_def no_owners_def well_owned_def balanced_def linked_def at_def)
next
  case (step x y)
  from own_step_well_owned [OF step.hyps(2) assms(2) step.IH] show ?case .
qed

section \<open>Properties\<close>

lemma owned_pairs:
  assumes "map (\<lambda>x. (c_uses x, c_class x)) xs = ys"
  shows "owned (live_part k) xs = owned (\<lambda>(u, c). 0 < u \<and> c = k) ys"
  unfolding assms [symmetric] by (induction xs) (simp_all add: owned_def live_part_def)

text \<open>A JNI library that never has a cached C++ part.\<close>

definition fresh_lib :: hybrid_lib where
  "fresh_lib create j h = create j h"

lemma fresh_lib_ok [simp]: "hybrid_lib_ok fresh_lib"
  by (simp add: hybrid_lib_ok_def fresh_lib_def)

lemma sample_autolinked:
  "own_reach fresh_lib (snd (createSalvePushNative no_objects), add_shared 0 no_owners)"
  "createSalvePushNative no_objects = (0, snd (createSalvePushNative no_objects))"
proof -
  show c: "createSalvePushNative no_objects = (0, snd (createSalvePushNative no_objects))"
    by (simp add: createSalvePushNative_def HybridSalvePushNative_init_def getCxxWrapper_def getCxxPart_def
        no_objects_def lock_def toUnsafe_def create_std__shared_ptr_HybridSalvePushNativeSpec_def fromUnsafe_def
        HybridSalvePushNativeSpecSwift_new_def make_shared_def Let_def retain_wrap_def retain_impl_def release_wrap_def)
  show "own_reach fresh_lib (snd (createSalvePushNative no_objects), add_shared 0 no_owners)"
    by (rule own_reach.step [OF own_reach.start own_step.autolink [OF c]])
qed

text \<open>C7. No reference dangles: whatever the program does with the bridge, every C++ object it holds is alive,
  and so is what this object refers to: the Swift part and its implementation on iOS, the Java object, kept by a
  global reference, on Android.\<close>

theorem held_objects_are_alive:
  assumes "own_reach G (h, g)" and "hybrid_lib_ok G" and "p \<in># h_shared g"
  shows "0 < c_uses (o_cpp h ! p) \<and> (case c_class (o_cpp h ! p) of
      SwiftSpec s \<Rightarrow> 0 < s_retains (o_wrap h ! s) \<and> 0 < i_retains (o_impl h ! s_impl (o_wrap h ! s))
    | JavaSpec j \<Rightarrow> 0 < j_globals (o_java h ! j) | OtherHybrid \<Rightarrow> True)"
proof -
  have b: "balanced h g" and l: "linked h"
    using own_reach_well_owned [OF assms(1,2)] by (simp_all add: well_owned_def)
  have a: "alive_cpp p h" using held(1) [OF b assms(3)] .
  show ?thesis
    using a kept [OF b l] by (auto simp: alive_cpp_def alive_wrap_def split: cpp_class.split)
qed

theorem held_objects_are_alive_witness:
  "0 < c_uses (o_cpp (snd (createSalvePushNative no_objects)) ! 0)"
  using held_objects_are_alive [OF sample_autolinked(1) fresh_lib_ok, of 0] by simp

text \<open>C18. Nothing leaks: when the program has given back every reference it held, no C++ object, no Swift object
  and no global Java reference is left.\<close>

theorem nothing_leaks:
  assumes "own_reach G (h, no_owners)" and "hybrid_lib_ok G"
  shows "list_all (\<lambda>x. c_uses x = 0) (o_cpp h) \<and> list_all (\<lambda>x. s_retains x = 0) (o_wrap h)
    \<and> list_all (\<lambda>x. i_retains x = 0) (o_impl h) \<and> list_all (\<lambda>x. j_globals x = 0) (o_java h)"
proof -
  have b: "balanced h no_owners" and l: "linked h"
    using own_reach_well_owned [OF assms] by (simp_all add: well_owned_def)
  have c: "c_uses (o_cpp h ! p) = 0" if "p < length (o_cpp h)" for p
    using balancedD(1) [OF b, of p] that by (simp add: no_owners_def at_def)
  then have dead: "owned (live_part k) (o_cpp h) = 0" for k
    by (auto simp: owned_def live_part_def filter_empty_conv in_set_conv_nth)
  have w: "s_retains (o_wrap h ! s) = 0" if "s < length (o_wrap h)" for s
    using balancedD(2) [OF b, of s] that dead by (simp add: no_owners_def at_def)
  then have "owned (live_wrap i) (o_wrap h) = 0" for i
    by (auto simp: owned_def live_wrap_def filter_empty_conv in_set_conv_nth)
  then have i: "i_retains (o_impl h ! i) = 0" if "i < length (o_impl h)" for i
    using balancedD(3) [OF b, of i] that by (simp add: no_owners_def at_def)
  have j: "j_globals (o_java h ! j) = 0" if "j < length (o_java h)" for j
    using balancedD(4) [OF b, of j] that dead by (simp add: no_owners_def at_def)
  from c w i j show ?thesis by (simp add: list_all_length)
qed

theorem nothing_leaks_witness:
  "list_all (\<lambda>x. c_uses x = 0) (o_cpp (drop_shared 0 (snd (createSalvePushNative no_objects))))"
  using nothing_leaks [OF own_reach.step [OF sample_autolinked(1) own_step.drop] fresh_lib_ok] by simp

lemma new_part:
  assumes "balanced h g" and "balanced h3 g3" and "h_shared g3 = add_mset p (h_shared g)"
    and "length (o_cpp h3) = Suc (length (o_cpp h))" and "p = length (o_cpp h)" and "c_class (o_cpp h3 ! p) = SwiftSpec s"
    and "\<forall>k < length (o_cpp h). c_class (o_cpp h3 ! k) = c_class (o_cpp h ! k)"
  shows "c_uses (o_cpp h3 ! p) = 1"
    and "owned (live_part c) (o_cpp h3) = owned (live_part c) (o_cpp h) + of_bool (c = SwiftSpec s)"
proof -
  have u: "c_uses (o_cpp h3 ! k) = count (h_shared g) k + of_bool (k = p)" if "k < length (o_cpp h3)" for k
    using balancedD(1) [OF assms(2), of k] that assms(3) by (simp add: at_def)
  have o: "c_uses (o_cpp h ! k) = count (h_shared g) k" if "k < length (o_cpp h)" for k
    using balancedD(1) [OF assms(1), of k] that by (simp add: at_def)
  have "count (h_shared g) p = 0" using balancedD(1) [OF assms(1), of p] assms(5) by simp
  then show c1: "c_uses (o_cpp h3 ! p) = 1" using u [of p] assms(4,5) by simp
  let ?f = "\<lambda>x. (c_uses x, c_class x)"
  have "map ?f (o_cpp h3) = map ?f (o_cpp h) @ [(1, SwiftSpec s)]"
  proof (rule nth_equalityI)
    fix k assume "k < length (map ?f (o_cpp h3))"
    then show "map ?f (o_cpp h3) ! k = (map ?f (o_cpp h) @ [(1, SwiftSpec s)]) ! k"
      using u [of k] o [of k] c1 assms(4-7)
      by (cases "k < length (o_cpp h)") (auto simp: nth_append less_Suc_eq)
  qed (simp add: assms(4))
  then show "owned (live_part c) (o_cpp h3) = owned (live_part c) (o_cpp h) + of_bool (c = SwiftSpec s)"
    using owned_pairs [of "o_cpp h3"] owned_pairs [of "o_cpp h", OF refl] by (auto simp: split_def)
qed

text \<open>C35. A Swift object survives the trip through C++: making the C++ part from its retained pointer and asking
  that part for its Swift object gives the same object, in both build modes, with two references more (the C++
  part's and the returned pointer's) and nothing else changed but the new part.\<close>

theorem swift_object_round_trip:
  assumes "own_reach G (h, g)" and "hybrid_lib_ok G" and "s \<in># h_wrap g"
    and "toUnsafe s h = (r, h1)" and "create_std__shared_ptr_HybridSalvePushNativeSpec r h1 = (p, h2)"
    and "get_std__shared_ptr_HybridSalvePushNativeSpec nitro_debug (Some p) h2 = (q, h3)"
  shows "q = Inr s \<and> s_retains (o_wrap h3 ! s) = s_retains (o_wrap h ! s) + 2 \<and> c_uses (o_cpp h3 ! p) = 1
    \<and> (\<forall>t < length (o_wrap h). t \<noteq> s \<longrightarrow> s_retains (o_wrap h3 ! t) = s_retains (o_wrap h ! t))"
proof -
  have w: "well_owned h g" using own_reach_well_owned [OF assms(1,2)] by simp
  have a: "alive_wrap s h" using w assms(3) held(2) unfolding well_owned_def by blast
  have r: "r = s" "h1 = retain_wrap s h" using assms(4) by (auto simp: toUnsafe_def)
  have w1: "well_owned h1 (add_raw s g)" using owned_primitives(2) [OF w a] by (simp add: r)
  note c = create_owned [OF w1 assms(5) [unfolded r(1)]]
  have "getSwiftPart p h2 = Some s" using c(3) by (simp add: getSwiftPart_def)
  then have q: "q = Inr s" using assms(6)
    by (auto simp: get_std__shared_ptr_HybridSalvePushNativeSpec_def Let_def toUnsafe_def)
  note w3 = get_owned(1) [OF c(1) _ assms(6) q, simplified]
  have b: "balanced h g" and b3: "balanced h3 (add_raw s (add_shared p g))"
    using w w3 by (simp_all add: well_owned_def)
  have l3: "same_links h2 h3" using w3 by simp
  have old: "o_cpp h1 = o_cpp h" "length (o_wrap h1) = length (o_wrap h)" by (simp_all add: r(2) retain_wrap_def)
  note n = new_part [OF b b3, of p s]
  have "length (o_cpp h3) = Suc (length (o_cpp h))" "p = length (o_cpp h)" "c_class (o_cpp h3 ! p) = SwiftSpec s"
    "\<forall>k < length (o_cpp h). c_class (o_cpp h3 ! k) = c_class (o_cpp h ! k)"
    using same_linksD(1,5) [OF l3] c(2-5) old by simp_all
  note n = n [OF _ this]
  have len: "length (o_wrap h3) = length (o_wrap h)"
    using same_linksD(2) [OF l3] same_linksD(2) [OF c(6)] old by simp
  have "s_retains (o_wrap h3 ! t) = s_retains (o_wrap h ! t) + (if t = s then 2 else 0)"
    if "t < length (o_wrap h)" for t
    using balancedD(2) [OF b3, of t] balancedD(2) [OF b, of t] n(2) [of "SwiftSpec t"] that len by (simp add: at_def)
  moreover have "s < length (o_wrap h)" using a by (simp add: alive_wrap_def)
  ultimately show ?thesis using q n(1) by simp
qed

text \<open>A Swift object and its wrapper, both held.\<close>

definition sample_wrapped :: heap where
  "sample_wrapped = snd (getCxxWrapper 0 (snd (HybridSalvePushNative_init no_objects)))"

lemma sample_wrapped_reach: "own_reach G (sample_wrapped, add_wrap 0 (add_impl 0 no_owners))"
proof -
  have i: "HybridSalvePushNative_init no_objects = (0, snd (HybridSalvePushNative_init no_objects))"
    by (simp add: HybridSalvePushNative_init_def no_objects_def)
  have w: "getCxxWrapper 0 (snd (HybridSalvePushNative_init no_objects)) = (0, sample_wrapped)"
    by (simp add: sample_wrapped_def getCxxWrapper_def HybridSalvePushNative_init_def no_objects_def lock_def Let_def)
  show ?thesis
    using own_reach.step [OF own_reach.step [OF own_reach.start own_step.init [OF i]] own_step.wrapper [OF _ w]] by simp
qed

theorem swift_object_round_trip_witness:
  "\<exists>p (h3 :: heap). s_retains (o_wrap h3 ! 0) = 3 \<and> c_uses (o_cpp h3 ! p) = 1"
proof -
  let ?h1 = "snd (toUnsafe 0 sample_wrapped)"
  let ?p = "fst (create_std__shared_ptr_HybridSalvePushNativeSpec 0 ?h1)"
  let ?h2 = "snd (create_std__shared_ptr_HybridSalvePushNativeSpec 0 ?h1)"
  let ?g = "get_std__shared_ptr_HybridSalvePushNativeSpec False (Some ?p) ?h2"
  have t: "toUnsafe 0 sample_wrapped = (0, ?h1)" by (simp add: toUnsafe_def)
  have "s_retains (o_wrap sample_wrapped ! 0) = 1"
    by (simp add: sample_wrapped_def getCxxWrapper_def HybridSalvePushNative_init_def no_objects_def lock_def Let_def
        retain_impl_def)
  with swift_object_round_trip [OF sample_wrapped_reach fresh_lib_ok _ t, of ?p ?h2 False "fst ?g" "snd ?g"]
  have "s_retains (o_wrap (snd ?g) ! 0) = 3 \<and> c_uses (o_cpp (snd ?g) ! ?p) = 1" by auto
  then show ?thesis by blast
qed

definition knows_part :: "nat \<Rightarrow> nat \<Rightarrow> heap \<Rightarrow> bool" where
  "knows_part s p h \<longleftrightarrow> s < length (o_wrap h) \<and> s_cxxPart (o_wrap h ! s) = Some p"

lemma knows_part_links: "same_links h h' \<Longrightarrow> knows_part s p h \<Longrightarrow> knows_part s p h'"
  using same_linksD(2,7) by (auto simp: knows_part_def)

lemma knows_part_wrap: "o_wrap h' = o_wrap h \<Longrightarrow> knows_part s p h = knows_part s p h'"
  by (simp add: knows_part_def)

lemma knows_part_create:
  assumes "well_owned h (add_raw t g)" and "create_std__shared_ptr_HybridSalvePushNativeSpec t h = (q, h')"
    and "knows_part s p h"
  shows "knows_part s p h'"
  using create_owned(6) [OF assms(1,2)] knows_part_links assms(3) by (fastforce simp: knows_part_def)

lemma knows_part_getCxxPart:
  assumes "well_owned h g" and "t \<in># h_wrap g" and "getCxxPart t h = (q, h')" and "knows_part s p h" and "alive_cpp p h"
  shows "knows_part s p h'"
proof (cases "lock alive_cpp (s_cxxPart (o_wrap h ! t)) h")
  case (Some r)
  with assms(3,4) show ?thesis by (auto simp: getCxxPart_def knows_part_def copy_shared_def)
next
  case None
  have w: "alive_wrap t h" using assms(1,2) held(2) unfolding well_owned_def by blast
  obtain h2 where c: "create_std__shared_ptr_HybridSalvePushNativeSpec t (retain_wrap t h) = (q, h2)"
    and h': "h' = h2\<lparr>o_wrap := (o_wrap h2)[t := (o_wrap h2 ! t)\<lparr>s_cxxPart := Some q\<rparr>]\<rparr>"
    using assms(3) None by (auto simp: getCxxPart_def toUnsafe_def
        weakify_std__shared_ptr_HybridSalvePushNativeSpec_def split: prod.splits)
  have "t \<noteq> s" using None assms(4,5) by (auto simp: lock_def knows_part_def)
  moreover have "knows_part s p h2"
    using knows_part_create [OF owned_primitives(2) [OF assms(1) w] c] knows_part_links assms(4) same_links_counts(1) by blast
  ultimately show ?thesis by (auto simp: h' knows_part_def)
qed

lemma knows_part_getCxxWrapper:
  assumes "getCxxWrapper i h = (t, h')" and "knows_part s p h"
  shows "knows_part s p h'"
proof (cases "lock alive_wrap (i_wrapper (o_impl h ! i)) h")
  case (Some r)
  with assms knows_part_links [OF same_links_counts(1)] show ?thesis by (auto simp: getCxxWrapper_def)
next
  case None
  with assms show ?thesis by (auto simp: getCxxWrapper_def knows_part_def Let_def nth_append)
qed

lemma knows_part_java:
  assumes "hybrid_lib_ok G" and "getJHybridSalvePushNativeSpec G j h = (r, h')" and "knows_part s p h"
  shows "knows_part s p h'"
proof -
  obtain r1 h1 where g: "G createHybridObject j h = (r1, h1)" by (cases "G createHybridObject j h")
  have "G createHybridObject j h = createHybridObject j h \<or> (\<exists>q. G createHybridObject j h = (Inr q, copy_shared q h))"
    using assms(1) unfolding hybrid_lib_ok_def by blast
  with g assms(3) have "knows_part s p h1"
    by (auto simp: createHybridObject_def JHybridSalvePushNativeSpec_new_def make_shared_def make_global_def
        copy_shared_def knows_part_def split: if_splits prod.splits)
  with g assms(2) knows_part_links [OF same_links_drop_shared] show ?thesis
    by (auto simp: getJHybridSalvePushNativeSpec_def split: sum.splits cpp_class.splits)
qed

lemma knows_part_step:
  assumes "own_step G x y" and "hybrid_lib_ok G" and "well_owned (fst x) (snd x)"
    and "knows_part s p (fst x)" and "alive_cpp p (fst x)"
  shows "knows_part s p (fst y)"
  using assms(1)
proof cases
  case (init h i h' g)
  then show ?thesis using assms(4) by (auto simp: HybridSalvePushNative_init_def knows_part_def)
next
  case (wrapper i g h t h')
  then show ?thesis using assms(4) knows_part_getCxxWrapper by auto
next
  case (part t g h q h')
  then show ?thesis using assms(3-5) knows_part_getCxxPart by auto
next
  case (raw t g h r h')
  then show ?thesis using assms(4) knows_part_links [OF same_links_counts(1)] by (auto simp: toUnsafe_def)
next
  case (take r h t h' g)
  then show ?thesis using assms(4) by (simp add: fromUnsafe_def)
next
  case (create r h q h' g)
  then show ?thesis using assms(3,4) knows_part_create by auto
next
  case (get q g d h r h')
  then show ?thesis using assms(3,4) get_owned(1) knows_part_links by fastforce
next
  case (get_throws q g d h m h')
  then show ?thesis using assms(3,4) get_owned(2) knows_part_links by fastforce
next
  case (java_object h g c)
  then show ?thesis using assms(4) by (simp add: knows_part_def)
next
  case (java_part j h q h' g)
  then show ?thesis using assms(4) knows_part_java [OF assms(2)] by auto
next
  case (java_throws j h e h' g)
  then show ?thesis using assms(4) knows_part_java [OF assms(2)] by auto
next
  case (java_create h q h' g)
  let ?h = "h\<lparr>o_java := o_java h @ [\<lparr>j_class = JHybridSalvePushNativeSpecImpl_descriptor, j_globals = 0\<rparr>]\<rparr>"
  from java_create have "getJHybridSalvePushNativeSpec G (length (o_java h)) ?h = (Inr q, h')"
    by (simp add: JHybridSalvePushNativeSpecImpl_create_def Let_def)
  from knows_part_java [OF assms(2) this, of s p] java_create assms(4) show ?thesis by (simp add: knows_part_def)
next
  case (autolink h q h' g)
  then obtain i h1 t h2 h3 where o: "HybridSalvePushNative_init h = (i, h1)" "getCxxWrapper i h1 = (t, h2)"
      "getCxxPart t h2 = (q, h3)" and h': "h' = release_impl i (release_wrap t h3)"
    by (auto simp: createSalvePushNative_def split: prod.splits)
  note w1 = init_owned [OF _ o(1), of g]
  have w: "well_owned h g" and k: "knows_part s p h" and a: "alive_cpp p h" using autolink assms(3-5) by simp_all
  have w2: "well_owned h2 (add_wrap t (add_impl i g))" using getCxxWrapper_owned(1) [OF w1 [OF w] _ o(2)] by simp
  have "knows_part s p h1" using k o(1) by (auto simp: HybridSalvePushNative_init_def knows_part_def)
  note k2 = knows_part_getCxxWrapper [OF o(2) this]
  have "o_cpp h2 = o_cpp h1" using getCxxWrapper_owned(3) [OF w1 [OF w] _ o(2)] by simp
  then have a2: "alive_cpp p h2" using a o(1) by (auto simp: alive_cpp_def HybridSalvePushNative_init_def)
  have "knows_part s p h3" using knows_part_getCxxPart [OF w2 _ o(3) k2 a2] by simp
  then show ?thesis
    using knows_part_links [OF same_links_trans [OF same_links_release_wrap same_links_counts(3)]] h' autolink by auto
qed (use assms(4) knows_part_links [OF same_links_counts(3)] knows_part_links [OF same_links_counts(6)]
    knows_part_links [OF same_links_release_wrap] knows_part_links [OF same_links_drop_shared] in auto)

definition holding :: "hybrid_lib \<Rightarrow> nat \<Rightarrow> heap \<times> owners \<Rightarrow> heap \<times> owners \<Rightarrow> bool" where
  "holding G p x y \<longleftrightarrow> own_step G x y \<and> p \<in># h_shared (snd y)"

text \<open>C29. One C++ part per Swift object: while the program holds the part it got from \<open>getCxxPart\<close>, every later
  \<open>getCxxPart\<close> of the same Swift object returns that part, whatever the program does in between.\<close>

theorem cxx_part_is_stable:
  assumes "own_reach G (h, g)" and "hybrid_lib_ok G" and "s \<in># h_wrap g" and "getCxxPart s h = (p, h1)"
    and "(holding G p)\<^sup>*\<^sup>* (h1, add_shared p g) (h2, g2)" and "getCxxPart s h2 = (q, h3)"
  shows "q = p"
proof -
  have w: "well_owned h g" using own_reach_well_owned [OF assms(1,2)] by simp
  note c = getCxxPart_owned [OF w assms(3,4)]
  have "alive_wrap s h1" using held(2) [of h1 "add_shared p g" s] c(1) assms(3) by (simp add: well_owned_def)
  then have k1: "knows_part s p h1" using c(2) by (simp add: knows_part_def alive_wrap_def)
  have "knows_part s p (fst y) \<and> well_owned (fst y) (snd y) \<and> p \<in># h_shared (snd y)"
    if "(holding G p)\<^sup>*\<^sup>* (h1, add_shared p g) y" for y
    using that
  proof induction
    case base
    show ?case using k1 c(1) by simp
  next
    case (step y z)
    then have st: "own_step G y z" and z: "p \<in># h_shared (snd z)"
      and IH: "knows_part s p (fst y)" "well_owned (fst y) (snd y)" "p \<in># h_shared (snd y)" by (auto simp: holding_def)
    have "alive_cpp p (fst y)" using held(1) IH(2,3) unfolding well_owned_def by blast
    from knows_part_step [OF st assms(2) IH(2,1) this] own_step_well_owned [OF st assms(2)] IH(2) z show ?case
      by (simp add: split_def)
  qed
  from this [OF assms(5)] have k: "knows_part s p h2" "alive_cpp p h2"
    using held(1) [of h2 g2 p] by (simp_all add: well_owned_def)
  then have "lock alive_cpp (s_cxxPart (o_wrap h2 ! s)) h2 = Some p" by (simp add: lock_def knows_part_def)
  with assms(6) show ?thesis by (simp add: getCxxPart_def)
qed

theorem cxx_part_is_stable_witness:
  "fst (getCxxPart 0 (snd (getCxxPart 0 sample_wrapped))) = fst (getCxxPart 0 sample_wrapped)"
  using cxx_part_is_stable [OF sample_wrapped_reach fresh_lib_ok _ _ rtranclp.rtrancl_refl, of 0
      "fst (getCxxPart 0 sample_wrapped)" "snd (getCxxPart 0 sample_wrapped)"]
  by (simp add: prod_eq_iff)

end
