(* ===== verification/NitroLoading.thy ===== *)
theory NitroLoading
  imports NitroRuns NitroProps
begin

text \<open>
  How the module comes up and how a call from JavaScript reaches it: the library's load functions register a
  constructor under the name JavaScript asks for, the constructor makes the C++ object with its platform half,
  the object's prototype gets the three methods, and a call of one of them is dispatched on the dynamic class.
  The tables behind the registry, the prototype and the JNI method list belong to NitroModules and fbjni:
  \<open>table_lib\<close> with the law \<open>table_ok\<close> stands for them.
\<close>

section \<open>Tables of the libraries\<close>

record ('v, 't) table_lib =
  t_add :: "string \<Rightarrow> 'v \<Rightarrow> 't \<Rightarrow> 't"
  t_find :: "string \<Rightarrow> 't \<Rightarrow> 'v option"

text \<open>A name that is free gets the entry added under it; the other names keep theirs.\<close>

definition table_ok :: "('v, 't) table_lib \<Rightarrow> bool" where
  "table_ok T \<longleftrightarrow> (\<forall>n v t. t_find T n t = None \<longrightarrow>
     t_find T n (t_add T n v t) = Some v \<and> (\<forall>m. m \<noteq> n \<longrightarrow> t_find T m (t_add T n v t) = t_find T m t))"

lemma table_okD:
  assumes "table_ok T" and "t_find T n t = None"
  shows "t_find T n (t_add T n v t) = Some v" "m \<noteq> n \<Longrightarrow> t_find T m (t_add T n v t) = t_find T m t"
  using assms by (auto simp: table_ok_def)

section \<open>Loading\<close>

text \<open>The constructors the two platforms register; those of other libraries are numbered.\<close>

datatype constructor = AndroidConstructor | IosConstructor | ForeignConstructor nat

datatype jni_method = InitHybrid | ForeignNative nat

record ('r, 'n) loaded =
  l_registry :: 'r
  l_natives :: 'n

definition CxxPart_descriptor :: string where
  "CxxPart_descriptor = ''Lcom/margelo/nitro/salvepush/HybridSalvePushNativeSpec$CxxPart;''"

text \<open>A native method is known by its class and its name.\<close>

definition CxxPart_registerNatives :: "(jni_method, 'n) table_lib \<Rightarrow> ('r, 'n) loaded \<Rightarrow> ('r, 'n) loaded" where
  "CxxPart_registerNatives NT l = l\<lparr>l_natives := t_add NT (CxxPart_descriptor @ ''initHybrid'') InitHybrid (l_natives l)\<rparr>"

definition registerAllNatives ::
    "(constructor, 'r) table_lib \<Rightarrow> (jni_method, 'n) table_lib \<Rightarrow> ('r, 'n) loaded \<Rightarrow> ('r, 'n) loaded" where
  "registerAllNatives RT NT l =
     (let l1 = CxxPart_registerNatives NT l
      in l1\<lparr>l_registry := t_add RT ''SalvePushNative'' AndroidConstructor (l_registry l1)\<rparr>)"

text \<open>
  \<open>facebook::jni::initialize\<close> sets the JVM up, runs the function it is given and returns the JNI version.
\<close>

type_synonym 'l jni_init = "('l \<Rightarrow> 'l) \<Rightarrow> 'l \<Rightarrow> int \<times> 'l"

definition jni_init_ok :: "'l jni_init \<Rightarrow> bool" where
  "jni_init_ok I \<longleftrightarrow> (\<forall>f l. I f l = (0x00010006, f l))"

definition salvepush_initialize ::
    "('r, 'n) loaded jni_init \<Rightarrow> (constructor, 'r) table_lib \<Rightarrow> (jni_method, 'n) table_lib
       \<Rightarrow> ('r, 'n) loaded \<Rightarrow> int \<times> ('r, 'n) loaded" where
  "salvepush_initialize I RT NT l = I (registerAllNatives RT NT) l"

definition JNI_OnLoad ::
    "('r, 'n) loaded jni_init \<Rightarrow> (constructor, 'r) table_lib \<Rightarrow> (jni_method, 'n) table_lib
       \<Rightarrow> ('r, 'n) loaded \<Rightarrow> int \<times> ('r, 'n) loaded" where
  "JNI_OnLoad I RT NT l = I (registerAllNatives RT NT) l"

text \<open>\<open>SalvePushNativeAutolinking.load\<close> on iOS.\<close>

definition autolinking_load :: "(constructor, 'r) table_lib \<Rightarrow> ('r, 'n) loaded \<Rightarrow> ('r, 'n) loaded" where
  "autolinking_load RT l = l\<lparr>l_registry := t_add RT ''SalvePushNative'' IosConstructor (l_registry l)\<rparr>"

text \<open>The constructor lambdas; those of other libraries are a parameter.\<close>

definition run_constructor ::
    "hybrid_lib \<Rightarrow> (nat \<Rightarrow> heap \<Rightarrow> (fault + nat) \<times> heap) \<Rightarrow> constructor \<Rightarrow> heap \<Rightarrow> (fault + nat) \<times> heap" where
  "run_constructor G others c h =
     (case c of
        AndroidConstructor \<Rightarrow> JHybridSalvePushNativeSpecImpl_create G h
      | IosConstructor \<Rightarrow> (case createSalvePushNative h of (hybridObject, h') \<Rightarrow> (Inr hybridObject, h'))
      | ForeignConstructor k \<Rightarrow> others k h)"

section \<open>The prototype\<close>

text \<open>The members of the abstract class that JavaScript sees, and those of \<open>HybridObject\<close>.\<close>

datatype spec_method = InstallUpdate | NotifyAppReady | GetCurrentReleaseId | BaseMethod string

definition loadHybridMethods :: "(spec_method, 'p) table_lib \<Rightarrow> ('p \<Rightarrow> 'p) \<Rightarrow> 'p \<Rightarrow> 'p" where
  "loadHybridMethods PT base prototype =
     (let p0 = base prototype;
          p1 = t_add PT ''installUpdate'' InstallUpdate p0;
          p2 = t_add PT ''notifyAppReady'' NotifyAppReady p1
      in t_add PT ''getCurrentReleaseId'' GetCurrentReleaseId p2)"

text \<open>The virtual calls: an override per dynamic class; another class has none.\<close>

definition virtual_installUpdate ::
    "('p, 'x) promise_lib \<Rightarrow> ('r, 'j, 'x) source_lib \<Rightarrow> heap \<Rightarrow> nat \<Rightarrow> string \<Rightarrow> nat \<Rightarrow> ('p, 'j) bridge
       \<Rightarrow> (('x + nat) \<times> ('p, 'j) bridge) option" where
  "virtual_installUpdate PL SL h p releaseId bundle w =
     (case c_class (o_cpp h ! p) of
        SwiftSpec _ \<Rightarrow> Some (swift_spec_installUpdate PL SL releaseId bundle w)
      | JavaSpec _ \<Rightarrow> (case jni_installUpdate PL SL releaseId bundle w of (n, w') \<Rightarrow> Some (Inr n, w'))
      | OtherHybrid \<Rightarrow> None)"

definition virtual_notifyAppReady ::
    "('p, 'x) promise_lib \<Rightarrow> ('r, 'j, 'x) source_lib \<Rightarrow> heap \<Rightarrow> nat \<Rightarrow> ('p, 'j) bridge
       \<Rightarrow> (('x + nat) \<times> ('p, 'j) bridge) option" where
  "virtual_notifyAppReady PL SL h p w =
     (case c_class (o_cpp h ! p) of
        SwiftSpec _ \<Rightarrow> Some (swift_spec_notifyAppReady PL SL w)
      | JavaSpec _ \<Rightarrow> (case jni_notifyAppReady PL SL w of (n, w') \<Rightarrow> Some (Inr n, w'))
      | OtherHybrid \<Rightarrow> None)"

section \<open>What loading achieves\<close>

lemma natives_name [simp]: "CxxPart_descriptor @ ''initHybrid'' \<noteq> []"
  by (simp add: CxxPart_descriptor_def)

lemma prototype_methods:
  assumes "table_ok PT"
    and "\<forall>n \<in> {''installUpdate'', ''notifyAppReady'', ''getCurrentReleaseId''}. t_find PT n (base p) = None"
  shows "t_find PT ''installUpdate'' (loadHybridMethods PT base p) = Some InstallUpdate"
    "t_find PT ''notifyAppReady'' (loadHybridMethods PT base p) = Some NotifyAppReady"
    "t_find PT ''getCurrentReleaseId'' (loadHybridMethods PT base p) = Some GetCurrentReleaseId"
    "n \<notin> {''installUpdate'', ''notifyAppReady'', ''getCurrentReleaseId''} \<Longrightarrow>
       t_find PT n (loadHybridMethods PT base p) = t_find PT n (base p)"
proof -
  let ?p0 = "base p"
  let ?p1 = "t_add PT ''installUpdate'' InstallUpdate ?p0"
  let ?p2 = "t_add PT ''notifyAppReady'' NotifyAppReady ?p1"
  have 0: "t_find PT ''installUpdate'' ?p0 = None" "t_find PT ''notifyAppReady'' ?p0 = None"
    "t_find PT ''getCurrentReleaseId'' ?p0 = None" using assms(2) by simp_all
  note a = table_okD [OF assms(1) 0(1), where v = InstallUpdate]
  have 1: "t_find PT ''notifyAppReady'' ?p1 = None" "t_find PT ''getCurrentReleaseId'' ?p1 = None"
    using a(2) 0(2,3) by simp_all
  note b = table_okD [OF assms(1) 1(1), where v = NotifyAppReady]
  have 2: "t_find PT ''getCurrentReleaseId'' ?p2 = None" using b(2) 1(2) by simp
  note c = table_okD [OF assms(1) 2, where v = GetCurrentReleaseId]
  show "t_find PT ''installUpdate'' (loadHybridMethods PT base p) = Some InstallUpdate"
    "t_find PT ''notifyAppReady'' (loadHybridMethods PT base p) = Some NotifyAppReady"
    "t_find PT ''getCurrentReleaseId'' (loadHybridMethods PT base p) = Some GetCurrentReleaseId"
    using a b c by (simp_all add: loadHybridMethods_def Let_def)
  show "t_find PT n (loadHybridMethods PT base p) = t_find PT n (base p)"
    if "n \<notin> {''installUpdate'', ''notifyAppReady'', ''getCurrentReleaseId''}"
    using that a(2) [where m = n] b(2) [where m = n] c(2) [where m = n] by (simp add: loadHybridMethods_def Let_def)
qed

lemma createSalvePushNative_class:
  assumes "well_owned h g" and "createSalvePushNative h = (p, h')"
  shows "\<exists>s. c_class (o_cpp h' ! p) = SwiftSpec s"
proof -
  obtain i h1 s h2 h3 where o: "HybridSalvePushNative_init h = (i, h1)" "getCxxWrapper i h1 = (s, h2)"
      "getCxxPart s h2 = (p, h3)" and h': "h' = release_impl i (release_wrap s h3)"
    using assms(2) by (auto simp: createSalvePushNative_def split: prod.splits)
  note w1 = init_owned [OF assms(1) o(1)]
  have w2: "well_owned h2 (add_wrap s (add_impl i g))" using getCxxWrapper_owned(1) [OF w1 _ o(2)] by simp
  note k = getCxxPart_owned [OF w2 _ o(3), simplified]
  have l: "linked h3" and a: "alive_wrap s h3"
    using k(1) held(2) [of h3 "add_shared p (add_wrap s (add_impl i g))" s] by (simp_all add: well_owned_def)
  have c: "p < length (o_cpp h3) \<and> c_class (o_cpp h3 ! p) = SwiftSpec s"
    using linkedD(2) [OF l _ k(2)] a by (simp add: alive_wrap_def)
  have "same_links h3 h'" unfolding h'
    by (rule same_links_trans [OF same_links_release_wrap same_links_counts(3)])
  with c same_linksD(5) [of h3 h' p] show ?thesis by simp
qed

section \<open>Properties\<close>

definition map_table :: "('v, string \<rightharpoonup> 'v) table_lib" where
  "map_table = \<lparr>t_add = (\<lambda>n v t. t(n \<mapsto> v)), t_find = (\<lambda>n t. t n)\<rparr>"

lemma map_table_ok [simp]: "table_ok map_table"
  by (simp add: table_ok_def map_table_def)

definition sample_init :: "'l jni_init" where
  "sample_init f l = (0x00010006, f l)"

lemma sample_init_ok [simp]: "jni_init_ok sample_init"
  by (simp add: jni_init_ok_def sample_init_def)

definition nothing_loaded :: "(string \<rightharpoonup> constructor, string \<rightharpoonup> jni_method) loaded" where
  "nothing_loaded = \<lparr>l_registry = Map.empty, l_natives = Map.empty\<rparr>"

text \<open>C38. Android, from loading to a call: \<open>JNI_OnLoad\<close> answers the JNI version, leaves every other name of the
  registry alone and registers \<open>SalvePushNative\<close>; its constructor always succeeds and gives the program a C++
  object over a new, globally referenced Java object, and \<open>installUpdate\<close> on that object is the JNI one.\<close>

theorem android_module_loads:
  assumes "table_ok RT" and "table_ok NT" and "jni_init_ok I" and "hybrid_lib_ok G"
    and "t_find RT ''SalvePushNative'' (l_registry l) = None" and "JNI_OnLoad I RT NT l = (version, l')"
    and "own_reach G (h, g)"
  shows "version = 0x00010006
    \<and> (\<forall>n. n \<noteq> ''SalvePushNative'' \<longrightarrow> t_find RT n (l_registry l') = t_find RT n (l_registry l))
    \<and> (\<exists>c p h'. t_find RT ''SalvePushNative'' (l_registry l') = Some c
         \<and> run_constructor G others c h = (Inr p, h') \<and> own_reach G (h', g\<lparr>h_shared := add_mset p (h_shared g)\<rparr>)
         \<and> 0 < j_globals (o_java h' ! length (o_java h)) \<and> getJavaPart p h' = Some (length (o_java h))
         \<and> (\<forall>i b w. virtual_installUpdate PL SL h' p i b w
              = (case jni_installUpdate PL SL i b w of (n, w') \<Rightarrow> Some (Inr n, w'))))"
proof -
  have l: "version = 0x00010006" "l' = registerAllNatives RT NT l"
    using assms(3,6) by (auto simp: JNI_OnLoad_def jni_init_ok_def)
  have r: "l_registry l' = t_add RT ''SalvePushNative'' AndroidConstructor (l_registry l)"
    by (simp add: l registerAllNatives_def CxxPart_registerNatives_def Let_def)
  note t = table_okD [OF assms(1,5), where v = AndroidConstructor]
  have w: "well_owned h g" using own_reach_well_owned [OF assms(7,4)] by simp
  obtain p h' where c: "JHybridSalvePushNativeSpecImpl_create G h = (Inr p, h')"
    and p: "well_owned h' (add_shared p g)" "alive_cpp p h'" "c_class (o_cpp h' ! p) = JavaSpec (length (o_java h))"
    using Impl_create_owned [OF assms(4) w] by (metis prod.collapse)
  have g: "0 < j_globals (o_java h' ! length (o_java h))"
    using kept(3) p unfolding well_owned_def by blast
  have reach: "own_reach G (h', add_shared p g)"
    by (rule own_reach.step [OF assms(7) own_step.java_create [OF c]])
  have run: "run_constructor G others AndroidConstructor h = (Inr p, h')" by (simp add: run_constructor_def c)
  have "\<forall>n. n \<noteq> ''SalvePushNative'' \<longrightarrow> t_find RT n (l_registry l') = t_find RT n (l_registry l)"
    using t(2) r by simp
  moreover have "\<exists>c p h'. t_find RT ''SalvePushNative'' (l_registry l') = Some c
         \<and> run_constructor G others c h = (Inr p, h') \<and> own_reach G (h', add_shared p g)
         \<and> 0 < j_globals (o_java h' ! length (o_java h)) \<and> getJavaPart p h' = Some (length (o_java h))
         \<and> (\<forall>i b w. virtual_installUpdate PL SL h' p i b w
              = (case jni_installUpdate PL SL i b w of (n, w') \<Rightarrow> Some (Inr n, w')))"
    by (intro exI [of _ AndroidConstructor] exI [of _ p] exI [of _ h'])
       (simp add: r t(1) run reach g getJavaPart_def p(3) virtual_installUpdate_def)
  ultimately show ?thesis using l(1) by blast
qed

theorem android_module_loads_witness:
  "\<exists>c p h'. t_find map_table ''SalvePushNative'' (l_registry (snd (JNI_OnLoad sample_init map_table map_table nothing_loaded))) = Some c
     \<and> run_constructor fresh_lib (\<lambda>_ h. (Inl NullDereference, h)) c no_objects = (Inr p, h') \<and> getJavaPart p h' = Some 0"
proof -
  have f: "t_find map_table ''SalvePushNative'' (l_registry nothing_loaded) = None"
    by (simp add: map_table_def nothing_loaded_def)
  have l: "JNI_OnLoad sample_init map_table map_table nothing_loaded
      = (0x00010006, snd (JNI_OnLoad sample_init map_table map_table nothing_loaded))"
    by (simp add: JNI_OnLoad_def sample_init_def)
  from android_module_loads [where others = "\<lambda>_ h. (Inl NullDereference, h)"
      and PL = "sample_promises :: (throwable outcome, throwable) promise_lib" and SL = sample_sources,
      OF map_table_ok map_table_ok sample_init_ok fresh_lib_ok f l own_reach.start]
  show ?thesis by (auto simp: no_objects_def)
qed

text \<open>iOS, from loading to a call: the class's \<open>load\<close> registers \<open>SalvePushNative\<close>; its constructor always
  succeeds and gives the program the C++ part of a new Swift object, which keeps that object alive, and
  \<open>installUpdate\<close> on it is the Swift one.\<close>

theorem ios_module_loads:
  assumes "table_ok RT" and "hybrid_lib_ok G" and "t_find RT ''SalvePushNative'' (l_registry l) = None"
    and "own_reach G (h, g)"
  shows "\<exists>c p h' s. t_find RT ''SalvePushNative'' (l_registry (autolinking_load RT l)) = Some c
         \<and> run_constructor G others c h = (Inr p, h') \<and> own_reach G (h', g\<lparr>h_shared := add_mset p (h_shared g)\<rparr>)
         \<and> getSwiftPart p h' = Some s \<and> 0 < s_retains (o_wrap h' ! s) \<and> 0 < i_retains (o_impl h' ! s_impl (o_wrap h' ! s))
         \<and> (\<forall>i b w. virtual_installUpdate PL SL h' p i b w = Some (swift_spec_installUpdate PL SL i b w))"
proof -
  have r: "t_find RT ''SalvePushNative'' (l_registry (autolinking_load RT l)) = Some IosConstructor"
    using table_okD(1) [OF assms(1,3)] by (simp add: autolinking_load_def)
  obtain p h' where c: "createSalvePushNative h = (p, h')" by (cases "createSalvePushNative h")
  have reach: "own_reach G (h', add_shared p g)"
    by (rule own_reach.step [OF assms(4) own_step.autolink [OF c]])
  have w: "well_owned h g" and w': "well_owned h' (add_shared p g)"
    using own_reach_well_owned [OF assms(4,2)] own_reach_well_owned [OF reach assms(2)] by simp_all
  obtain s where s: "c_class (o_cpp h' ! p) = SwiftSpec s" using createSalvePushNative_class [OF w c] by blast
  have a: "alive_cpp p h'" using held(1) w' unfolding well_owned_def by fastforce
  have k: "alive_wrap s h'" using kept(1) w' a s unfolding well_owned_def by blast
  have i: "0 < i_retains (o_impl h' ! s_impl (o_wrap h' ! s))" using kept(2) w' k unfolding well_owned_def by blast
  show ?thesis
    by (intro exI [of _ IosConstructor] exI [of _ p] exI [of _ h'] exI [of _ s])
       (use k in \<open>simp add: r reach i s run_constructor_def c getSwiftPart_def virtual_installUpdate_def alive_wrap_def\<close>)
qed

theorem ios_module_loads_witness:
  "\<exists>c p h' s. t_find map_table ''SalvePushNative'' (l_registry (autolinking_load map_table nothing_loaded)) = Some c
     \<and> run_constructor fresh_lib (\<lambda>_ h. (Inl NullDereference, h)) c no_objects = (Inr p, h') \<and> getSwiftPart p h' = Some s"
proof -
  have f: "t_find map_table ''SalvePushNative'' (l_registry nothing_loaded) = None"
    by (simp add: map_table_def nothing_loaded_def)
  from ios_module_loads [where others = "\<lambda>_ h. (Inl NullDereference, h)"
      and PL = "sample_promises :: (serror outcome, serror) promise_lib" and SL = sample_sources,
      OF map_table_ok fresh_lib_ok f own_reach.start]
  show ?thesis by blast
qed

text \<open>The prototype of the object has exactly three members beyond those of \<open>HybridObject\<close>, each bound to the
  method of its name, and leaves the inherited ones as they were.\<close>

theorem prototype_is_the_spec:
  assumes "table_ok PT"
    and "\<forall>n \<in> {''installUpdate'', ''notifyAppReady'', ''getCurrentReleaseId''}. t_find PT n (base p) = None"
  shows "t_find PT n (loadHybridMethods PT base p)
    = (if n = ''installUpdate'' then Some InstallUpdate else if n = ''notifyAppReady'' then Some NotifyAppReady
       else if n = ''getCurrentReleaseId'' then Some GetCurrentReleaseId else t_find PT n (base p))"
  using prototype_methods [where base = base and p = p, OF assms] by simp

theorem prototype_is_the_spec_witness:
  "t_find map_table ''installUpdate'' (loadHybridMethods map_table (\<lambda>p. p(''toString'' \<mapsto> BaseMethod ''toString'')) Map.empty)
     = Some InstallUpdate"
  using prototype_is_the_spec [OF map_table_ok, where base = "\<lambda>p. p(''toString'' \<mapsto> BaseMethod ''toString'')" and p = Map.empty
      and n = "''installUpdate''"]
  by (simp add: map_table_def)

end
