(* ===== verification/NitroCalls.thy ===== *)
theory NitroCalls
  imports NitroLoading
begin

text \<open>
  Calls across the language border that can go wrong: asking a C++ object of another class for its Swift part,
  and calling a Swift closure through its C++ wrapper.
\<close>

section \<open>The Swift part of an object that has none\<close>

lemma copy_drop_shared: "alive_cpp p h \<Longrightarrow> drop_shared p (copy_shared p h) = h"
  by (simp add: alive_cpp_def drop_shared_def copy_shared_def Let_def)

text \<open>A C++ object that is not implemented in Swift, or a null pointer, has no Swift part: a debug build throws
  and leaves every count as it was, a release build dereferences the null pointer its cast gave it.\<close>

theorem foreign_object_has_no_swift_part:
  assumes "own_reach G (h, g)" and "hybrid_lib_ok G"
    and "case ptr of None \<Rightarrow> True | Some p \<Rightarrow> p \<in># h_shared g \<and> (\<forall>s. c_class (o_cpp h ! p) \<noteq> SwiftSpec s)"
  shows "get_std__shared_ptr_HybridSalvePushNativeSpec True ptr h
      = (Inl (RuntimeError ''Class \"HybridSalvePushNativeSpec\" is not implemented in Swift!''), h)
    \<and> fst (get_std__shared_ptr_HybridSalvePushNativeSpec False ptr h) = Inl NullDereference"
proof (cases ptr)
  case (Some p)
  have w: "well_owned h g" using own_reach_well_owned [OF assms(1,2)] by simp
  have "p \<in># h_shared g" using assms(3) Some by simp
  then have a: "alive_cpp p h" using held(1) w unfolding well_owned_def by blast
  have "getSwiftPart p h = None" using assms(3) Some by (auto simp: getSwiftPart_def split: cpp_class.split)
  with Some show ?thesis
    by (simp add: get_std__shared_ptr_HybridSalvePushNativeSpec_def Let_def copy_drop_shared [OF a])
next
  case None
  then show ?thesis by (simp add: get_std__shared_ptr_HybridSalvePushNativeSpec_def)
qed

lemma sample_android:
  "\<exists>h. own_reach fresh_lib (h, add_shared 0 no_owners) \<and> c_class (o_cpp h ! 0) = JavaSpec 0"
proof -
  let ?c = "JHybridSalvePushNativeSpecImpl_create fresh_lib no_objects"
  have c: "?c = (Inr 0, snd ?c)" and k: "c_class (o_cpp (snd ?c) ! 0) = JavaSpec 0"
    by (simp_all add: JHybridSalvePushNativeSpecImpl_create_def getJHybridSalvePushNativeSpec_def fresh_lib_def
        createHybridObject_def instance_of_JavaPart_def JHybridSalvePushNativeSpec_new_def make_shared_def
        make_global_def no_objects_def Let_def)
  show ?thesis
    using own_reach.step [OF own_reach.start own_step.java_create [OF c]] k by blast
qed

theorem foreign_object_has_no_swift_part_witness:
  "\<exists>h. c_class (o_cpp h ! 0) = JavaSpec 0
     \<and> fst (get_std__shared_ptr_HybridSalvePushNativeSpec False (Some 0) h) = Inl NullDereference"
proof -
  obtain h where h: "own_reach fresh_lib (h, add_shared 0 no_owners)" "c_class (o_cpp h ! 0) = JavaSpec 0"
    using sample_android by blast
  from foreign_object_has_no_swift_part [OF h(1) fresh_lib_ok, of "Some 0"] h(2) show ?thesis by auto
qed

section \<open>Closures\<close>

text \<open>A Swift closure handed to C++ runs exactly its own body, once per call and with the error it is given;
  the \<open>std::function\<close> takes over the reference of the raw pointer, so dropping the function gives back the count
  from before. A wrapper whose function was moved out must not be called.\<close>

theorem swift_closures_run:
  assumes "c < length cs" and "closure_toUnsafe c cs = (r, cs1)" and "create_Func_void r cs1 = (f, cs2)"
    and "c' < length ds" and "closure_toUnsafe c' ds = (r', ds1)"
    and "create_Func_void_std__exception_ptr r' ds1 = (f', ds2)"
  shows "Func_void_Wrapper_call (wrap_Func_void f) cs2 w = Inr (f_body (cs ! c) w)
    \<and> Func_void_std__exception_ptr_Wrapper_call (wrap_Func_void_std__exception_ptr f') ds2 x w
        = Inr (f_body (ds ! c') x w)
    \<and> drop_function f cs2 = cs \<and> drop_function f' ds2 = ds
    \<and> (case move_wrapper (wrap_Func_void f) of (target, source) \<Rightarrow>
         Func_void_Wrapper_call target cs2 w = Inr (f_body (cs ! c) w)
         \<and> Func_void_Wrapper_call source cs2 w = Inl NullFunction)"
  using assms
  by (auto simp: closure_toUnsafe_def create_Func_void_def create_Func_void_std__exception_ptr_def wrap_Func_void_def
      wrap_Func_void_std__exception_ptr_def Func_void_Wrapper_call_def Func_void_std__exception_ptr_Wrapper_call_def
      drop_function_def move_wrapper_def Let_def)

theorem swift_closures_run_witness:
  "Func_void_Wrapper_call (wrap_Func_void (Some 0)) [\<lparr>f_retains = 2, f_body = \<lambda>w. w + (1 :: int)\<rparr>] 41 = Inr 42"
proof -
  let ?c = "\<lparr>f_retains = 1, f_body = \<lambda>w. w + (1 :: int)\<rparr>"
  let ?d = "\<lparr>f_retains = 1, f_body = \<lambda>x w. w + (x :: int)\<rparr>"
  have "closure_toUnsafe 0 [?c] = (0, [?c\<lparr>f_retains := 2\<rparr>])" "closure_toUnsafe 0 [?d] = (0, [?d\<lparr>f_retains := 2\<rparr>])"
    by (simp_all add: closure_toUnsafe_def)
  moreover have "create_Func_void 0 [?c\<lparr>f_retains := 2\<rparr>] = (Some 0, [?c\<lparr>f_retains := 2\<rparr>])"
    "create_Func_void_std__exception_ptr 0 [?d\<lparr>f_retains := 2\<rparr>] = (Some 0, [?d\<lparr>f_retains := 2\<rparr>])"
    by (simp_all add: create_Func_void_def create_Func_void_std__exception_ptr_def)
  ultimately show ?thesis
    using swift_closures_run [of 0 "[?c]" 0 "[?c\<lparr>f_retains := 2\<rparr>]" "Some 0" "[?c\<lparr>f_retains := 2\<rparr>]"
        0 "[?d]" 0 "[?d\<lparr>f_retains := 2\<rparr>]" "Some 0" "[?d\<lparr>f_retains := 2\<rparr>]" 41] by simp
qed

end
