(* ===== verification/Signing.thy ===== *)
theory Signing
  imports Prelude
begin

text \<open>
  The signature of a release, \<open>packages/protocol/src/signing.ts\<close>: the canonical message, its signature by the
  developer and its verification on the device. The cryptographic library, the hex printer, \<open>TextEncoder\<close> and the
  base64 functions of the JavaScript platform are the parameter \<open>crypto\<close>; byte arrays and strings are strings.
\<close>

record crypto =
  sha256 :: "string \<Rightarrow> string"
  bytesToHex :: "string \<Rightarrow> string"
  utf8 :: "string \<Rightarrow> string"
  atob :: "string \<Rightarrow> string option"
  btoa :: "string \<Rightarrow> string"
  getPublicKey :: "string \<Rightarrow> string"
  ed25519_sign :: "string \<Rightarrow> string \<Rightarrow> string option"
  ed25519_verify :: "string \<Rightarrow> string \<Rightarrow> string \<Rightarrow> bool option"

text \<open>
  What is documented: hexadecimal text has hexadecimal digits only, which UTF-8 keeps; UTF-8 encodes character by
  character; base64 round trips; a signature made with a 32-byte key verifies under its public key. \<open>None\<close> is a throw.
\<close>

definition hex_digits :: "char set" where
  "hex_digits = set ''0123456789abcdef''"

definition newline :: char where
  "newline = CHR 0x0A"

definition crypto_ok :: "crypto \<Rightarrow> bool" where
  "crypto_ok C \<longleftrightarrow> (\<forall>b. set (bytesToHex C b) \<subseteq> hex_digits) \<and> inj (bytesToHex C)
     \<and> (\<forall>s. set s \<subseteq> insert newline hex_digits \<longrightarrow> utf8 C s = s) \<and> (\<forall>s t. utf8 C (s @ t) = utf8 C s @ utf8 C t)
     \<and> (\<forall>b. atob C (btoa C b) = Some b)
     \<and> (\<forall>m k. length k = 32 \<longrightarrow> (\<exists>s. ed25519_sign C m k = Some s \<and> ed25519_verify C s m (getPublicKey C k) = Some True))"

text \<open>
  Only the developer can make signatures: when one of the signature texts \<open>S\<close> that reach the device verifies a
  message under the developer's key, that message is one of those \<open>M\<close> the developer signed.
\<close>

definition unforgeable :: "crypto \<Rightarrow> string \<Rightarrow> string set \<Rightarrow> string set \<Rightarrow> bool" where
  "unforgeable C publicKey S M \<longleftrightarrow>
     (\<forall>t \<in> S. \<forall>s m. atob C t = Some s \<longrightarrow> ed25519_verify C s m publicKey = Some True \<longrightarrow> m \<in> M)"

section \<open>The code\<close>

record signing_input =
  s_bundleHash :: string
  s_version :: string
  s_platform :: string
  s_channel :: string
  s_runtimeVersion :: string

text \<open>\<open>Array.prototype.join\<close>.\<close>

fun join :: "string \<Rightarrow> string list \<Rightarrow> string" where
  "join sep [] = []"
| "join sep [x] = x"
| "join sep (x # y # xs) = x @ sep @ join sep (y # xs)"

definition canonicalReleaseMessage :: "signing_input \<Rightarrow> string" where
  "canonicalReleaseMessage i = join [newline] [s_bundleHash i, s_version i, s_platform i, s_channel i, s_runtimeVersion i]"

definition sha256Hex :: "crypto \<Rightarrow> string \<Rightarrow> string" where
  "sha256Hex C bytes = bytesToHex C (sha256 C bytes)"

definition bytesToBase64 :: "crypto \<Rightarrow> string \<Rightarrow> string" where
  "bytesToBase64 C bytes = btoa C (fold (\<lambda>byte binary. binary @ [byte]) bytes [])"

text \<open>The loop writes the character codes into a zeroed array of the same length.\<close>

definition base64ToBytes :: "crypto \<Rightarrow> string \<Rightarrow> string option" where
  "base64ToBytes C base64 =
     map_option (\<lambda>binary. fold (\<lambda>i bytes. bytes[i := binary ! i]) [0..<length binary] (replicate (length binary) (CHR 0x00)))
       (atob C base64)"

definition signRelease :: "crypto \<Rightarrow> string \<Rightarrow> signing_input \<Rightarrow> string option" where
  "signRelease C privateKeyBase64 input =
     Option.bind (base64ToBytes C privateKeyBase64) (\<lambda>privateKey.
       let message = utf8 C (canonicalReleaseMessage input)
       in map_option (bytesToBase64 C) (ed25519_sign C message privateKey))"

definition verifyRelease :: "crypto \<Rightarrow> string \<Rightarrow> signing_input \<Rightarrow> string \<Rightarrow> bool" where
  "verifyRelease C publicKeyBase64 input signatureBase64 =
     (case Option.bind (base64ToBytes C publicKeyBase64) (\<lambda>publicKey.
             Option.bind (base64ToBytes C signatureBase64) (\<lambda>signature.
               let message = utf8 C (canonicalReleaseMessage input)
               in ed25519_verify C signature message publicKey)) of
        None \<Rightarrow> False | Some b \<Rightarrow> b)"

section \<open>Base64 loops\<close>

lemma collect_bytes [simp]: "fold (\<lambda>byte binary. binary @ [byte]) bytes acc = acc @ bytes"
  by (induction bytes arbitrary: acc) simp_all

lemma fill_bytes:
  "k \<le> length s \<Longrightarrow> fold (\<lambda>i bytes. bytes[i := s ! i]) [0..<k] (replicate (length s) z) = take k s @ replicate (length s - k) z"
proof (induction k)
  case (Suc k)
  then show ?case
    by (simp add: list_update_append take_Suc_conv_app_nth Suc_diff_Suc [symmetric] split: nat.split)
qed simp

lemma base64_loops [simp]:
  "bytesToBase64 C b = btoa C b" "base64ToBytes C t = atob C t"
proof -
  have "fold (\<lambda>i bytes. bytes[i := x ! i]) [0..<length x] (replicate (length x) z) = x" for x :: string and z
    using fill_bytes [of "length x" x z] by simp
  then show "bytesToBase64 C b = btoa C b" "base64ToBytes C t = atob C t"
    by (simp_all add: bytesToBase64_def base64ToBytes_def option.map_ident)
qed

section \<open>The message\<close>

lemma canonical_lines:
  "canonicalReleaseMessage i = s_bundleHash i @ [newline] @ s_version i @ [newline] @ s_platform i @ [newline]
     @ s_channel i @ [newline] @ s_runtimeVersion i"
  by (simp add: canonicalReleaseMessage_def)

lemma first_line:
  assumes "a @ [c] @ x = b @ [c] @ y" and "c \<notin> set a" and "c \<notin> set b"
  shows "a = b \<and> x = y"
proof -
  have "takeWhile (\<lambda>d. d \<noteq> c) (a @ c # x) = a" "takeWhile (\<lambda>d. d \<noteq> c) (b @ c # y) = b"
    using assms(2,3) by (auto simp: takeWhile_append)
  then show ?thesis using assms(1) by simp
qed

lemma hex_no_newline: "crypto_ok C \<Longrightarrow> newline \<notin> set (sha256Hex C b)"
  by (auto simp: crypto_ok_def sha256Hex_def hex_digits_def newline_def)

text \<open>The first line of the signed bytes is the hash, for any other fields.\<close>

lemma message_hash:
  assumes "crypto_ok C" and "utf8 C (canonicalReleaseMessage i) = utf8 C (canonicalReleaseMessage i')"
    and "s_bundleHash i = sha256Hex C b" and "s_bundleHash i' = sha256Hex C b'"
  shows "sha256Hex C b = sha256Hex C b'"
proof -
  have u: "utf8 C (s @ t) = utf8 C s @ utf8 C t" for s t using assms(1) by (simp add: crypto_ok_def)
  have n: "utf8 C [newline] = [newline]" using assms(1) by (simp add: crypto_ok_def)
  have h: "utf8 C (sha256Hex C x) = sha256Hex C x" for x
    using assms(1) unfolding crypto_ok_def sha256Hex_def by blast
  define rest :: "signing_input \<Rightarrow> string" where "rest j = s_version j @ [newline] @ s_platform j @ [newline] @ s_channel j @ [newline] @ s_runtimeVersion j" for j
  have m: "utf8 C (canonicalReleaseMessage j) = utf8 C (s_bundleHash j) @ [newline] @ utf8 C (rest j)" for j
    unfolding canonical_lines rest_def [symmetric] by (simp only: u n)
  have "sha256Hex C b @ [newline] @ utf8 C (rest i) = sha256Hex C b' @ [newline] @ utf8 C (rest i')"
    using assms(2) unfolding m assms(3,4) h .
  from first_line [OF this hex_no_newline [OF assms(1)] hex_no_newline [OF assms(1)]] show ?thesis ..
qed

text \<open>A signature verifies for the release it was made for.\<close>

lemma sign_verify:
  assumes "crypto_ok C" and "length k = 32"
  shows "\<exists>s. signRelease C (bytesToBase64 C k) i = Some s \<and> verifyRelease C (bytesToBase64 C (getPublicKey C k)) i s"
proof -
  obtain s where "ed25519_sign C (utf8 C (canonicalReleaseMessage i)) k = Some s"
    "ed25519_verify C s (utf8 C (canonicalReleaseMessage i)) (getPublicKey C k) = Some True"
    using assms unfolding crypto_ok_def by blast
  moreover have "atob C (btoa C x) = Some x" for x using assms(1) by (simp add: crypto_ok_def)
  ultimately show ?thesis
    by (intro exI [of _ "btoa C s"]) (simp add: signRelease_def verifyRelease_def Let_def)
qed

lemma verified_message:
  assumes "verifyRelease C K i t" and "atob C K = Some pub" and "unforgeable C pub S M" and "t \<in> S"
  shows "utf8 C (canonicalReleaseMessage i) \<in> M"
proof -
  obtain s where "atob C t = Some s" "ed25519_verify C s (utf8 C (canonicalReleaseMessage i)) pub = Some True"
    using assms(1,2) by (cases "atob C t") (auto simp: verifyRelease_def Let_def split: option.splits)
  with assms(3,4) show ?thesis unfolding unforgeable_def by blast
qed

section \<open>A sample library\<close>

text \<open>Hexadecimal text of a byte string, and a signature that carries its message.\<close>

definition sample_hex :: "string \<Rightarrow> string" where
  "sample_hex b = concat (map (\<lambda>c. [''0123456789abcdef'' ! (of_char c div 16 :: nat), ''0123456789abcdef'' ! (of_char c mod 16 :: nat)]) b)"

definition sample_crypto :: crypto where
  "sample_crypto = \<lparr>sha256 = (\<lambda>b. b), bytesToHex = sample_hex, utf8 = (\<lambda>s. s), atob = Some, btoa = (\<lambda>b. b),
     getPublicKey = (\<lambda>k. k), ed25519_sign = (\<lambda>m k. Some (k @ m)),
     ed25519_verify = (\<lambda>s m k. Some (s = k @ m))\<rparr>"

lemma hex_digit_inj: "a < 16 \<Longrightarrow> b < 16 \<Longrightarrow> ''0123456789abcdef'' ! a = ''0123456789abcdef'' ! b \<Longrightarrow> a = b"
  using nth_eq_iff_index_eq [of "''0123456789abcdef''" a b] by simp

lemma sample_hex_digits: "set (sample_hex b) \<subseteq> hex_digits"
proof -
  have "''0123456789abcdef'' ! n \<in> hex_digits" if "n < 16" for n :: nat
    using that unfolding hex_digits_def by (intro nth_mem) simp
  moreover have "(of_char c :: nat) div 16 < 16" "(of_char c :: nat) mod 16 < 16" for c
    using nat_of_char_less_256 [of c] by (simp_all add: less_mult_imp_div_less)
  ultimately show ?thesis by (auto simp: sample_hex_def)
qed

lemma sample_hex_inj: "sample_hex b = sample_hex b' \<Longrightarrow> b = b'"
proof (induction b arbitrary: b')
  case Nil
  then show ?case by (cases b') (simp_all add: sample_hex_def)
next
  case (Cons c b)
  then obtain c' d where b': "b' = c' # d" by (cases b') (auto simp: sample_hex_def)
  let ?n = "of_char c :: nat" and ?n' = "of_char c' :: nat"
  have "?n div 16 < 16" "?n' div 16 < 16"
    using nat_of_char_less_256 [of c] nat_of_char_less_256 [of c'] by (simp_all add: less_mult_imp_div_less)
  moreover from Cons.prems b' have "''0123456789abcdef'' ! (?n div 16) = ''0123456789abcdef'' ! (?n' div 16)"
    "''0123456789abcdef'' ! (?n mod 16) = ''0123456789abcdef'' ! (?n' mod 16)" "sample_hex b = sample_hex d"
    by (simp_all add: sample_hex_def)
  ultimately have "?n div 16 = ?n' div 16" "?n mod 16 = ?n' mod 16" and "b = d"
    using hex_digit_inj Cons.IH by simp_all
  then have "?n = ?n'" by (metis div_mult_mod_eq)
  with b' \<open>b = d\<close> show ?case by simp
qed

lemma sample_crypto_ok [simp]: "crypto_ok sample_crypto"
  using sample_hex_digits sample_hex_inj by (auto simp: crypto_ok_def sample_crypto_def inj_def)

end
