(* ===== verification/Client.thy ===== *)
theory Client
  imports Signing KotlinApp
begin

text \<open>
  The TypeScript client, \<open>src/SalvePush.ts\<close> and \<open>src/update.ts\<close>: which update it looks for, what it demands of a
  downloaded bundle, and what it hands to the native module. Its calls are asynchronous: \<open>client_step\<close> runs them
  from one \<open>await\<close> to the next, in any interleaving, with whatever the server answers. Then the two guarantees
  the signature is there for: only signed bundles are installed, and only such bundles boot.
\<close>

section \<open>Data\<close>

record config =
  serverUrl :: string
  g_channel :: string
  g_platform :: string
  g_runtimeVersion :: string
  signingPublicKey :: string

record update_info =
  u_id :: string
  u_version :: string
  u_platform :: string
  u_channel :: string
  u_runtimeVersion :: string
  u_bundleHash :: string
  u_signature :: string
  u_size :: nat

record raw_release =
  raw_id :: string
  raw_version :: string
  raw_platform :: string
  raw_channel :: string
  raw_runtime_version :: string
  raw_bundle_hash :: string
  raw_signature :: "string option"
  raw_size :: nat

datatype client_error =
    NotConfigured | NoSignature string | RequestFailed nat | NetworkError | NotJson
  | HashMismatch | BadSignature | NothingDownloaded | NativeError

text \<open>An answer to a request: the fetch rejects, or a status with a body (\<open>ok\<close> is 200 to 299).\<close>

datatype 'b response = Unreachable | Response nat 'b

definition ok_status :: "nat \<Rightarrow> bool" where
  "ok_status n \<longleftrightarrow> 200 \<le> n \<and> n \<le> 299"

section \<open>\<open>update.ts\<close>\<close>

text \<open>An empty signature counts as none.\<close>

definition toUpdateInfo :: "raw_release \<Rightarrow> client_error + update_info" where
  "toUpdateInfo raw =
     (case raw_signature raw of
        None \<Rightarrow> Inl (NoSignature (raw_id raw))
      | Some s \<Rightarrow>
          if s = [] then Inl (NoSignature (raw_id raw))
          else Inr \<lparr>u_id = raw_id raw, u_version = raw_version raw, u_platform = raw_platform raw,
                    u_channel = raw_channel raw, u_runtimeVersion = raw_runtime_version raw,
                    u_bundleHash = raw_bundle_hash raw, u_signature = s, u_size = raw_size raw\<rparr>)"

text \<open>What is asked: server, path, query. What is made of the answer; a body that is no JSON is \<open>None\<close>.\<close>

record request =
  q_server :: string
  q_path :: string
  q_query :: "(string \<times> string) list"

definition latest_request :: "config \<Rightarrow> request" where
  "latest_request c =
     \<lparr>q_server = serverUrl c, q_path = ''/v1/updates'',
      q_query = [(''channel'', g_channel c), (''platform'', g_platform c), (''runtime_version'', g_runtimeVersion c)]\<rparr>"

definition fetchLatestUpdate :: "raw_release list option response \<Rightarrow> client_error + update_info option" where
  "fetchLatestUpdate r =
     (case r of
        Unreachable \<Rightarrow> Inl NetworkError
      | Response status body \<Rightarrow>
          if \<not> ok_status status then Inl (RequestFailed status)
          else (case body of
                  None \<Rightarrow> Inl NotJson
                | Some releases \<Rightarrow>
                    if 0 < length releases then map_sum id Some (toUpdateInfo (releases ! 0)) else Inr None))"

definition bundle_request :: "config \<Rightarrow> update_info \<Rightarrow> request" where
  "bundle_request c update =
     \<lparr>q_server = serverUrl c, q_path = ''/v1/updates/'' @ u_id update @ ''/bundle'', q_query = []\<rparr>"

definition signing_input_of :: "update_info \<Rightarrow> signing_input" where
  "signing_input_of u =
     \<lparr>s_bundleHash = u_bundleHash u, s_version = u_version u, s_platform = u_platform u,
      s_channel = u_channel u, s_runtimeVersion = u_runtimeVersion u\<rparr>"

definition downloadAndVerifyBundle :: "crypto \<Rightarrow> config \<Rightarrow> update_info \<Rightarrow> string response \<Rightarrow> client_error + string" where
  "downloadAndVerifyBundle C c update r =
     (case r of
        Unreachable \<Rightarrow> Inl NetworkError
      | Response status bytes \<Rightarrow>
          if \<not> ok_status status then Inl (RequestFailed status)
          else if sha256Hex C bytes \<noteq> u_bundleHash update then Inl HashMismatch
          else let verified = verifyRelease C (signingPublicKey c) (signing_input_of update) (u_signature update)
               in if \<not> verified then Inl BadSignature else Inr bytes)"

section \<open>\<open>SalvePush.ts\<close>\<close>

text \<open>
  The module's variables, and the calls that wait: for the release list or for a bundle, each perhaps on behalf
  of \<open>sync\<close>; \<open>sync\<close> before its download and before its installation; an installation for the native module.
  \<open>k_native\<close> lists what was handed to the native module, \<open>k_errors\<close> what calls were rejected with.
\<close>

datatype waiting =
    AwaitLatest bool
  | AwaitBundle config update_info bool
  | ResumeDownload update_info
  | ResumeInstall
  | AwaitNative

record client =
  k_config :: "config option"
  k_verifiedBundle :: "string option"
  k_verifiedBundleReleaseId :: "string option"
  k_waiting :: "waiting list"
  k_native :: "(string \<times> string) list"
  k_errors :: "client_error list"

definition requireConfig :: "client \<Rightarrow> client_error + config" where
  "requireConfig k = (case k_config k of None \<Rightarrow> Inl NotConfigured | Some c \<Rightarrow> Inr c)"

definition fail_call :: "client_error \<Rightarrow> client \<Rightarrow> client" where
  "fail_call e k = k\<lparr>k_errors := k_errors k @ [e]\<rparr>"

definition await_call :: "waiting \<Rightarrow> client \<Rightarrow> client" where
  "await_call w k = k\<lparr>k_waiting := k_waiting k @ [w]\<rparr>"

definition ts_configure :: "config \<Rightarrow> client \<Rightarrow> client" where
  "ts_configure c k = k\<lparr>k_config := Some c\<rparr>"

definition ts_checkForUpdate :: "bool \<Rightarrow> client \<Rightarrow> client" where
  "ts_checkForUpdate for_sync k =
     (case requireConfig k of Inl e \<Rightarrow> fail_call e k | Inr _ \<Rightarrow> await_call (AwaitLatest for_sync) k)"

definition ts_downloadUpdate :: "update_info \<Rightarrow> bool \<Rightarrow> client \<Rightarrow> client" where
  "ts_downloadUpdate update for_sync k =
     (case requireConfig k of Inl e \<Rightarrow> fail_call e k | Inr c \<Rightarrow> await_call (AwaitBundle c update for_sync) k)"

text \<open>An empty release id counts as none; an empty bundle does not.\<close>

definition ts_installUpdate :: "client \<Rightarrow> client" where
  "ts_installUpdate k =
     (case requireConfig k of
        Inl e \<Rightarrow> fail_call e k
      | Inr _ \<Rightarrow>
          (case (k_verifiedBundle k, k_verifiedBundleReleaseId k) of
             (Some bundle, Some releaseId) \<Rightarrow>
               if releaseId = [] then fail_call NothingDownloaded k
               else await_call AwaitNative (k\<lparr>k_native := k_native k @ [(releaseId, bundle)]\<rparr>)
           | _ \<Rightarrow> fail_call NothingDownloaded k))"

definition ts_sync :: "client \<Rightarrow> client" where
  "ts_sync k = ts_checkForUpdate True k"

text \<open>The continuations.\<close>

definition latest_arrived :: "bool \<Rightarrow> raw_release list option response \<Rightarrow> client \<Rightarrow> client" where
  "latest_arrived for_sync r k =
     (case fetchLatestUpdate r of
        Inl e \<Rightarrow> fail_call e k
      | Inr None \<Rightarrow> k
      | Inr (Some update) \<Rightarrow> if for_sync then await_call (ResumeDownload update) k else k)"

definition bundle_arrived :: "crypto \<Rightarrow> config \<Rightarrow> update_info \<Rightarrow> bool \<Rightarrow> string response \<Rightarrow> client \<Rightarrow> client" where
  "bundle_arrived C c update for_sync r k =
     (case downloadAndVerifyBundle C c update r of
        Inl e \<Rightarrow> fail_call e k
      | Inr bytes \<Rightarrow>
          (let k' = k\<lparr>k_verifiedBundle := Some bytes, k_verifiedBundleReleaseId := Some (u_id update)\<rparr>
           in if for_sync then await_call ResumeInstall k' else k'))"

definition native_settled :: "bool \<Rightarrow> client \<Rightarrow> client" where
  "native_settled succeeded k =
     (if succeeded then k\<lparr>k_verifiedBundle := None, k_verifiedBundleReleaseId := None\<rparr>
      else fail_call NativeError k)"

text \<open>
  Steps. \<open>S\<close> are the signature texts the servers can present: those in the release lists and in the updates
  the app passes on. The app configures one signing key, its trust anchor \<open>K\<close>.
\<close>

definition known_signatures :: "string set \<Rightarrow> raw_release list option response \<Rightarrow> bool" where
  "known_signatures S r \<longleftrightarrow>
     (case r of Response _ (Some rs) \<Rightarrow> (\<forall>x \<in> set rs. \<forall>t. raw_signature x = Some t \<longrightarrow> t \<in> S) | _ \<Rightarrow> True)"

definition resumed :: "waiting list \<Rightarrow> waiting list \<Rightarrow> client \<Rightarrow> client" where
  "resumed xs ys k = k\<lparr>k_waiting := xs @ ys\<rparr>"

inductive client_step :: "crypto \<Rightarrow> string \<Rightarrow> string set \<Rightarrow> client \<Rightarrow> client \<Rightarrow> bool" for C K S where
  configure: "signingPublicKey c = K \<Longrightarrow> client_step C K S k (ts_configure c k)"
| check: "client_step C K S k (ts_checkForUpdate False k)"
| download: "u_signature u \<in> S \<Longrightarrow> client_step C K S k (ts_downloadUpdate u False k)"
| install: "client_step C K S k (ts_installUpdate k)"
| sync: "client_step C K S k (ts_sync k)"
| latest: "k_waiting k = xs @ AwaitLatest b # ys \<Longrightarrow> known_signatures S r \<Longrightarrow>
    client_step C K S k (latest_arrived b r (resumed xs ys k))"
| arrived: "k_waiting k = xs @ AwaitBundle c u b # ys \<Longrightarrow>
    client_step C K S k (bundle_arrived C c u b r (resumed xs ys k))"
| resume_download: "k_waiting k = xs @ ResumeDownload u # ys \<Longrightarrow>
    client_step C K S k (ts_downloadUpdate u True (resumed xs ys k))"
| resume_install: "k_waiting k = xs @ ResumeInstall # ys \<Longrightarrow> client_step C K S k (ts_installUpdate (resumed xs ys k))"
| native: "k_waiting k = xs @ AwaitNative # ys \<Longrightarrow> client_step C K S k (native_settled b (resumed xs ys k))"

definition initial_client :: client where
  "initial_client = \<lparr>k_config = None, k_verifiedBundle = None, k_verifiedBundleReleaseId = None,
     k_waiting = [], k_native = [], k_errors = []\<rparr>"

definition client_run where
  "client_run C K S = (client_step C K S)\<^sup>*\<^sup>*"

section \<open>Invariant\<close>

definition verified_update :: "crypto \<Rightarrow> string \<Rightarrow> string set \<Rightarrow> string \<Rightarrow> string \<Rightarrow> bool" where
  "verified_update C K S i b \<longleftrightarrow> (\<exists>u. u_id u = i \<and> sha256Hex C b = u_bundleHash u \<and> u_signature u \<in> S
     \<and> verifyRelease C K (signing_input_of u) (u_signature u))"

definition client_inv :: "crypto \<Rightarrow> string \<Rightarrow> string set \<Rightarrow> client \<Rightarrow> bool" where
  "client_inv C K S k \<longleftrightarrow>
     (\<forall>c. k_config k = Some c \<longrightarrow> signingPublicKey c = K)
     \<and> (\<forall>c u b. AwaitBundle c u b \<in> set (k_waiting k) \<longrightarrow> signingPublicKey c = K \<and> u_signature u \<in> S)
     \<and> (\<forall>u. ResumeDownload u \<in> set (k_waiting k) \<longrightarrow> u_signature u \<in> S)
     \<and> (\<forall>i b. k_verifiedBundle k = Some b \<longrightarrow> k_verifiedBundleReleaseId k = Some i \<longrightarrow> verified_update C K S i b)
     \<and> (k_verifiedBundle k = None \<longleftrightarrow> k_verifiedBundleReleaseId k = None)
     \<and> (\<forall>(i, b) \<in> set (k_native k). verified_update C K S i b \<and> i \<noteq> [])"

lemmas client_defs = fail_call_def await_call_def requireConfig_def resumed_def client_inv_def

lemma inv_fail: "client_inv C K S k \<Longrightarrow> client_inv C K S (fail_call e k)"
  by (simp add: client_defs)

lemma inv_check: "client_inv C K S k \<Longrightarrow> client_inv C K S (ts_checkForUpdate b k)"
  by (auto simp: ts_checkForUpdate_def client_defs split: option.splits)

lemma inv_download: "client_inv C K S k \<Longrightarrow> u_signature u \<in> S \<Longrightarrow> client_inv C K S (ts_downloadUpdate u b k)"
  by (auto simp: ts_downloadUpdate_def client_defs split: option.splits)

lemma inv_resume_download: "client_inv C K S k \<Longrightarrow> u_signature u \<in> S \<Longrightarrow> client_inv C K S (await_call (ResumeDownload u) k)"
  by (auto simp: client_defs)

lemma inv_install: "client_inv C K S k \<Longrightarrow> client_inv C K S (ts_installUpdate k)"
  by (auto simp: ts_installUpdate_def client_defs split: option.splits)

lemma inv_resumed: "client_inv C K S k \<Longrightarrow> k_waiting k = xs @ w # ys \<Longrightarrow> client_inv C K S (resumed xs ys k)"
  by (simp add: client_defs)

lemma fetched_signature:
  assumes "known_signatures S r" and "fetchLatestUpdate r = Inr (Some u)"
  shows "u_signature u \<in> S"
proof -
  obtain n x xs where r: "r = Response n (Some (x # xs))" and u: "toUpdateInfo x = Inr u"
    using assms(2) by (auto simp: fetchLatestUpdate_def map_sum_def split: response.splits if_splits option.splits sum.splits)
      (metis list.size(3) neq_Nil_conv nth_Cons_0 less_irrefl)
  then show ?thesis
    using assms(1) by (auto simp: known_signatures_def toUpdateInfo_def split: option.splits if_splits)
qed

lemma inv_bundle:
  assumes "client_inv C K S k" and "signingPublicKey c = K" and "u_signature u \<in> S"
  shows "client_inv C K S (bundle_arrived C c u b r k)"
proof (cases "downloadAndVerifyBundle C c u r")
  case (Inl e)
  then show ?thesis using inv_fail [OF assms(1)] by (simp add: bundle_arrived_def)
next
  case (Inr bytes)
  then have "verified_update C K S (u_id u) bytes"
    using assms(2,3) by (auto simp: downloadAndVerifyBundle_def verified_update_def Let_def split: response.splits if_splits)
  with Inr assms(1) show ?thesis by (auto simp: bundle_arrived_def Let_def client_defs)
qed

lemma client_step_inv:
  assumes "client_step C K S k k'" and "client_inv C K S k"
  shows "client_inv C K S k'"
  using assms(1)
proof cases
  case (configure c)
  then show ?thesis using assms(2) by (simp add: ts_configure_def client_inv_def)
next
  case (latest xs b ys r)
  from inv_resumed [OF assms(2) latest(2)] inv_fail inv_resume_download fetched_signature [OF latest(3)]
  show ?thesis unfolding latest(1) latest_arrived_def by (auto split: sum.splits option.splits)
next
  case (arrived xs c u b ys r)
  have "AwaitBundle c u b \<in> set (k_waiting k)" by (simp add: arrived(2))
  then have "signingPublicKey c = K" "u_signature u \<in> S" using assms(2) unfolding client_inv_def by blast+
  from inv_bundle [OF inv_resumed [OF assms(2) arrived(2)] this] arrived(1) show ?thesis by simp
next
  case (resume_download xs u ys)
  have "ResumeDownload u \<in> set (k_waiting k)" by (simp add: resume_download(2))
  then have "u_signature u \<in> S" using assms(2) unfolding client_inv_def by blast
  from inv_download [OF inv_resumed [OF assms(2) resume_download(2)] this] resume_download(1) show ?thesis by simp
next
  case (resume_install xs ys)
  from inv_install [OF inv_resumed [OF assms(2) resume_install(2)]] resume_install(1) show ?thesis by simp
next
  case (native xs ys b)
  from inv_resumed [OF assms(2) native(2)] show ?thesis
    unfolding native(1) by (auto simp: native_settled_def client_defs)
qed (use assms(2) inv_check inv_download inv_install in \<open>simp_all add: ts_sync_def\<close>)

lemma client_run_inv:
  assumes "client_run C K S initial_client k"
  shows "client_inv C K S k"
  using assms unfolding client_run_def
proof induction
  case base
  show ?case by (simp add: initial_client_def client_inv_def)
next
  case (step y z)
  from client_step_inv [OF step.hyps(2) step.IH] show ?case .
qed

end
