(* ===== verification/ClientProps.thy ===== *)
theory ClientProps
  imports Client
begin

text \<open>
  What the signature protects: the developer's builds (\<open>packages/cli/src/release.ts\<close>) are the only bundles the
  client installs and the only ones the device boots; and what it does not protect: the channel, the platform and
  the runtime version are signed, but the client compares them with nothing.
\<close>

section \<open>The developer's side\<close>

record build =
  e_bytes :: string
  e_version :: string
  e_platform :: string
  e_channel :: string
  e_runtimeVersion :: string

definition build_input :: "crypto \<Rightarrow> build \<Rightarrow> signing_input" where
  "build_input C e = \<lparr>s_bundleHash = sha256Hex C (e_bytes e), s_version = e_version e, s_platform = e_platform e,
     s_channel = e_channel e, s_runtimeVersion = e_runtimeVersion e\<rparr>"

text \<open>\<open>buildReleasePayload\<close>: hash, signature and bytes of the upload.\<close>

definition buildReleasePayload :: "crypto \<Rightarrow> string \<Rightarrow> build \<Rightarrow> (string \<times> string \<times> string) option" where
  "buildReleasePayload C privateKey e =
     (let bundleHash = sha256Hex C (e_bytes e)
      in map_option (\<lambda>signature. (bundleHash, signature, e_bytes e)) (signRelease C privateKey (build_input C e)))"

definition signed_messages :: "crypto \<Rightarrow> build set \<Rightarrow> string set" where
  "signed_messages C R = (\<lambda>e. utf8 C (canonicalReleaseMessage (build_input C e))) ` R"

definition no_second_preimage :: "crypto \<Rightarrow> build set \<Rightarrow> bool" where
  "no_second_preimage C R \<longleftrightarrow> (\<forall>e \<in> R. \<forall>b. sha256 C b = sha256 C (e_bytes e) \<longrightarrow> b = e_bytes e)"

lemma verified_is_built:
  assumes "crypto_ok C" and "atob C K = Some pub" and "unforgeable C pub S (signed_messages C R)"
    and "no_second_preimage C R" and "verified_update C K S i b"
  shows "b \<in> e_bytes ` R"
proof -
  obtain u where u: "sha256Hex C b = u_bundleHash u" "u_signature u \<in> S"
    "verifyRelease C K (signing_input_of u) (u_signature u)"
    using assms(5) by (auto simp: verified_update_def)
  obtain e where e: "e \<in> R"
    "utf8 C (canonicalReleaseMessage (signing_input_of u)) = utf8 C (canonicalReleaseMessage (build_input C e))"
    using verified_message [OF u(3) assms(2,3) u(2)] by (auto simp: signed_messages_def)
  have "sha256Hex C b = sha256Hex C (e_bytes e)"
    by (rule message_hash [OF assms(1) e(2)]) (simp_all add: signing_input_of_def u(1) build_input_def)
  then have "sha256 C b = sha256 C (e_bytes e)" using assms(1) by (simp add: crypto_ok_def sha256Hex_def inj_eq)
  with assms(4) e(1) show ?thesis by (auto simp: no_second_preimage_def)
qed

section \<open>Sample keys and builds\<close>

definition sample_key :: string where
  "sample_key = replicate 32 (CHR ''k'')"

definition sample_build :: build where
  "sample_build = \<lparr>e_bytes = ''ok'', e_version = ''1.5.0'', e_platform = ''ios'', e_channel = ''development'', e_runtimeVersion = ''1.5''\<rparr>"

definition sample_signature :: string where
  "sample_signature = sample_key @ canonicalReleaseMessage (build_input sample_crypto sample_build)"

definition sample_config :: config where
  "sample_config = \<lparr>serverUrl = ''https://ota.example.com'', g_channel = ''production'', g_platform = ''ios'',
     g_runtimeVersion = ''1.5'', signingPublicKey = sample_key\<rparr>"

definition sample_raw :: raw_release where
  "sample_raw = \<lparr>raw_id = ''r1'', raw_version = ''1.5.0'', raw_platform = ''ios'', raw_channel = ''development'',
     raw_runtime_version = ''1.5'', raw_bundle_hash = sha256Hex sample_crypto ''ok'', raw_signature = Some sample_signature, raw_size = 2\<rparr>"

lemma sample_facts:
  "unforgeable sample_crypto sample_key {sample_signature} (signed_messages sample_crypto {sample_build})"
  "no_second_preimage sample_crypto R" "atob sample_crypto sample_key = Some sample_key"
  by (simp_all add: unforgeable_def sample_crypto_def sample_signature_def signed_messages_def no_second_preimage_def)

section \<open>Properties\<close>

lemma sample_verified:
  fixes u :: update_info
  defines "u \<equiv> \<lparr>u_id = ''r1'', u_version = ''1.5.0'', u_platform = ''ios'', u_channel = ''development'',
     u_runtimeVersion = ''1.5'', u_bundleHash = sha256Hex sample_crypto ''ok'', u_signature = sample_signature, u_size = 2\<rparr>"
  shows "toUpdateInfo sample_raw = Inr u" "u_id u = ''r1''" "u_signature u = sample_signature"
    "sha256Hex sample_crypto ''ok'' = u_bundleHash u"
    "verifyRelease sample_crypto (signingPublicKey sample_config) (signing_input_of u) (u_signature u)"
proof -
  show "toUpdateInfo sample_raw = Inr u"
    by (simp add: toUpdateInfo_def sample_raw_def sample_signature_def sample_key_def u_def)
  show "u_id u = ''r1''" "u_signature u = sample_signature" "sha256Hex sample_crypto ''ok'' = u_bundleHash u"
    by (simp_all add: u_def)
  have i: "signing_input_of u = build_input sample_crypto sample_build"
    by (simp add: signing_input_of_def build_input_def sample_build_def u_def)
  show "verifyRelease sample_crypto (signingPublicKey sample_config) (signing_input_of u) (u_signature u)"
    unfolding i by (simp add: verifyRelease_def Let_def sample_config_def u_def sample_signature_def)
      (simp add: sample_crypto_def)
qed

lemma sync_runs:
  assumes "toUpdateInfo raw = Inr u" and "u_id u \<noteq> []" and "u_signature u \<in> S"
    and "sha256Hex C b = u_bundleHash u" and "verifyRelease C (signingPublicKey (c :: config)) (signing_input_of u) (u_signature u)"
  shows "\<exists>k. client_run C (signingPublicKey c) S initial_client k \<and> k_native k = [(u_id u, b)]
    \<and> k_waiting k = [] \<and> k_errors k = [] \<and> k_verifiedBundle k = None"
proof -
  let ?st = "client_step C (signingPublicKey c) S"
  let ?k1 = "ts_configure c initial_client" and ?r = "Response 200 (Some [raw])" and ?b = "Response 200 b"
  define k2 where "k2 = ?k1\<lparr>k_waiting := [ResumeDownload u]\<rparr>"
  define k4 where "k4 = ?k1\<lparr>k_verifiedBundle := Some b, k_verifiedBundleReleaseId := Some (u_id u), k_waiting := [ResumeInstall]\<rparr>"
  define k3 where "k3 = ts_downloadUpdate u True ?k1"
  define k5 where "k5 = ?k1\<lparr>k_verifiedBundle := Some b, k_verifiedBundleReleaseId := Some (u_id u), k_native := [(u_id u, b)]\<rparr>"
  have sig: "raw_signature raw = Some (u_signature u)" using assms(1) by (auto simp: toUpdateInfo_def split: option.splits if_splits)
  have w2: "k_waiting (ts_sync ?k1) = [] @ AwaitLatest True # []" and e2: "resumed [] [] (ts_sync ?k1) = ?k1"
    by (simp_all add: ts_sync_def ts_checkForUpdate_def ts_configure_def initial_client_def client_defs)
  have s1: "?st initial_client ?k1" by (rule client_step.configure) simp
  have s2: "?st ?k1 (ts_sync ?k1)" by (rule client_step.sync)
  have m2: "latest_arrived True ?r ?k1 = k2"
    using assms(1) by (simp add: latest_arrived_def fetchLatestUpdate_def ok_status_def k2_def ts_configure_def initial_client_def client_defs)
  then have s3: "?st (ts_sync ?k1) k2"
    using client_step.latest [OF w2, where r = ?r] sig assms(3) unfolding e2 by (simp add: known_signatures_def)
  have w: "k_waiting k2 = [] @ ResumeDownload u # []" and e: "resumed [] [] k2 = ?k1"
    by (simp_all add: k2_def ts_configure_def initial_client_def client_defs)
  have s3': "?st k2 k3" using client_step.resume_download [OF w] unfolding e k3_def .
  have w3: "k_waiting k3 = [] @ AwaitBundle c u True # []" and e3: "resumed [] [] k3 = ?k1"
    by (simp_all add: k3_def ts_downloadUpdate_def ts_configure_def initial_client_def client_defs)
  have "bundle_arrived C c u True ?b ?k1 = k4"
    using assms(4,5) by (simp add: k4_def bundle_arrived_def downloadAndVerifyBundle_def ok_status_def Let_def ts_configure_def
        initial_client_def await_call_def)
  then have s4: "?st k3 k4" using client_step.arrived [OF w3, where r = ?b] unfolding e3 by metis
  have w4: "k_waiting k4 = [] @ ResumeInstall # []" by (simp add: k4_def)
  have "ts_installUpdate (resumed [] [] k4) = k5\<lparr>k_waiting := [AwaitNative]\<rparr>"
    using assms(2) by (simp add: k4_def k5_def ts_installUpdate_def ts_configure_def initial_client_def client_defs)
  then have s5: "?st k4 (k5\<lparr>k_waiting := [AwaitNative]\<rparr>)" using client_step.resume_install [OF w4] by metis
  have w5: "k_waiting (k5\<lparr>k_waiting := [AwaitNative]\<rparr>) = [] @ AwaitNative # []" by simp
  let ?k6 = "native_settled True (resumed [] [] (k5\<lparr>k_waiting := [AwaitNative]\<rparr>))"
  have s6: "?st (k5\<lparr>k_waiting := [AwaitNative]\<rparr>) ?k6" by (rule client_step.native [OF w5])
  have "client_run C (signingPublicKey c) S initial_client ?k6"
    unfolding client_run_def using s1 s2 s3 s3' s4 s5 s6 by (meson converse_rtranclp_into_rtranclp rtranclp.rtrancl_refl)
  then show ?thesis
    by (intro exI [of _ ?k6]) (simp add: native_settled_def resumed_def k5_def ts_configure_def initial_client_def)
qed

text \<open>Liveness of \<open>sync\<close>, and the limit of the check: when the newest release of the server's list verifies
  under the configured key and its bundle has the advertised hash, \<open>sync\<close> hands exactly this bundle under this id
  to the native module and leaves nothing behind, whatever channel, platform and runtime version the release was
  signed for.\<close>

theorem sync_installs_verified:
  assumes "toUpdateInfo raw = Inr u" and "u_id u \<noteq> []" and "u_signature u \<in> S"
    and "sha256Hex C b = u_bundleHash u" and "verifyRelease C (signingPublicKey (c :: config)) (signing_input_of u) (u_signature u)"
  shows "\<exists>k. client_run C (signingPublicKey c) S initial_client k \<and> k_native k = [(u_id u, b)]
    \<and> k_waiting k = [] \<and> k_errors k = [] \<and> k_verifiedBundle k = None"
  by (rule sync_runs [OF assms])

theorem sync_installs_verified_witness:
  "\<exists>k. client_run sample_crypto sample_key {sample_signature} initial_client k \<and> k_native k = [(''r1'', ''ok'')]
     \<and> raw_channel sample_raw \<noteq> g_channel sample_config"
  using sync_installs_verified [OF sample_verified(1) _ _ sample_verified(4,5), of "{sample_signature}"]
  by (auto simp: sample_config_def sample_raw_def)

lemma sample_client_run:
  "\<exists>k. client_run sample_crypto sample_key {sample_signature} initial_client k \<and> k_native k = [(''r1'', ''ok'')]"
  using sync_runs [OF sample_verified(1) _ _ sample_verified(4,5), of "{sample_signature}"]
  by (auto simp: sample_config_def)

text \<open>C17. Integrity: along every run of the client, however its calls interleave and whatever the servers answer, a
  bundle handed to the native module is, byte for byte, one the developer built and signed.\<close>

theorem client_installs_only_signed:
  assumes "crypto_ok C" and "atob C K = Some pub" and "unforgeable C pub S (signed_messages C R)"
    and "no_second_preimage C R" and "client_run C K S initial_client k" and "(i, b) \<in> set (k_native k)"
  shows "\<exists>e \<in> R. b = e_bytes e"
proof -
  have "verified_update C K S i b"
    using client_run_inv [OF assms(5)] assms(6) by (auto simp: client_inv_def)
  from verified_is_built [OF assms(1-4) this] show ?thesis by auto
qed

theorem client_installs_only_signed_witness:
  "\<exists>k. client_run sample_crypto sample_key {sample_signature} initial_client k \<and> (''r1'', ''ok'') \<in> set (k_native k)
     \<and> (\<exists>e \<in> {sample_build}. ''ok'' = e_bytes e)"
proof -
  obtain k where k: "client_run sample_crypto sample_key {sample_signature} initial_client k" "k_native k = [(''r1'', ''ok'')]"
    using sample_client_run by blast
  then have m: "(''r1'', ''ok'') \<in> set (k_native k)" by simp
  from client_installs_only_signed [OF sample_crypto_ok sample_facts(3,1,2) k(1) m] k(1) m show ?thesis by blast
qed

lemma last_installed_in: "last_installed evs i = Some c \<Longrightarrow> Install i c \<in> set evs"
  by (induction evs rule: rev_induct) (auto simp: last_installed_snoc split: event.splits if_splits)

text \<open>C4. End to end on Android: on a device whose installations all come from the client, the bundle the next
  start of the app boots, if it is not the one embedded in the app, is one the developer built and signed, whatever
  happened before: updates, crashes, rollbacks.\<close>

theorem only_signed_bundles_boot:
  assumes "crypto_ok C" and "atob C K = Some pub" and "unforgeable C pub S (signed_messages C R)"
    and "no_second_preimage C R" and "client_run C K S initial_client k"
    and "json_ok J" and "new_device r d0" and "device_run kotlin_api J r e d0 evs d"
    and "\<forall>i b. Install i b \<in> set evs \<longrightarrow> (i, b) \<in> set (k_native k)"
  shows "\<exists>x d'. kt_resolveBundlePath J r d = (Inr x, d') \<and> (\<forall>p. x = Some p \<longrightarrow>
    (\<exists>i. \<exists>e \<in> R. p = bundle_string r i \<and> dview d' (bundle_file r i) = Some (File (e_bytes e))))"
proof -
  obtain d' x where b: "kt_resolveBundlePath J r d = (Inr x, d')"
    "x = map_option (bundle_string r) (a_current (store_abs J r d'))"
    "\<And>i. a_current (store_abs J r d') = Some i \<Longrightarrow>
       \<exists>c. last_installed evs i = Some c \<and> dview d' (bundle_file r i) = Some (File c)"
    using kotlin.boots_what_was_installed [OF assms(6-8)] by auto
  have "\<exists>i. \<exists>e \<in> R. p = bundle_string r i \<and> dview d' (bundle_file r i) = Some (File (e_bytes e))" if p: "x = Some p" for p
  proof -
    obtain i where i: "a_current (store_abs J r d') = Some i" "p = bundle_string r i"
      using b(2) p by (auto simp: map_option_case simp del: view_abs_sel split: option.splits)
    obtain c where c: "last_installed evs i = Some c" "dview d' (bundle_file r i) = Some (File c)" using b(3) i(1) by blast
    have "(i, c) \<in> set (k_native k)" using assms(9) last_installed_in [OF c(1)] by blast
    then have "verified_update C K S i c" using client_run_inv [OF assms(5)] by (auto simp: client_inv_def)
    from verified_is_built [OF assms(1-4) this] c(2) i(2) show ?thesis by blast
  qed
  with b(1) show ?thesis by blast
qed

theorem only_signed_bundles_boot_witness:
  "\<exists>d x d'. device_run kotlin_api sample_json [''data''] (sample_env Android) sample_disk [Install ''r1'' ''ok''] d
     \<and> kt_resolveBundlePath sample_json [''data''] d = (Inr x, d') \<and> (\<forall>p. x = Some p \<longrightarrow>
    (\<exists>i. \<exists>e \<in> {sample_build}. p = bundle_string [''data''] i \<and> dview d' (bundle_file [''data''] i) = Some (File (e_bytes e))))"
proof -
  obtain k where k: "client_run sample_crypto sample_key {sample_signature} initial_client k" "k_native k = [(''r1'', ''ok'')]"
    using sample_client_run by blast
  then have evs: "\<forall>i b. Install i b \<in> set [Install ''r1'' ''ok''] \<longrightarrow> (i, b) \<in> set (k_native k)" by simp
  have ids: "\<forall>i c. Install i c \<in> set [Install ''r1'' ''ok''] \<longrightarrow> simple_name i" by (simp add: simple_name_def)
  obtain d where d: "device_run kotlin_api sample_json [''data''] (sample_env Android) sample_disk [Install ''r1'' ''ok''] d"
    using kotlin.run_exists [OF sample_json_ok new_device_store(1) [OF sample_new_device] sample_env_ok(1) sample_base_short ids]
    by blast
  from only_signed_bundles_boot [OF sample_crypto_ok sample_facts(3,1,2) k(1) sample_json_ok sample_new_device d evs] d
  show ?thesis by blast
qed

text \<open>The canonical message binds every field of a release: when no field but the last contains a line break, two
  releases with the same message are the same release.\<close>

theorem canonical_message_injective:
  assumes "newline \<notin> set (s_bundleHash i @ s_version i @ s_platform i @ s_channel i)"
    and "newline \<notin> set (s_bundleHash i' @ s_version i' @ s_platform i' @ s_channel i')"
  shows "canonicalReleaseMessage i = canonicalReleaseMessage i' \<longleftrightarrow> i = (i' :: signing_input)"
proof
  assume "canonicalReleaseMessage i = canonicalReleaseMessage i'"
  then have eq: "s_bundleHash i @ [newline] @ s_version i @ [newline] @ s_platform i @ [newline] @ s_channel i @ [newline] @ s_runtimeVersion i
      = s_bundleHash i' @ [newline] @ s_version i' @ [newline] @ s_platform i' @ [newline] @ s_channel i' @ [newline] @ s_runtimeVersion i'"
    unfolding canonical_lines .
  have n: "newline \<notin> set (s_bundleHash i)" "newline \<notin> set (s_version i)" "newline \<notin> set (s_platform i)" "newline \<notin> set (s_channel i)"
    "newline \<notin> set (s_bundleHash i')" "newline \<notin> set (s_version i')" "newline \<notin> set (s_platform i')" "newline \<notin> set (s_channel i')"
    using assms by simp_all
  note l1 = first_line [OF eq n(1,5)]
  note l2 = first_line [OF conjunct2 [OF l1] n(2,6)]
  note l3 = first_line [OF conjunct2 [OF l2] n(3,7)]
  note l4 = first_line [OF conjunct2 [OF l3] n(4,8)]
  show "i = i'" using l1 l2 l3 l4 by simp
qed simp

theorem canonical_message_injective_witness:
  "canonicalReleaseMessage (build_input sample_crypto sample_build)
     \<noteq> canonicalReleaseMessage (build_input sample_crypto (sample_build\<lparr>e_channel := ''production''\<rparr>))"
proof -
  let ?i = "build_input sample_crypto sample_build"
  let ?j = "build_input sample_crypto (sample_build\<lparr>e_channel := ''production''\<rparr>)"
  have h: "newline \<notin> set (sha256Hex sample_crypto ''ok'')" by (rule hex_no_newline [OF sample_crypto_ok])
  have "newline \<notin> set (s_bundleHash ?i @ s_version ?i @ s_platform ?i @ s_channel ?i)"
    "newline \<notin> set (s_bundleHash ?j @ s_version ?j @ s_platform ?j @ s_channel ?j)"
    using h by (simp_all add: build_input_def sample_build_def newline_def)
  from canonical_message_injective [OF this] show ?thesis by (simp add: build_input_def sample_build_def)
qed

text \<open>With line breaks two different releases have one message, so that a signature for one verifies for the other.\<close>

lemma canonical_message_ambiguous:
  "canonicalReleaseMessage \<lparr>s_bundleHash = h, s_version = v @ [newline] @ w, s_platform = p, s_channel = c, s_runtimeVersion = x\<rparr>
     = canonicalReleaseMessage \<lparr>s_bundleHash = h, s_version = v, s_platform = w, s_channel = p, s_runtimeVersion = c @ [newline] @ x\<rparr>"
  by (simp add: canonical_lines)

end
