(* ===== verification/KotlinBlocks.thy ===== *)
theory KotlinBlocks
  imports KotlinApp SwiftApp
begin

text \<open>
  Calls that overlap. On Android every call of \<open>installUpdate\<close> and \<open>notifyAppReady\<close> runs its block on a pool of
  threads (\<open>Promise.parallel\<close> in \<open>HybridSalvePushNative.kt\<close>), so two blocks may take turns; \<open>getCurrentReleaseId\<close> runs
  on the JavaScript thread on both platforms, also while a block runs. A block is followed from one private method of
  \<open>SalvePushStorage.kt\<close> to the next, which are fewer turns than the threads can take: what goes wrong here can
  happen, and what is shown to hold assumes that the methods do not overlap themselves.
\<close>

section \<open>Blocks\<close>

datatype block =
    InstallBlock string string
  | InstallRead string
  | InstallWrite string pstate
  | InstallClear string "string option"
  | InstallPrune string "string option"
  | ConfirmBlock
  | ConfirmRead
  | ConfirmWrite pstate
  | Settled "kexn + unit"

definition advance :: "'a kio \<Rightarrow> ('a \<Rightarrow> block) \<Rightarrow> disk \<Rightarrow> block \<times> disk" where
  "advance m k d = (case m d of (Inl e, d') \<Rightarrow> (Settled (Inl e), d') | (Inr a, d') \<Rightarrow> (k a, d'))"

fun block_step :: "json_lib \<Rightarrow> path \<Rightarrow> block \<times> disk \<Rightarrow> block \<times> disk" where
  "block_step J r (InstallBlock i c, d) = advance (kt_place_bundle r i c) (\<lambda>_. InstallRead i) d"
| "block_step J r (InstallRead i, d) = advance (kt_readState J r) (InstallWrite i) d"
| "block_step J r (InstallWrite i s, d) =
     advance (kt_writeState J r (s\<lparr>previousReleaseId := currentReleaseId s, currentReleaseId := Some i, bootStatus := ''pending''\<rparr>))
       (\<lambda>_. InstallClear i (currentReleaseId s)) d"
| "block_step J r (InstallClear i p, d) = advance (kt_clearMountedMarker r) (\<lambda>_. InstallPrune i p) d"
| "block_step J r (InstallPrune i p, d) =
     advance (kt_pruneOldReleases r (i # (case p of None \<Rightarrow> [] | Some p \<Rightarrow> [p]))) (\<lambda>_. Settled (Inr ())) d"
| "block_step J r (ConfirmBlock, d) = advance (kt_markMounted r) (\<lambda>_. ConfirmRead) d"
| "block_step J r (ConfirmRead, d) = advance (kt_readState J r) ConfirmWrite d"
| "block_step J r (ConfirmWrite s, d) = advance (kt_writeState J r (s\<lparr>bootStatus := ''confirmed''\<rparr>)) (\<lambda>_. Settled (Inr ())) d"
| "block_step J r (Settled x, d) = (Settled x, d)"

text \<open>The pool: any of its blocks takes the next step.\<close>

inductive pool_step :: "json_lib \<Rightarrow> path \<Rightarrow> block list \<times> disk \<Rightarrow> block list \<times> disk \<Rightarrow> bool" for J r where
  turn: "n < length bs \<Longrightarrow> block_step J r (bs ! n, d) = (b, d') \<Longrightarrow> pool_step J r (bs, d) (bs[n := b], d')"

definition pool_run :: "json_lib \<Rightarrow> path \<Rightarrow> block list \<times> disk \<Rightarrow> block list \<times> disk \<Rightarrow> bool" where
  "pool_run J r = (pool_step J r)\<^sup>*\<^sup>*"

lemma settled_stays: "(block_step J r ^^ n) (Settled x, d) = (Settled x, d)"
  by (induction n) simp_all

lemma turns:
  assumes "(block_step J r ^^ k) (bs ! n, d) = (b, d')" and "n < length bs"
  shows "pool_run J r (bs, d) (bs[n := b], d')"
  using assms(1)
proof (induction k arbitrary: b d')
  case 0
  with assms(2) show ?case by (simp add: pool_run_def) (metis list_update_id rtranclp.rtrancl_refl)
next
  case (Suc k)
  obtain b1 d1 where 1: "(block_step J r ^^ k) (bs ! n, d) = (b1, d1)" by fastforce
  with Suc.prems have "block_step J r ((bs[n := b1]) ! n, d1) = (b, d')" using assms(2) by simp
  from pool_step.turn [OF _ this] assms(2) have "pool_step J r (bs[n := b1], d1) (bs[n := b], d')" by simp
  with Suc.IH [OF 1] show ?case by (simp add: pool_run_def)
qed

lemma pool_run_trans: "pool_run J r s t \<Longrightarrow> pool_run J r t u \<Longrightarrow> pool_run J r s u"
  unfolding pool_run_def by (rule rtranclp_trans)

section \<open>A block alone\<close>

lemma advance_runs:
  assumes "block_step J r (b, d) = advance m k d"
    and "\<And>a d'. (block_step J r ^^ n) (k a, d') = (case f a d' of (x, d'') \<Rightarrow> (Settled x, d''))"
  shows "(block_step J r ^^ Suc n) (b, d) = (case bind_io m f d of (x, d'') \<Rightarrow> (Settled x, d''))"
  using assms by (auto simp: funpow_Suc_right advance_def bind_io_def settled_stays simp del: funpow.simps split: prod.splits sum.splits)

lemma advance_last: "advance m (\<lambda>_. Settled (Inr ())) d = (case m d of (x, d') \<Rightarrow> (Settled x, d'))"
  by (auto simp: advance_def split: prod.splits sum.splits)

text \<open>The turns are those of the methods in \<open>KotlinStorage\<close>: a block that nothing interrupts has, after its five, or three,
  steps, the result and the effect of the whole method, errors included.\<close>

lemma block_alone_is_the_call:
  "(block_step J r ^^ 5) (InstallBlock i c, d) = (case kt_installUpdate J r i c d of (x, d') \<Rightarrow> (Settled x, d'))"
  "(block_step J r ^^ 3) (ConfirmBlock, d) = (case kt_confirmBoot J r d of (x, d') \<Rightarrow> (Settled x, d'))"
proof -
  let ?new = "\<lambda>s. s\<lparr>previousReleaseId := currentReleaseId s, currentReleaseId := Some i, bootStatus := ''pending''\<rparr>"
  let ?prune = "\<lambda>p. kt_pruneOldReleases r (i # (case p of None \<Rightarrow> [] | Some p \<Rightarrow> [p]))"
  have 1: "(block_step J r ^^ Suc 0) (InstallPrune i p, d) = (case ?prune p d of (x, d') \<Rightarrow> (Settled x, d'))" for p d
    by (simp add: advance_last)
  have 2: "(block_step J r ^^ Suc (Suc 0)) (InstallClear i p, d)
      = (case then_io (kt_clearMountedMarker r) (?prune p) d of (x, d') \<Rightarrow> (Settled x, d'))" for p d
    unfolding then_io_def by (rule advance_runs [OF block_step.simps(4) 1])
  have 3: "(block_step J r ^^ Suc (Suc (Suc 0))) (InstallWrite i s, d)
      = (case then_io (kt_writeState J r (?new s)) (then_io (kt_clearMountedMarker r) (?prune (currentReleaseId s))) d of
          (x, d') \<Rightarrow> (Settled x, d'))" for s d
    unfolding then_io_def [of "kt_writeState J r (?new s)"] by (rule advance_runs [OF block_step.simps(3) 2])
  note 4 = advance_runs [OF block_step.simps(2) 3]
  note 5 = advance_runs [where f = "\<lambda>_. bind_io (kt_readState J r) _", OF block_step.simps(1) 4]
  have c1: "(block_step J r ^^ Suc 0) (ConfirmWrite s, d)
      = (case kt_writeState J r (s\<lparr>bootStatus := ''confirmed''\<rparr>) d of (x, d') \<Rightarrow> (Settled x, d'))" for s d
    by (simp add: advance_last)
  note c2 = advance_runs [OF block_step.simps(7) c1]
  note c3 = advance_runs [where f = "\<lambda>_. bind_io (kt_readState J r) _", OF block_step.simps(6) c2]
  have n: "(5::nat) = Suc (Suc (Suc (Suc (Suc 0))))" "(3::nat) = Suc (Suc (Suc 0))" by simp_all
  show "(block_step J r ^^ 5) (InstallBlock i c, d) = (case kt_installUpdate J r i c d of (x, d') \<Rightarrow> (Settled x, d'))"
    using 5 [of c d] unfolding n kt_installUpdate_def then_io_def Let_def by simp
  show "(block_step J r ^^ 3) (ConfirmBlock, d) = (case kt_confirmBoot J r d of (x, d') \<Rightarrow> (Settled x, d'))"
    using c3 [of d] unfolding n kt_confirmBoot_def then_io_def by simp
qed

section \<open>Blocks that take turns\<close>

lemma advance_leads:
  assumes "leads P J r m d x a"
  obtains d' where "advance m k d = (k x, d')" and "store_inv J r d'" and "store_abs J r d' = a" and "prefix (d_hist d) (d_hist d')"
  using assms by (auto simp: leads_def advance_def via_def)



lemma bundle_there: "a_bundle (store_abs J r d) i = Some c \<Longrightarrow> dview d (bundle_file r i) = Some (File c)"
  by (auto simp: file_text_def split: if_splits option.splits node.splits)










text \<open>What an installation does once its bundle is placed.\<close>

lemma rest_of_install:
  assumes "json_ok J" and "store_inv J r d" and "simple_name j" and "a_current (store_abs J r d) = Some i"
  defines "a \<equiv> store_abs J r d"
  shows "\<exists>d'. (block_step J r ^^ 4) (InstallRead j, d) = (Settled (Inr ()), d') \<and> store_inv J r d'
    \<and> store_abs J r d' = a\<lparr>a_state := install_state j (a_state a), a_mounted := False,
         a_bundle := keep_only (Some ` {j, i}) (a_bundle a)\<rparr> \<and> prefix (d_hist d) (d_hist d')"
proof -
  let ?T = "\<lambda>_ :: astate. True"
  let ?a3 = "a\<lparr>a_state := install_state j (a_state a)\<rparr>"
  let ?a4 = "?a3\<lparr>a_mounted := False\<rparr>"
  have a: "store_abs J r d = a" by (simp add: a_def del: view_abs_sel)
  have cur: "a_current a = Some i" using assms(4) a by simp
  obtain d3 where d3: "block_step J r (InstallRead j, d) = (InstallWrite j (a_state a), d3)" "store_inv J r d3" "store_abs J r d3 = a"
      "prefix (d_hist d) (d_hist d3)"
    using kt_readState [where P = ?T, OF assms(2) TrueI] a by (auto elim: advance_leads simp del: view_abs_sel)
  have ids: "simple_ids (install_state j (a_state a))"
    using abs_ids [OF assms(2)] assms(3) a by (simp add: simple_ids_def install_state_def del: view_abs_sel)
  obtain d4 where d4: "block_step J r (InstallWrite j (a_state a), d3) = (InstallClear j (Some i), d4)" "store_inv J r d4" "store_abs J r d4 = ?a3"
      "prefix (d_hist d3) (d_hist d4)"
    using kt_writeState [where P = ?T, OF assms(1) d3(2) ids TrueI TrueI] d3(3) cur
    by (auto elim: advance_leads simp: install_state_def simp del: view_abs_sel)
  obtain d5 where d5: "block_step J r (InstallClear j (Some i), d4) = (InstallPrune j (Some i), d5)" "store_inv J r d5" "store_abs J r d5 = ?a4"
      "prefix (d_hist d4) (d_hist d5)"
    using kt_clearMounted [where P = ?T, OF d4(2) TrueI TrueI] d4(3) by (auto elim: advance_leads simp del: view_abs_sel)
  obtain d6 where d6: "block_step J r (InstallPrune j (Some i), d5) = (Settled (Inr ()), d6)" "store_inv J r d6"
      "store_abs J r d6 = ?a4\<lparr>a_bundle := keep_only (Some ` {j, i}) (a_bundle ?a4)\<rparr>" "prefix (d_hist d5) (d_hist d6)"
    using kt_prune [where P = ?T and keep = "[j, i]", OF d5(2) TrueI] d5(3) by (auto elim: advance_leads simp del: view_abs_sel)
  have "(block_step J r ^^ 4) (InstallRead j, d) = (Settled (Inr ()), d6)"
    using d3(1) d4(1) d5(1) d6(1) by (simp add: numeral_eq_Suc)
  moreover have "prefix (d_hist d) (d_hist d6)" using d3(4) d4(4) d5(4) d6(4) by (meson prefix_order.trans)
  ultimately show ?thesis using d6(2,3) by (simp del: view_abs_sel)
qed

text \<open>C9. Two installations that overlap can lose the update although both report success: the older one prunes the bundle the
  newer one has placed but not yet made current. The newer release is current then without a bundle, and the app
  boots the bundle embedded in it, although the bundle of the other release is there.\<close>

theorem overlapping_installs_lose_the_bundle:
  assumes "json_ok J" and "store_inv J r d" and "simple_name i" and "simple_name j" and "i \<noteq> j"
    and "a_current (store_abs J r d) \<noteq> Some j" and "a_crash (store_abs J r d) \<noteq> Some True"
  shows "\<exists>d'. pool_run J r ([InstallBlock i c, InstallBlock j e], d) ([Settled (Inr ()), Settled (Inr ())], d')
    \<and> fst (kt_getCurrentReleaseId J r d') = Inr j \<and> fst (kt_resolveBundlePath J r d') = Inr None
    \<and> dview d' (bundle_file r i) = Some (File c)"
proof -
  let ?a = "store_abs J r d"
  let ?T = "\<lambda>_ :: astate. True"
  let ?a1 = "?a\<lparr>a_bundle := (a_bundle ?a)(j \<mapsto> e)\<rparr>"
  let ?a2 = "a_install i c ?a1"
  let ?a5 = "?a2\<lparr>a_state := install_state j (a_state ?a2), a_mounted := False, a_bundle := keep_only (Some ` {j, i}) (a_bundle ?a2)\<rparr>"
  have cur: "a_current ?a2 = Some i" by (simp add: a_install_def install_state_def del: view_abs_sel)
  obtain d1 where d1: "block_step J r (InstallBlock j e, d) = (InstallRead j, d1)" "store_inv J r d1" "store_abs J r d1 = ?a1"
    using kt_place [where P = ?T, OF assms(2,4) TrueI TrueI TrueI] by (auto elim: advance_leads simp del: view_abs_sel)
  obtain d2 where d2: "(block_step J r ^^ 5) (InstallBlock i c, d1) = (Settled (Inr ()), d2)" "store_inv J r d2" "store_abs J r d2 = ?a2"
    using kt_install [where P = ?T and c = c, OF assms(1) d1(2) assms(3) TrueI] d1(3) block_alone_is_the_call(1) [of J r i c d1]
    by (auto simp: leads_def simp del: view_abs_sel)
  obtain d6 where old: "(block_step J r ^^ 4) (InstallRead j, d2) = (Settled (Inr ()), d6)"
    and d6: "store_inv J r d6" "store_abs J r d6 = ?a5"
    using rest_of_install [OF assms(1) d2(2) assms(4)] d2(3) cur by (auto simp del: view_abs_sel)
  let ?bs = "[InstallBlock i c, InstallBlock j e]"
  have "pool_run J r (?bs, d) ([InstallBlock i c, InstallRead j], d1)"
    using turns [where k = 1 and n = 1 and bs = ?bs] d1(1) by simp
  moreover have "pool_run J r ([InstallBlock i c, InstallRead j], d1) ([Settled (Inr ()), InstallRead j], d2)"
    using turns [where k = 5 and n = 0 and bs = "[InstallBlock i c, InstallRead j]"] d2(1) by simp
  moreover have "pool_run J r ([Settled (Inr ()), InstallRead j], d2) ([Settled (Inr ()), Settled (Inr ())], d6)"
    using turns [where k = 4 and n = 1 and bs = "[Settled (Inr ()), InstallRead j]"] old by simp
  ultimately have run: "pool_run J r (?bs, d) ([Settled (Inr ()), Settled (Inr ())], d6)"
    by (blast intro: pool_run_trans)
  have b: "a_bundle ?a5 j = None" "a_bundle ?a5 i = Some c" "a_current ?a5 = Some j" "a_crash ?a5 = a_crash ?a"
    using assms(5,6) by (simp_all add: a_install_def install_state_def keep_only_def del: view_abs_sel)
  have "a_boot (a_process_crash ?a5) = None"
    using b assms(7) by (simp add: a_process_crash_def a_boot_def Let_def del: view_abs_sel)
  then have boot: "fst (kt_resolveBundlePath J r d6) = Inr None"
    using kt_resolve [OF assms(1) d6(1)] d6(2) by (auto simp: leads_def simp del: view_abs_sel)
  have id: "fst (kt_getCurrentReleaseId J r d6) = Inr j"
    using kt_current [OF d6(1)] d6(2) b(3) by (auto simp: leads_def simp del: view_abs_sel)
  have "file_text (dview d6 (bundle_file r i)) = Some c"
    using arg_cong [OF d6(2), of "\<lambda>a. a_bundle a i"] b(2) assms(3) by simp
  then have "dview d6 (bundle_file r i) = Some (File c)" by (auto simp: file_text_def split: option.splits node.splits)
  with run boot id show ?thesis by blast
qed

theorem overlapping_installs_lose_the_bundle_witness:
  "\<exists>d d'. pool_run sample_json [''data''] ([InstallBlock ''c'' ''C'', InstallBlock ''d'' ''D''], d) ([Settled (Inr ()), Settled (Inr ())], d')
     \<and> fst (kt_getCurrentReleaseId sample_json [''data''] d') = Inr ''d'' \<and> fst (kt_resolveBundlePath sample_json [''data''] d') = Inr None"
proof -
  obtain d where i: "store_inv sample_json [''data''] d" and a: "store_abs sample_json [''data''] d = a_run sample_events a_empty"
    using kotlin.sample_run by blast
  have n: "a_crash (store_abs sample_json [''data''] d) \<noteq> Some True"
    and c: "a_current (store_abs sample_json [''data''] d) \<noteq> Some ''d''"
    unfolding a by (simp_all add: sample_history)
  have s: "simple_name ''c''" "simple_name ''d''" "''c'' \<noteq> ''d''" by (simp_all add: simple_name_def)
  from overlapping_installs_lose_the_bundle [OF sample_json_ok i s c n, of "''C''" "''D''"] show ?thesis by blast
qed

text \<open>A confirmation that overlaps an installation undoes it: the state it read before is written back, so the installed
  release is never booted, and the release that confirmed its boot counts as unconfirmed, since the installation
  has deleted its mount marker.\<close>

theorem confirmation_undoes_installation:
  assumes "json_ok J" and "store_inv J r d" and "a_inv (store_abs J r d)" and "simple_name i"
    and "a_current (store_abs J r d) = Some p" and "i \<noteq> p" and "a_crash (store_abs J r d) \<noteq> Some True"
  shows "\<exists>d'. pool_run J r ([ConfirmBlock, InstallBlock i c], d) ([Settled (Inr ()), Settled (Inr ())], d')
    \<and> fst (kt_resolveBundlePath J r d') = Inr (Some (bundle_string r p)) \<and> fst (kt_isMounted r d') = Inr False"
proof -
  let ?a = "store_abs J r d"
  let ?T = "\<lambda>_ :: astate. True"
  let ?a1 = "?a\<lparr>a_mounted := True\<rparr>"
  let ?a2 = "a_install i c ?a1"
  let ?a3 = "?a2\<lparr>a_state := (a_state ?a)\<lparr>bootStatus := ''confirmed''\<rparr>\<rparr>"
  obtain d1 where d1: "block_step J r (ConfirmBlock, d) = (ConfirmRead, d1)" "store_inv J r d1" "store_abs J r d1 = ?a1"
    using kt_markMounted [where P = ?T, OF assms(2) TrueI TrueI] by (auto elim: advance_leads simp del: view_abs_sel)
  have "a_state (store_abs J r d1) = a_state ?a" by (simp add: d1(3) del: view_abs_sel)
  then obtain d2 where d2: "block_step J r (ConfirmRead, d1) = (ConfirmWrite (a_state ?a), d2)" "store_inv J r d2" "store_abs J r d2 = ?a1"
    using kt_readState [where P = ?T, OF d1(2) TrueI] d1(3) by (auto elim: advance_leads simp del: view_abs_sel)
  obtain d3 where d3: "(block_step J r ^^ 5) (InstallBlock i c, d2) = (Settled (Inr ()), d3)" "store_inv J r d3" "store_abs J r d3 = ?a2"
    using kt_install [where P = ?T and c = c, OF assms(1) d2(2) assms(4) TrueI] d2(3) block_alone_is_the_call(1) [of J r i c d2]
    by (auto simp: leads_def simp del: view_abs_sel)
  have "simple_ids ((a_state ?a)\<lparr>bootStatus := ''confirmed''\<rparr>)" using abs_ids [OF assms(2)] by (simp add: simple_ids_def)
  then obtain d4 where d4: "block_step J r (ConfirmWrite (a_state ?a), d3) = (Settled (Inr ()), d4)" "store_inv J r d4" "store_abs J r d4 = ?a3"
    using kt_writeState [where P = ?T, OF assms(1) d3(2) _ TrueI TrueI] d3(3) by (auto elim: advance_leads simp del: view_abs_sel)
  let ?bs = "[ConfirmBlock, InstallBlock i c]"
  have "pool_run J r (?bs, d) ([ConfirmWrite (a_state ?a), InstallBlock i c], d2)"
    using turns [where k = 2 and n = 0 and bs = ?bs] d1(1) d2(1) by (simp add: numeral_eq_Suc)
  moreover have "pool_run J r ([ConfirmWrite (a_state ?a), InstallBlock i c], d2) ([ConfirmWrite (a_state ?a), Settled (Inr ())], d3)"
    using turns [where k = 5 and n = 1 and bs = "[ConfirmWrite (a_state ?a), InstallBlock i c]"] d3(1) by simp
  moreover have "pool_run J r ([ConfirmWrite (a_state ?a), Settled (Inr ())], d3) ([Settled (Inr ()), Settled (Inr ())], d4)"
    using turns [where k = 1 and n = 0 and bs = "[ConfirmWrite (a_state ?a), Settled (Inr ())]"] d4(1) by simp
  ultimately have run: "pool_run J r (?bs, d) ([Settled (Inr ()), Settled (Inr ())], d4)"
    by (blast intro: pool_run_trans)
  have "p \<in> kept ?a" using assms(3,5) by (simp add: a_inv_def del: view_abs_sel)
  then have b: "a_bundle ?a3 p \<noteq> None" "a_current ?a3 = Some p" "a_crash ?a3 = a_crash ?a" "\<not> a_mounted ?a3"
    using assms(5,6) by (auto simp: a_install_def install_state_def keep_only_def kept_def simp del: view_abs_sel)
  have "a_boot (a_process_crash ?a3) = Some p"
    using b(1-3) assms(7) by (simp add: a_process_crash_def a_boot_def Let_def del: view_abs_sel)
  then have boot: "fst (kt_resolveBundlePath J r d4) = Inr (Some (bundle_string r p))"
    using kt_resolve [OF assms(1) d4(2)] d4(3) by (auto simp: leads_def simp del: view_abs_sel)
  have "fst (kt_isMounted r d4) = Inr False"
    using kt_isMounted [where P = ?T, OF d4(2) TrueI] d4(3) b(4) by (auto simp: leads_def simp del: view_abs_sel)
  with run boot show ?thesis by blast
qed

section \<open>Reading while a block runs\<close>

text \<open>C32. A read from the JavaScript thread while an update is being installed is safe on both platforms: in every state
  the files pass through, \<open>getCurrentReleaseId\<close> answers with the release that was current or with the new one.\<close>

theorem current_id_during_install:
  assumes "json_ok J" and "store_inv J r d" and "simple_name i"
  shows "\<exists>d1 d2 fs gs. kt_installUpdate J r i c d = (Inr (), d1) \<and> d_hist d1 = d_hist d @ fs
    \<and> sw_installUpdate J (sw_production r) i c d = (Inr (), d2) \<and> d_hist d2 = d_hist d @ gs
    \<and> (\<forall>k. good k \<longrightarrow> d_fs k \<in> set fs \<longrightarrow> fst (kt_getCurrentReleaseId J r k) 
          \<in> {Inr (case a_current (store_abs J r d) of None \<Rightarrow> [] | Some j \<Rightarrow> j), Inr i})
    \<and> (\<forall>k. good k \<longrightarrow> d_fs k \<in> set gs \<longrightarrow> fst (sw_getCurrentReleaseId J (sw_production r) k) 
          \<in> {Inr (case a_current (store_abs J r d) of None \<Rightarrow> [] | Some j \<Rightarrow> j), Inr i})"
  using kotlin.current_during_install [OF assms(1-3), of c] swift.current_during_install [OF assms(1-3), of c]
  unfolding kotlin_api_sel swift_api_sel by blast

theorem current_id_during_install_witness:
  "\<exists>d d1. kt_installUpdate sample_json [''data''] ''c'' ''C'' d = (Inr (), d1)
     \<and> (\<forall>k. good k \<longrightarrow> d_fs k \<in> set (drop (length (d_hist d)) (d_hist d1)) \<longrightarrow>
          fst (kt_getCurrentReleaseId sample_json [''data''] k) \<in> {Inr ''b'', Inr ''c''})"
proof -
  obtain d where i: "store_inv sample_json [''data''] d" and a: "store_abs sample_json [''data''] d = a_run sample_events a_empty"
    using kotlin.sample_run by blast
  have "simple_name ''c''" by (simp add: simple_name_def)
  from current_id_during_install [OF sample_json_ok i this, of "''C''"] show ?thesis
    unfolding a sample_history by fastforce
qed

section \<open>Installing the current release again\<close>

text \<open>\<open>installUpdate\<close> deletes a bundle it replaces before it moves the new one there: one of the states of the disk on the
  way has no bundle under the id.\<close>

lemma place_removes_old:
  assumes "store_inv J r d" and i: "simple_name i" and old: "dview d (bundle_file r i) = Some (File b)"
  shows "\<exists>d' k. kt_place_bundle r i c d = (Inr (), d') \<and> good k \<and> dview k (bundle_file r i) = None
    \<and> (\<exists>fs. d_hist d' = d_hist d @ fs \<and> d_fs k \<in> set fs)"
proof -
  note inv = store_invD [OF assms(1)]
  let ?Q = "okv (\<lambda>_. True) J r"
  note lay = layout_simple(7-9) [OF inv(1) i]
  obtain d1 where d1: "kt_releasesDirectory r d = (Inr (releases_path r), d1)" "good d1"
    "dview d1 = with_dir (releases_path r) (dview d)" "?Q (dview d1)" "via ?Q d d1"
    using kt_releases [OF inv(2,1) okv_now [OF assms(1) TrueI]] okv_with_dir [OF okv_now [where P = "\<lambda>_. True", OF assms(1) TrueI]]
    by (auto simp: does_def)
  obtain d2 where d2: "mkdirs (release_dir r i) d1 = (True, d2)" "good d2"
    "dview d2 = with_dir (release_dir r i) (dview d)" "via ?Q d1 d2"
    using mkdirs_does [OF d1(2) lay(1) d1(4) dir_places(3)] d1(3) by (auto simp: with_dir_absorb)
  have iv: "view_inv J r (dview d2)" using inv by (simp add: d2(3) view_inv_with_dir view_simps)
  have nd: "dview d2 (bundle_tmp r i) \<noteq> Some Dir" using shapeD(1) [OF view_inv_shape [OF iv]] by simp
  obtain d3 where d3: "write_file (bundle_tmp r i) c d2 = (True, d3)" "good d3"
    "dview d3 = (dview d2)(bundle_tmp r i \<mapsto> File c)" "via (\<lambda>_. True) d2 d3"
    using write_Q [where Q = "\<lambda>_. True" and c = c, OF d2(2) lay(3) _ nd] d2(3) by auto
  have f3: "dview d3 (bundle_file r i) = Some (File b)" using old d3(3) d2(3) by (simp add: view_simps)
  obtain k where k: "delete_file (bundle_file r i) d3 = (True, k)" "good k" "dview k = (dview d3)(bundle_file r i := None)"
    by (rule delete_file_view [OF d3(2) lay(2) f3]) (auto simp: chg_def)
  have hk: "d_hist k = d_hist d3 @ [d_fs k]"
    using k(1) by (auto simp: delete_file_def set_fs_def split: if_splits option.splits node.splits)
  obtain d' where d': "rename_file (bundle_tmp r i) (bundle_file r i) k = (True, d')" "via (\<lambda>_. True) k d'"
    using rename_Q [where Q = "\<lambda>_. True", OF k(2) lay(3,2), of c] k(3) d3(3) d2(3) by auto
  have "kt_place_bundle r i c d = (Inr (), d')"
    using f3 exists_view [OF lay(2), of d3] i
    by (simp add: kt_place_bundle_def bind_io_def then_io_def ignored_def writeText_def Let_def d1(1) d2(1) d3(1) k(1) d'(1))
  moreover have "\<exists>fs. d_hist d' = d_hist d @ fs \<and> d_fs k \<in> set fs"
    using d1(5) d2(4) d3(4) d'(2) hk by (auto simp: via_def)
  ultimately show ?thesis using k(2,3) by (intro exI [of _ d'] exI [of _ k]) simp
qed

text \<open>So a kill while the current release is installed again can leave the app without it.\<close>

theorem reinstall_can_lose_the_bundle:
  assumes "json_ok J" and "store_inv J r d" and "a_inv (store_abs J r d)" and "simple_name i"
    and "a_current (store_abs J r d) = Some i" and "a_crash (store_abs J r d) \<noteq> Some True"
  shows "\<exists>d' fs k. kt_installUpdate J r i c d = (Inr (), d') \<and> d_hist d' = d_hist d @ fs
    \<and> d_fs k \<in> set fs \<and> good k \<and> fst (kt_resolveBundlePath J r k) = Inr None"
proof -
  let ?a = "store_abs J r d"
  let ?T = "\<lambda>_ :: astate. True"
  obtain b where b: "dview d (bundle_file r i) = Some (File b)"
    using current_kept [OF assms(3,5)] bundle_there by blast
  obtain d1 k fs where p: "kt_place_bundle r i c d = (Inr (), d1)" "good k" "dview k (bundle_file r i) = None"
    "d_hist d1 = d_hist d @ fs" "d_fs k \<in> set fs" using place_removes_old [OF assms(2,4) b, of c] by blast
  have d1: "store_inv J r d1" "a_current (store_abs J r d1) = Some i"
    using kt_place [where P = ?T and c = c, OF assms(2,4) TrueI TrueI TrueI] p(1) assms(5)
    by (auto simp: leads_def simp del: view_abs_sel)
  obtain d' hs where d': "(block_step J r ^^ 4) (InstallRead i, d1) = (Settled (Inr ()), d')" "d_hist d' = d_hist d1 @ hs"
    using rest_of_install [OF assms(1) d1(1) assms(4) d1(2)] by (auto elim: prefixE)
  have "(block_step J r ^^ 5) (InstallBlock i c, d) = (Settled (Inr ()), d')"
    using d'(1) p(1) by (simp add: advance_def funpow_Suc_right numeral_eq_Suc del: funpow.simps)
  then have install: "kt_installUpdate J r i c d = (Inr (), d')"
    using block_alone_is_the_call(1) [of J r i c d] by (auto split: prod.splits)
  have k: "d_fs k \<in> set (fs @ hs)" "d_hist d' = d_hist d @ fs @ hs" using p(4,5) d'(2) by simp_all
  have st: "view_inv J r (dview k)" "install_stage i c ?a (store_abs J r k)"
    using kt_install [where P = "install_stage i c ?a" and c = c, OF assms(1,2,4)] install k by (auto simp: leads_def via_def okv_def)
  then have inv: "store_inv J r k" using store_invD(1) [OF assms(2)] p(2) by (simp add: store_inv_def)
  have bk: "a_bundle (store_abs J r k) i = None" using p(3) by simp
  have full: "pruned (insert i K) (f(i \<mapsto> c)) bs \<Longrightarrow> bs i = Some c" for K f bs
    by (auto simp: pruned_def dest: spec [of _ i])
  have "a_state (store_abs J r k) = a_state ?a" "a_crash (store_abs J r k) = a_crash ?a"
    using st(2) bk by (auto simp: install_stage_def simp del: view_abs_sel dest: full)
  then have "a_boot (a_process_crash (store_abs J r k)) = None"
    using assms(5,6) bk
    by (simp add: a_process_crash_def a_boot_def Let_def del: view_abs_sel)
  then have "fst (kt_resolveBundlePath J r k) = Inr None" using kt_resolve [OF assms(1) inv] by (auto simp: leads_def)
  with install k p(2) show ?thesis by blast
qed

theorem reinstall_can_lose_the_bundle_witness:
  "\<exists>d d' k. kt_installUpdate sample_json [''data''] ''b'' ''new B'' d = (Inr (), d') \<and> d_fs k \<in> set (d_hist d')
     \<and> fst (kt_resolveBundlePath sample_json [''data''] k) = Inr None"
proof -
  obtain d where i: "store_inv sample_json [''data''] d" and a: "store_abs sample_json [''data''] d = a_run sample_events a_empty"
    using kotlin.sample_run by blast
  have h: "a_inv (store_abs sample_json [''data''] d)" "a_current (store_abs sample_json [''data''] d) = Some ''b''"
    "a_crash (store_abs sample_json [''data''] d) \<noteq> Some True"
    unfolding a by (simp_all add: a_run_inv a_inv_empty sample_history)
  have s: "simple_name ''b''" by (simp add: simple_name_def)
  from reinstall_can_lose_the_bundle [OF sample_json_ok i h(1) s h(2,3), of "''new B''"] show ?thesis
    by (metis Un_iff set_append)
qed

end
