(* ===== verification/KotlinRaces.thy ===== *)
theory KotlinRaces
  imports KotlinBlocks
begin

text \<open>
  Two threads inside \<open>writeState\<close> of \<open>SalvePushStorage.kt\<close>, which \<open>installUpdate\<close> and \<open>confirmBoot\<close> both call: all calls
  share the file \<open>state.json.tmp\<close>. A writer is followed from one system call to the next; what it has open is a file
  and not a name, so a file that another thread renames takes the bytes still to be written along.
\<close>

section \<open>Writing a file, call by call\<close>

definition open_truncate :: "path \<Rightarrow> disk \<Rightarrow> bool \<times> disk" where
  "open_truncate p d =
     (if \<not> may_write d (norm p) \<or> \<not> parent_is_dir d p \<or> dget d p = Some Dir then (False, d)
      else (True, set_fs (fput p (File []) (d_fs d)) d))"

text \<open>The bytes go to the beginning of the open file, wherever it is now; \<open>None\<close> is a file without a name.\<close>

definition write_open :: "path option \<Rightarrow> string \<Rightarrow> disk \<Rightarrow> bool \<times> disk" where
  "write_open fd c d =
     (let k = grant d (length c) in
      (k = length c,
       spend k (case fd of
           None \<Rightarrow> d
         | Some p \<Rightarrow> (case dget d p of
               Some (File old) \<Rightarrow> set_fs (fput p (File (take k c @ drop k old)) (d_fs d)) d
             | _ \<Rightarrow> d))))"

lemma write_file_calls:
  "write_file p c d = (case open_truncate p d of (ok, d1) \<Rightarrow> if ok then write_open (Some p) c d1 else (False, d1))"
proof (cases "norm p = []")
  case True
  then have "dget d p = Some Dir" by (simp add: fget_def)
  then show ?thesis by (simp add: write_file_def open_truncate_def)
next
  case False
  then show ?thesis by (simp add: write_file_def open_truncate_def write_open_def Let_def fs_simps)
qed

section \<open>Writers\<close>

datatype writer =
    Begin pstate
  | Create path pstate
  | Opened path "path option" pstate
  | Renaming path
  | Written "kexn + unit"

fun writer_step :: "json_lib \<Rightarrow> path \<Rightarrow> writer \<times> disk \<Rightarrow> writer \<times> disk" where
  "writer_step J r (Begin s, d) =
     (case kt_baseDirectory r d of
        (Inl e, d') \<Rightarrow> (Written (Inl e), d')
      | (Inr base, d') \<Rightarrow> (Create (file_child base ''state.json.tmp'') s, d'))"
| "writer_step J r (Create tmp s, d) =
     (case open_truncate tmp d of (ok, d') \<Rightarrow> (if ok then Opened tmp (Some tmp) s else Written (Inl IOException), d'))"
| "writer_step J r (Opened tmp fd s, d) =
     (case write_open fd (toJson J s) d of (ok, d') \<Rightarrow> (if ok then Renaming tmp else Written (Inl IOException), d'))"
| "writer_step J r (Renaming tmp, d) =
     (case bind_io (kt_statePath r) (\<lambda>p. ignored (rename_file tmp p)) d of (x, d') \<Rightarrow> (Written x, d'))"
| "writer_step J r (Written x, d) = (Written x, d)"

text \<open>Which file a step renames, and what that means for a file another thread has open.\<close>

fun renamed :: "path \<Rightarrow> writer \<Rightarrow> disk \<Rightarrow> (path \<times> path) option" where
  "renamed r (Renaming tmp) d =
     (case kt_statePath r d of
        (Inl _, _) \<Rightarrow> None
      | (Inr p, d') \<Rightarrow> (if fst (rename_file tmp p d') then Some (tmp, p) else None))"
| "renamed r _ d = None"

fun follow :: "(path \<times> path) option \<Rightarrow> writer \<Rightarrow> writer" where
  "follow (Some (p, q)) (Opened tmp fd s) = Opened tmp (if fd = Some p then Some q else if fd = Some q then None else fd) s"
| "follow _ w = w"

inductive race_step :: "json_lib \<Rightarrow> path \<Rightarrow> writer list \<times> disk \<Rightarrow> writer list \<times> disk \<Rightarrow> bool" for J r where
  turn: "n < length ws \<Longrightarrow> writer_step J r (ws ! n, d) = (w, d') \<Longrightarrow>
    race_step J r (ws, d) ((map (follow (renamed r (ws ! n) d)) ws)[n := w], d')"

definition race :: "json_lib \<Rightarrow> path \<Rightarrow> writer list \<times> disk \<Rightarrow> writer list \<times> disk \<Rightarrow> bool" where
  "race J r = (race_step J r)\<^sup>*\<^sup>*"

text \<open>A schedule names the writer of each turn.\<close>

definition race_at :: "json_lib \<Rightarrow> path \<Rightarrow> nat \<Rightarrow> writer list \<times> disk \<Rightarrow> writer list \<times> disk" where
  "race_at J r n x = (case x of (ws, d) \<Rightarrow>
     (case writer_step J r (ws ! n, d) of (w, d') \<Rightarrow> ((map (follow (renamed r (ws ! n) d)) ws)[n := w], d')))"

lemma race_schedule:
  assumes "set ns \<subseteq> {..<length ws}"
  shows "race J r (ws, d) (fold (race_at J r) ns (ws, d))"
  using assms
proof (induction ns arbitrary: ws d)
  case (Cons n ns)
  obtain w d' where w: "writer_step J r (ws ! n, d) = (w, d')" by fastforce
  let ?us = "(map (follow (renamed r (ws ! n) d)) ws)[n := w]"
  have "race_step J r (ws, d) (?us, d')" using race_step.turn [OF _ w] Cons.prems by simp
  moreover have "race J r (?us, d') (fold (race_at J r) ns (?us, d'))" using Cons by simp
  moreover have "race_at J r n (ws, d) = (?us, d')" by (simp add: race_at_def w)
  ultimately show ?case by (auto simp: race_def intro: converse_rtranclp_into_rtranclp)
qed (simp add: race_def)

text \<open>A writer that nothing interrupts is \<open>writeState\<close>: its four steps have the same result and effect.\<close>

theorem writer_alone_is_writeState:
  "(writer_step J r ^^ 4) (Begin s, d) = (case kt_writeState J r s d of (x, d') \<Rightarrow> (Written x, d'))"
proof -
  have written: "(writer_step J r ^^ n) (Written x, d) = (Written x, d)" for n x d by (induction n) simp_all
  have "(writer_step J r ^^ 2) (Opened tmp fd s, d) = (case write_open fd (toJson J s) d of (ok, d') \<Rightarrow>
      if ok then (case bind_io (kt_statePath r) (\<lambda>p. ignored (rename_file tmp p)) d' of (x, d'') \<Rightarrow> (Written x, d''))
      else (Written (Inl IOException), d'))" for tmp fd s d
    by (simp add: numeral_eq_Suc split: prod.splits)
  then have "(writer_step J r ^^ 3) (Create tmp s, d) =
      (case then_io (writeText tmp (toJson J s)) (bind_io (kt_statePath r) (\<lambda>p. ignored (rename_file tmp p))) d of (x, d') \<Rightarrow> (Written x, d'))"
    for tmp d
    by (simp add: funpow_Suc_right written numeral_eq_Suc then_io_def bind_io_def writeText_def write_file_calls split: prod.splits sum.splits)
  then show ?thesis
    by (simp add: funpow_Suc_right written numeral_eq_Suc kt_writeState_def bind_io_def Let_def split: prod.splits sum.splits)
qed

section \<open>What the calls do to a disk that does not fail\<close>

lemma open_truncate_view:
  assumes "good d" and "simple_path p" and "dview d (butlast p) = Some Dir" and "dview d p \<noteq> Some Dir"
  shows "\<exists>d'. open_truncate p d = (True, d') \<and> good d' \<and> dview d' = (dview d)(p \<mapsto> File [])"
proof -
  have ne: "p \<noteq> []" using assms(4) by auto
  have w: "may_write d p" using assms(1) by (simp add: good_def healthy_def permissive_def)
  have "good (set_fs (fput p (File []) (d_fs d)) d)"
    using tree_put [OF good_tree [OF assms(1)] assms(3), of "File []"] assms(1,2,4) ne by (intro good_step) (simp_all add: fview_fput)
  then show ?thesis
    using assms w ne by (simp add: open_truncate_def norm_simple parent_view fview_simple fview_fput)
qed

lemma write_open_view:
  assumes "good d" and "simple_path p" and "dview d p = Some (File old)"
  shows "\<exists>d'. write_open (Some p) c d = (True, d') \<and> good d' \<and> dview d' = (dview d)(p \<mapsto> File (c @ drop (length c) old))"
proof -
  let ?f = "fput p (File (c @ drop (length c) old)) (d_fs d)"
  have ne: "p \<noteq> []" using assms(3) by auto
  have par: "dview d (butlast p) = Some Dir" using treeD [OF good_tree [OF assms(1)], of p] ne assms(3) by simp
  have g: "grant d (length c) = length c" using assms(1) by (simp add: good_def healthy_def grant_def)
  have "good (set_fs ?f d)"
    using tree_put [OF good_tree [OF assms(1)] par, of "File (c @ drop (length c) old)"] assms ne
    by (intro good_step) (simp_all add: fview_fput)
  then show ?thesis
    using assms g ne by (simp add: write_open_def Let_def fview_simple fview_fput good_spend)
qed

lemma base_there:
  assumes "good d" and "simple_path r" and "dview d (base_of r) = Some Dir"
  shows "kt_baseDirectory r d = (Inr (base_of r), d)" "kt_statePath r d = (Inr (state_path r), d)"
    "kt_crashMarkerPath r d = (Inr (crash_path r), d)"
  using mkdirs_existing [OF assms(1) layout_simple(1) [OF assms(2)] assms(3)]
  by (simp_all add: kt_baseDirectory_def kt_statePath_def kt_crashMarkerPath_def Let_def then_io_def bind_io_def ignored_def ret_def)

section \<open>An empty state file\<close>

definition emptied :: "path \<Rightarrow> disk \<Rightarrow> bool" where
  "emptied r d \<longleftrightarrow> good d \<and> simple_path r \<and> dview d (base_of r) = Some Dir \<and> dview d (state_path r) = Some (File [])
     \<and> dview d (crash_path r) \<noteq> Some Dir"

lemma emptied_read:
  assumes "emptied r d" and "\<forall>m. jparse J [] \<noteq> Some (JObj m)"
  shows "kt_readState J r d = (Inr confirmedEmpty, d)"
proof -
  have d: "good d" "simple_path r" "dview d (base_of r) = Some Dir" "dview d (state_path r) = Some (File [])"
    using assms(1) by (simp_all add: emptied_def)
  have "readText (state_path r) d = (Inr [], d)"
    using read_view [OF d(1) layout_simple(2) [OF d(2)]] d(4) by (simp add: readText_def)
  moreover have "fromJson J [] d = (Inl JSONException, d)"
    using assms(2) by (simp add: fromJson_def json_object_def bind_io_def throw_def split: option.splits json.splits)
  ultimately show ?thesis
    using base_there(2) [OF d(1-3)] by (simp add: kt_readState_def catch_io_def bind_io_def ret_def)
qed

lemma emptied_forgets:
  assumes "emptied r d" and "\<forall>m. jparse J [] \<noteq> Some (JObj m)"
  shows "fst (kt_getCurrentReleaseId J r d) = Inr []" "fst (kt_resolveBundlePath J r d) = Inr None"
proof -
  show "fst (kt_getCurrentReleaseId J r d) = Inr []"
    using emptied_read [OF assms] by (simp add: kt_getCurrentReleaseId_def bind_io_def ret_def confirmedEmpty_def)
  have d: "good d" "simple_path r" "dview d (base_of r) = Some Dir" "dview d (crash_path r) \<noteq> Some Dir"
    using assms(1) by (simp_all add: emptied_def)
  have "\<exists>d'. kt_processCrashMarkerIfPresent J r d = (Inr (), d') \<and> emptied r d'"
  proof (cases "path_exists (crash_path r) d")
    case False
    then show ?thesis
      using base_there(3) [OF d(1-3)] assms(1) by (simp add: kt_processCrashMarkerIfPresent_def bind_io_def ret_def)
  next
    case True
    have j: "\<exists>y. json_object J t d = (y, d)" for t
      by (simp add: json_object_def ret_def throw_def split: option.splits json.splits)
    have "\<exists>y. bind_io (readText (crash_path r)) (json_object J) d = (y, d)"
      using j by (cases "read_file (crash_path r) d") (simp_all add: bind_io_def readText_def)
    then obtain y where "bind_io (readText (crash_path r)) (json_object J) d = (y, d)" by blast
    then obtain content where c: "try_opt (bind_io (readText (crash_path r)) (json_object J)) d = (Inr content, d)"
      by (cases y) (simp_all add: try_opt_def catch_io_def bind_io_def ret_def)
    obtain ok d' where d': "delete_file (crash_path r) d = (ok, d')" "good d'" "dview d' = (dview d)(crash_path r := None)"
      using delete_file_Q [OF d(1) layout_simple(5) [OF d(2)] d(4), of "\<lambda>_. True"] by auto
    then have e: "emptied r d'" using assms(1) by (simp add: emptied_def)
    have "kt_rollbackToPrevious J r d' = (Inr (), d')"
      using emptied_read [OF e assms(2)] by (simp add: kt_rollbackToPrevious_def bind_io_def ret_def confirmedEmpty_def)
    with True c d' e show ?thesis
      using base_there(3) [OF d(1-3)]
      by (auto simp: kt_processCrashMarkerIfPresent_def bind_io_def then_io_def ignored_def ret_def)
  qed
  then obtain d' where p: "kt_processCrashMarkerIfPresent J r d = (Inr (), d')" and e: "emptied r d'" by blast
  from emptied_read [OF e assms(2)] p show "fst (kt_resolveBundlePath J r d) = Inr None"
    by (simp add: kt_resolveBundlePath_def then_io_def bind_io_def ret_def confirmedEmpty_def)
qed

section \<open>Two writers\<close>

text \<open>The first writer renames the temporary file that the second has just truncated.\<close>

lemma interrupted_writer:
  assumes "store_inv J r d"
  shows "\<exists>d1. race J r ([Begin s, Begin s'], d) ([Written (Inr ()), Opened (state_tmp r) (Some (state_path r)) s'], d1)
    \<and> emptied r d1 \<and> dview d1 (state_tmp r) = None"
proof -
  let ?A = "toJson J s"
  have r: "simple_path r" using store_invD(1) [OF assms(1)] .
  obtain e1 where e1: "kt_baseDirectory r d = (Inr (base_of r), e1)" "store_inv J r e1" "dview e1 (base_of r) = Some Dir"
    using kt_base_law [OF assms(1)] by blast
  let ?v = "dview e1"
  have g1: "good e1" using store_invD(2) [OF e1(2)] .
  have nd: "?v (state_tmp r) \<noteq> Some Dir" "?v (state_path r) \<noteq> Some Dir" "?v (crash_path r) \<noteq> Some Dir"
    using shapeD(1) [OF store_invD(4) [OF e1(2)]] by simp_all
  note tmp = layout_simple(3) [OF r]
  note st = layout_simple(2) [OF r]
  obtain e2 where e2: "open_truncate (state_tmp r) e1 = (True, e2)" "good e2" "dview e2 = ?v(state_tmp r \<mapsto> File [])"
    using open_truncate_view [OF g1 tmp] e1(3) nd(1) by auto
  obtain e3 where e3: "write_open (Some (state_tmp r)) ?A e2 = (True, e3)" "good e3" "dview e3 = ?v(state_tmp r \<mapsto> File ?A)"
    using write_open_view [OF e2(2) tmp, of "[]" ?A] e2(3) by auto
  have b3: "dview e3 (base_of r) = Some Dir" using e1(3) e3(3) by simp
  obtain e4 where e4: "open_truncate (state_tmp r) e3 = (True, e4)" "good e4" "dview e4 = ?v(state_tmp r \<mapsto> File [])"
    using open_truncate_view [OF e3(2) tmp] e3(3) b3 by auto
  have b4: "dview e4 (base_of r) = Some Dir" using e1(3) e4(3) by simp
  obtain e5 where e5: "rename_file (state_tmp r) (state_path r) e4 = (True, e5)" "good e5"
    "dview e5 = ?v(state_tmp r := None, state_path r \<mapsto> File [])"
    using rename_view [OF e4(2) tmp st, of "[]"] e4(3) b4 nd(2) by (auto simp: chg_def)
  have b5: "dview e5 (base_of r) = Some Dir" using e1(3) e5(3) by simp
  note base3 = base_there(1) [OF e3(2) r b3]
  note place4 = base_there(2) [OF e4(2) r b4]
  have "fold (race_at J r) [0, 0, 0, 1, 1, 0] ([Begin s, Begin s'], d)
      = ([Written (Inr ()), Opened (state_tmp r) (Some (state_path r)) s'], e5)"
    by (simp add: race_at_def e1(1) e2(1) e3(1) e4(1) e5(1) base3 place4 bind_io_def ignored_def)
  with race_schedule [of "[0, 0, 0, 1, 1, 0]" "[Begin s, Begin s']" J r d]
  have "race J r ([Begin s, Begin s'], d) ([Written (Inr ()), Opened (state_tmp r) (Some (state_path r)) s'], e5)" by simp
  moreover have "emptied r e5" "dview e5 (state_tmp r) = None" using e5(2,3) b5 r nd(3) by (simp_all add: emptied_def)
  ultimately show ?thesis by blast
qed

text \<open>The second then writes into the file that has become \<open>state.json\<close>, and its own renaming finds nothing.\<close>

lemma late_writer:
  assumes "emptied r d" and "dview d (state_tmp r) = None"
  shows "\<exists>d'. race J r ([Written x, Opened (state_tmp r) (Some (state_path r)) s], d) ([Written x, Written (Inr ())], d')
    \<and> dview d' (state_path r) = Some (File (toJson J s))"
proof -
  have d: "good d" "simple_path r" "dview d (base_of r) = Some Dir" "dview d (state_path r) = Some (File [])"
    using assms(1) by (simp_all add: emptied_def)
  obtain e where e: "write_open (Some (state_path r)) (toJson J s) d = (True, e)" "good e"
    "dview e = (dview d)(state_path r \<mapsto> File (toJson J s))"
    using write_open_view [OF d(1) layout_simple(2) [OF d(2)] d(4)] by auto
  have "dget e (state_tmp r) = None" using fview_simple [OF layout_simple(3) [OF d(2)]] e(3) assms(2) by simp
  then have gone: "rename_file (state_tmp r) (state_path r) e = (False, e)" by (simp add: rename_file_def)
  have "dview e (base_of r) = Some Dir" using d(3) e(3) by simp
  note place = base_there(2) [OF e(2) d(2) this]
  let ?ws = "[Written x, Opened (state_tmp r) (Some (state_path r)) s]"
  have "fold (race_at J r) [1, 1] (?ws, d) = ([Written x, Written (Inr ())], e)"
    by (simp add: race_at_def e(1) place gone bind_io_def ignored_def)
  with race_schedule [of "[1, 1]" ?ws J r d] have "race J r (?ws, d) ([Written x, Written (Inr ())], e)" by simp
  then show ?thesis using e(3) by auto
qed

text \<open>C10. Two calls that save their state at the same time can empty \<open>state.json\<close>: one truncates the temporary file the
  other is about to rename. Until the second has written, the app has no current release, and if it is killed then,
  its next start boots the bundle embedded in it, although both calls saved a state. When nothing interferes any
  more, the state of the second is there in the end.\<close>

theorem writers_can_empty_the_state:
  assumes "store_inv J r d" and "\<forall>m. jparse J [] \<noteq> Some (JObj m)"
  shows "\<exists>d1 d2. race J r ([Begin s, Begin s'], d) ([Written (Inr ()), Opened (state_tmp r) (Some (state_path r)) s'], d1)
    \<and> fst (kt_getCurrentReleaseId J r d1) = Inr [] \<and> fst (kt_resolveBundlePath J r d1) = Inr None
    \<and> race J r ([Written (Inr ()), Opened (state_tmp r) (Some (state_path r)) s'], d1) ([Written (Inr ()), Written (Inr ())], d2)
    \<and> dview d2 (state_path r) = Some (File (toJson J s'))"
proof -
  obtain d1 where d1: "race J r ([Begin s, Begin s'], d) ([Written (Inr ()), Opened (state_tmp r) (Some (state_path r)) s'], d1)"
      "emptied r d1" "dview d1 (state_tmp r) = None"
    using interrupted_writer [OF assms(1)] by blast
  from late_writer [OF d1(2,3)] emptied_forgets [OF d1(2) assms(2)] d1(1) show ?thesis by blast
qed

theorem writers_can_empty_the_state_witness:
  "\<exists>d d1. a_current (store_abs sample_json [''data''] d) = Some ''b''
     \<and> race sample_json [''data''] ([Begin confirmedEmpty, Begin confirmedEmpty], d)
         ([Written (Inr ()), Opened (state_tmp [''data'']) (Some (state_path [''data''])) confirmedEmpty], d1)
     \<and> fst (kt_getCurrentReleaseId sample_json [''data''] d1) = Inr [] \<and> fst (kt_resolveBundlePath sample_json [''data''] d1) = Inr None"
proof -
  obtain d where i: "store_inv sample_json [''data''] d" and a: "store_abs sample_json [''data''] d = a_run sample_events a_empty"
    using kotlin.sample_run by blast
  have "\<forall>m. jparse sample_json [] \<noteq> Some (JObj m)" by (simp add: sample_json_def sample_parse_def pvalue_def expect_def)
  from writers_can_empty_the_state [OF i this, of confirmedEmpty confirmedEmpty] sample_history(1) show ?thesis
    unfolding a [symmetric] by blast
qed

end
