(* ===== verification/ServerStorage.thy ===== *)
theory ServerStorage
  imports StoreView
begin

text \<open>
  Where the server keeps bundles: the interface \<open>Storage\<close> of \<open>internal/storage/storage.go\<close> as the record
  \<open>storage\<close> of its four operations, the implementation on a file system (\<open>local.go\<close>, over the disk of
  \<open>FileSystem\<close>) and the one on an S3 bucket (\<open>s3.go\<close>, over the client of the AWS library as a parameter).
  The locale \<open>blob_store\<close> states what the release service relies on; both implementations satisfy it.
\<close>

section \<open>The interface\<close>

datatype blob_error = InvalidKey | NotExist | BlobError

text \<open>A stream: the bytes it delivers, and whether it ends without an error.\<close>

record reader =
  rd_data :: string
  rd_complete :: bool

record 's storage =
  st_Put :: "string \<Rightarrow> reader \<Rightarrow> ('s, blob_error, unit) action"
  st_Get :: "string \<Rightarrow> 's \<Rightarrow> blob_error + reader"
  st_Delete :: "string \<Rightarrow> ('s, blob_error, unit) action"
  st_Exists :: "string \<Rightarrow> 's \<Rightarrow> blob_error + bool"

text \<open>The keys the release service uses, \<open>releases/<id>/bundle\<close>.\<close>

definition storage_key :: "string \<Rightarrow> string" where
  "storage_key i = ''releases/'' @ i @ ''/bundle''"

text \<open>
  What the service relies on. \<open>content\<close> is what a key holds; \<open>up\<close> says that the storage does not fail. An
  operation on one release's key leaves the other releases' alone, even when it fails.
\<close>

locale blob_store =
  fixes St :: "'s storage" and up :: "'s \<Rightarrow> bool" and content :: "'s \<Rightarrow> string \<Rightarrow> string option"
  assumes put_done: "simple_name i \<Longrightarrow> st_Put St (storage_key i) r s = (Inr (), s') \<Longrightarrow>
      rd_complete r \<and> content s' (storage_key i) = Some (rd_data r)"
    and put_frame: "simple_name i \<Longrightarrow> simple_name j \<Longrightarrow> i \<noteq> j \<Longrightarrow> st_Put St (storage_key i) r s = (x, s') \<Longrightarrow>
      content s' (storage_key j) = content s (storage_key j)"
    and get_content: "simple_name i \<Longrightarrow> st_Get St (storage_key i) s = Inr r \<Longrightarrow>
      (rd_complete r \<longrightarrow> content s (storage_key i) = Some (rd_data r))
      \<and> (\<forall>c. content s (storage_key i) = Some c \<longrightarrow> prefix (rd_data r) c)"
    and delete_done: "simple_name i \<Longrightarrow> st_Delete St (storage_key i) s = (Inr (), s') \<Longrightarrow> content s' (storage_key i) = None"
    and delete_frame: "simple_name i \<Longrightarrow> simple_name j \<Longrightarrow> i \<noteq> j \<Longrightarrow> st_Delete St (storage_key i) s = (x, s') \<Longrightarrow>
      content s' (storage_key j) = content s (storage_key j)"
    and exists_content: "simple_name i \<Longrightarrow> st_Exists St (storage_key i) s = Inr False \<Longrightarrow> content s (storage_key i) = None"
    and put_up: "up s \<Longrightarrow> simple_name i \<Longrightarrow> rd_complete r \<Longrightarrow> \<exists>s'. st_Put St (storage_key i) r s = (Inr (), s') \<and> up s'"
    and get_up: "up s \<Longrightarrow> simple_name i \<Longrightarrow> content s (storage_key i) = Some c \<Longrightarrow>
      st_Get St (storage_key i) s = Inr \<lparr>rd_data = c, rd_complete = True\<rparr>"

section \<open>\<open>path/filepath\<close>\<close>

text \<open>\<open>filepath.Clean\<close> of a relative path, and \<open>filepath.IsLocal\<close>.\<close>

definition clean_step :: "path \<Rightarrow> string \<Rightarrow> path" where
  "clean_step acc c =
     (if c = [] \<or> c = ''.'' then acc
      else if c = ''..'' then (if acc = [] \<or> last acc = ''..'' then acc @ [c] else butlast acc)
      else acc @ [c])"

definition clean_relative :: "string \<Rightarrow> path" where
  "clean_relative s = foldl clean_step [] (split_on (CHR ''/'') s)"

definition IsLocal :: "string \<Rightarrow> bool" where
  "IsLocal s \<longleftrightarrow> s \<noteq> [] \<and> hd s \<noteq> CHR ''/'' \<and> (clean_relative s = [] \<or> hd (clean_relative s) \<noteq> ''..'')"

section \<open>\<open>local.go\<close>\<close>

definition local_resolve :: "path \<Rightarrow> string \<Rightarrow> blob_error + path" where
  "local_resolve basePath key =
     (let full = norm (basePath @ comps key) in if \<not> IsLocal key then Inl InvalidKey else Inr full)"

definition NewLocal :: "path \<Rightarrow> (disk, blob_error, path) action" where
  "NewLocal basePath d = (case mkdirs basePath d of (ok, d') \<Rightarrow> (if ok then Inr basePath else Inl BlobError, d'))"

text \<open>The operating system accepts no path with a NUL character.\<close>

definition local_Put :: "path \<Rightarrow> string \<Rightarrow> reader \<Rightarrow> (disk, blob_error, unit) action" where
  "local_Put basePath key r d =
     (case local_resolve basePath key of
        Inl e \<Rightarrow> (Inl e, d)
      | Inr full \<Rightarrow>
          if CHR 0x00 \<in> set key then (Inl BlobError, d)
          else (case mkdirs (butlast full) d of
                  (False, d1) \<Rightarrow> (Inl BlobError, d1)
                | (True, d1) \<Rightarrow>
                    (case write_file full (rd_data r) d1 of
                       (ok, d2) \<Rightarrow> (if ok \<and> rd_complete r then Inr () else Inl BlobError, d2))))"

text \<open>A directory can be opened, but not read.\<close>

definition local_Get :: "path \<Rightarrow> string \<Rightarrow> disk \<Rightarrow> blob_error + reader" where
  "local_Get basePath key d =
     (case local_resolve basePath key of
        Inl e \<Rightarrow> Inl e
      | Inr full \<Rightarrow>
          if CHR 0x00 \<in> set key then Inl BlobError
          else (case dget d full of
                  None \<Rightarrow> Inl NotExist
                | Some n \<Rightarrow>
                    if \<not> may_read d full then Inl BlobError
                    else (case n of File c \<Rightarrow> Inr \<lparr>rd_data = c, rd_complete = True\<rparr>
                          | Dir \<Rightarrow> Inr \<lparr>rd_data = [], rd_complete = False\<rparr>)))"

text \<open>\<open>ENOTDIR\<close>, an ancestor that is a file, does not count as \<open>os.ErrNotExist\<close>.\<close>

definition below_file :: "disk \<Rightarrow> path \<Rightarrow> bool" where
  "below_file d p \<longleftrightarrow> list_ex (\<lambda>n. case dget d (take n p) of Some (File _) \<Rightarrow> True | _ \<Rightarrow> False) [0..<length p]"

definition local_Delete :: "path \<Rightarrow> string \<Rightarrow> (disk, blob_error, unit) action" where
  "local_Delete basePath key d =
     (case local_resolve basePath key of
        Inl e \<Rightarrow> (Inl e, d)
      | Inr full \<Rightarrow>
          if CHR 0x00 \<in> set key then (Inl BlobError, d)
          else (case delete_file full d of
                  (removed, d') \<Rightarrow> (if removed \<or> \<not> path_exists full d \<and> \<not> below_file d full then Inr () else Inl BlobError, d')))"

definition local_Exists :: "path \<Rightarrow> string \<Rightarrow> disk \<Rightarrow> blob_error + bool" where
  "local_Exists basePath key d =
     (case local_resolve basePath key of
        Inl e \<Rightarrow> Inl e
      | Inr full \<Rightarrow> if CHR 0x00 \<in> set key \<or> below_file d full then Inl BlobError else Inr (path_exists full d))"

definition local_storage :: "path \<Rightarrow> disk storage" where
  "local_storage basePath =
     \<lparr>st_Put = local_Put basePath, st_Get = local_Get basePath, st_Delete = local_Delete basePath, st_Exists = local_Exists basePath\<rparr>"

section \<open>\<open>s3.go\<close>\<close>

text \<open>
  The client of the AWS library: each call takes the bucket and the key; \<open>HeadObject\<close> answers with the code of an
  API error (\<open>Inl (Some code)\<close>), another error, or success. \<open>objects\<close> is what the service holds.
\<close>

record 'b s3_client =
  PutObject :: "string \<Rightarrow> string \<Rightarrow> reader \<Rightarrow> 'b \<Rightarrow> bool \<times> 'b"
  GetObject :: "string \<Rightarrow> string \<Rightarrow> 'b \<Rightarrow> reader option"
  DeleteObject :: "string \<Rightarrow> string \<Rightarrow> 'b \<Rightarrow> bool \<times> 'b"
  HeadObject :: "string \<Rightarrow> string \<Rightarrow> 'b \<Rightarrow> string option + unit"

definition s3_Put :: "'b s3_client \<Rightarrow> string \<Rightarrow> string \<Rightarrow> reader \<Rightarrow> ('b, blob_error, unit) action" where
  "s3_Put client bucket key r s =
     (case PutObject client bucket key r s of (ok, s') \<Rightarrow> (if ok then Inr () else Inl BlobError, s'))"

definition s3_Get :: "'b s3_client \<Rightarrow> string \<Rightarrow> string \<Rightarrow> 'b \<Rightarrow> blob_error + reader" where
  "s3_Get client bucket key s = (case GetObject client bucket key s of None \<Rightarrow> Inl BlobError | Some r \<Rightarrow> Inr r)"

definition s3_Delete :: "'b s3_client \<Rightarrow> string \<Rightarrow> string \<Rightarrow> ('b, blob_error, unit) action" where
  "s3_Delete client bucket key s =
     (case DeleteObject client bucket key s of (ok, s') \<Rightarrow> (if ok then Inr () else Inl BlobError, s'))"

definition s3_Exists :: "'b s3_client \<Rightarrow> string \<Rightarrow> string \<Rightarrow> 'b \<Rightarrow> blob_error + bool" where
  "s3_Exists client bucket key s =
     (case HeadObject client bucket key s of
        Inr _ \<Rightarrow> Inr True
      | Inl (Some code) \<Rightarrow> if code = ''NotFound'' \<or> code = ''NoSuchKey'' then Inr False else Inl BlobError
      | Inl None \<Rightarrow> Inl BlobError)"

definition s3_storage :: "'b s3_client \<Rightarrow> string \<Rightarrow> 'b storage" where
  "s3_storage client bucket =
     \<lparr>st_Put = s3_Put client bucket, st_Get = s3_Get client bucket, st_Delete = s3_Delete client bucket,
      st_Exists = s3_Exists client bucket\<rparr>"

text \<open>Documented behaviour of the object service, on the objects of one bucket.\<close>

definition s3_ok :: "'b s3_client \<Rightarrow> string \<Rightarrow> ('b \<Rightarrow> string \<Rightarrow> string option) \<Rightarrow> ('b \<Rightarrow> bool) \<Rightarrow> bool" where
  "s3_ok client bucket objects online \<longleftrightarrow>
     (\<forall>k r s s'. PutObject client bucket k r s = (True, s') \<longrightarrow> rd_complete r \<and> objects s' k = Some (rd_data r))
     \<and> (\<forall>k r s ok s' k'. PutObject client bucket k r s = (ok, s') \<longrightarrow> k' \<noteq> k \<longrightarrow> objects s' k' = objects s k')
     \<and> (\<forall>k r s. GetObject client bucket k s = Some r \<longrightarrow>
          (\<exists>c. objects s k = Some c \<and> prefix (rd_data r) c \<and> (rd_complete r \<longrightarrow> rd_data r = c)))
     \<and> (\<forall>k s s'. DeleteObject client bucket k s = (True, s') \<longrightarrow> objects s' k = None)
     \<and> (\<forall>k s ok s' k'. DeleteObject client bucket k s = (ok, s') \<longrightarrow> k' \<noteq> k \<longrightarrow> objects s' k' = objects s k')
     \<and> (\<forall>k s code. HeadObject client bucket k s = Inl (Some code) \<longrightarrow> code \<in> {''NotFound'', ''NoSuchKey''} \<longrightarrow> objects s k = None)
     \<and> (\<forall>k r s. online s \<longrightarrow> rd_complete r \<longrightarrow> (\<exists>s'. PutObject client bucket k r s = (True, s') \<and> online s'))
     \<and> (\<forall>k c s. online s \<longrightarrow> objects s k = Some c \<longrightarrow> GetObject client bucket k s = Some \<lparr>rd_data = c, rd_complete = True\<rparr>)"

section \<open>Keys stay below the root\<close>

lemma clean_stays_outside: "hd acc = ''..'' \<Longrightarrow> acc \<noteq> [] \<Longrightarrow> hd (clean_step acc c) = ''..'' \<and> clean_step acc c \<noteq> []"
  by (cases acc) (auto simp: clean_step_def)

lemma clean_step_inside:
  assumes "''..'' \<notin> set acc"
  shows "hd (clean_step acc c) = ''..'' \<and> clean_step acc c \<noteq> []
    \<or> ''..'' \<notin> set (clean_step acc c) \<and> (if c = [] then b @ acc else norm_step (b @ acc) c) = b @ clean_step acc c"
proof (cases "c = ''..''")
  case True
  then show ?thesis
    using assms by (cases acc rule: rev_cases) (auto simp: clean_step_def norm_step_def butlast_append)
next
  case False
  then show ?thesis using assms by (auto simp: clean_step_def norm_step_def)
qed

lemma clean_norm:
  "hd (foldl clean_step [] cs) = ''..'' \<and> foldl clean_step [] cs \<noteq> []
    \<or> ''..'' \<notin> set (foldl clean_step [] cs)
       \<and> foldl norm_step b (filter (\<lambda>c. c \<noteq> []) cs) = b @ foldl clean_step [] cs"
proof (induction cs rule: rev_induct)
  case (snoc c cs)
  define acc where "acc = foldl clean_step [] cs"
  have new: "foldl clean_step [] (cs @ [c]) = clean_step acc c"
    "foldl norm_step b (filter (\<lambda>c. c \<noteq> []) (cs @ [c]))
       = (let n = foldl norm_step b (filter (\<lambda>c. c \<noteq> []) cs) in if c = [] then n else norm_step n c)"
    by (simp_all add: acc_def)
  from snoc [folded acc_def] show ?case
  proof
    assume "hd acc = ''..'' \<and> acc \<noteq> []"
    then show ?thesis using clean_stays_outside [of acc c] unfolding new by simp
  next
    assume "''..'' \<notin> set acc \<and> foldl norm_step b (filter (\<lambda>c. c \<noteq> []) cs) = b @ acc"
    then show ?thesis using clean_step_inside [of acc c b] unfolding new Let_def by (cases "c = []") auto
  qed
qed simp

lemma resolve_below:
  assumes "local_resolve basePath key = Inr p"
  shows "prefix (norm basePath) p"
proof -
  have l: "IsLocal key" and p: "p = norm (basePath @ comps key)"
    using assms by (simp_all add: local_resolve_def Let_def split: if_splits)
  have "p = foldl norm_step (norm basePath) (comps key)" using p by (simp add: norm_def)
  then have "p = norm basePath @ clean_relative key"
    using clean_norm [of "split_on (CHR ''/'') key" "norm basePath"] l
    by (auto simp: IsLocal_def clean_relative_def comps_def)
  then show ?thesis by simp
qed

section \<open>The two implementations satisfy the interface\<close>

definition blob_path :: "path \<Rightarrow> string \<Rightarrow> path" where
  "blob_path basePath i = norm basePath @ [''releases'', i, ''bundle'']"

lemma norm_append_simple: "simple_path q \<Longrightarrow> norm (p @ q) = norm p @ q"
proof (induction q rule: rev_induct)
  case (snoc c q)
  have "norm (p @ q @ [c]) = norm_step (norm (p @ q)) c" using norm_snoc [of "p @ q" c] by simp
  with snoc show ?case by (simp add: norm_step_def simple_name_def)
qed simp

lemma norm_dotless: "''.'' \<notin> set (norm p) \<and> ''..'' \<notin> set (norm p)"
  by (induction p rule: rev_induct) (auto simp: norm_snoc norm_step_def norm_def [of "[]"] dest: in_set_butlastD)

lemma norm_plain: "''.'' \<notin> set p \<Longrightarrow> ''..'' \<notin> set p \<Longrightarrow> norm p = p"
  by (induction p rule: rev_induct) (auto simp: norm_snoc norm_step_def norm_def [of "[]"])

lemma norm_norm [simp]: "norm (norm p) = norm p"
  by (rule norm_plain) (simp_all add: norm_dotless)

lemma bundle_name [simp]: "simple_name ''bundle''"
  by (simp add: simple_name_def)

lemma split_key: "simple_name i \<Longrightarrow> split_on (CHR ''/'') (storage_key i) = [''releases'', i, ''bundle'']"
proof -
  assume i: "simple_name i"
  have "storage_key i = ''releases'' @ CHR ''/'' # i @ CHR ''/'' # ''bundle''" by (simp add: storage_key_def)
  with i show ?thesis by (simp only: split_on_append_sep) (simp add: split_on_no_sep simple_name_def)
qed

lemma key_resolves:
  assumes "simple_name i"
  shows "local_resolve basePath (storage_key i) = Inr (blob_path basePath i)" "CHR 0x00 \<notin> set (storage_key i)"
    "comps (storage_key i) = [''releases'', i, ''bundle'']"
proof -
  show c: "comps (storage_key i) = [''releases'', i, ''bundle'']"
    using assms by (simp add: comps_def split_key [OF assms] simple_name_def)
  have "IsLocal (storage_key i)"
    unfolding IsLocal_def clean_relative_def split_key [OF assms]
    using assms by (simp add: clean_step_def simple_name_def storage_key_def)
  then show "local_resolve basePath (storage_key i) = Inr (blob_path basePath i)"
    using assms by (simp add: local_resolve_def Let_def c blob_path_def norm_append_simple)
  show "CHR 0x00 \<notin> set (storage_key i)" using assms by (simp add: storage_key_def simple_name_def)
qed

definition local_content :: "path \<Rightarrow> disk \<Rightarrow> string \<Rightarrow> string option" where
  "local_content basePath d key =
     (case dget d (basePath @ comps key) of Some (File c) \<Rightarrow> Some c | _ \<Rightarrow> None)"

text \<open>A disk that does not fail, with nothing in the way of the bundles.\<close>

definition local_up :: "path \<Rightarrow> disk \<Rightarrow> bool" where
  "local_up basePath d \<longleftrightarrow> simple_path basePath \<and> good d \<and> (\<forall>i. simple_name i \<longrightarrow>
     no_file_above (basePath @ [''releases'', i]) (dview d) \<and> dview d (blob_path basePath i) \<noteq> Some Dir)"

lemma blob_path_norm:
  assumes "simple_name i"
  shows "norm (blob_path basePath i) = blob_path basePath i" "blob_path basePath i \<noteq> []"
    "butlast (blob_path basePath i) = norm basePath @ [''releases'', i]"
  using assms by (simp_all add: blob_path_def norm_append_simple butlast_append)

lemma blob_path_inj: "blob_path b i = blob_path b j \<Longrightarrow> i = j"
  by (simp add: blob_path_def)

text \<open>Creating directories changes no file, and creates none.\<close>

definition fcontent :: "disk \<Rightarrow> path \<Rightarrow> string option" where
  "fcontent d p = (case dget d p of Some (File c) \<Rightarrow> Some c | _ \<Rightarrow> None)"

lemma make_dirs_content:
  "\<forall>p \<in> set ps. norm p \<noteq> [] \<Longrightarrow> fcontent (snd (make_dirs ps d)) q = fcontent d q"
proof (induction ps d rule: make_dirs.induct)
  case (2 p ps d)
  show ?case
  proof (cases "dget d p")
    case None
    then have "fcontent (set_fs (fput p Dir (d_fs d)) d) q = fcontent d q"
      using "2.prems" fget_cong_norm [of p q "d_fs d"] by (auto simp: fcontent_def fs_simps)
    with None "2" show ?thesis by simp
  next
    case (Some n)
    with "2" show ?thesis by (cases n) simp_all
  qed
qed simp

lemma write_content:
  assumes "norm p \<noteq> []"
  shows "norm q \<noteq> norm p \<Longrightarrow> fcontent (snd (write_file p c d)) q = fcontent d q"
    "fst (write_file p c d) \<Longrightarrow> fcontent (snd (write_file p c d)) p = Some c"
  using assms by (auto simp: write_file_def Let_def fcontent_def fs_simps)

lemma delete_content:
  assumes "norm p \<noteq> []"
  shows "norm q \<noteq> norm p \<Longrightarrow> fcontent (snd (delete_file p d)) q = fcontent d q"
    "fst (delete_file p d) \<Longrightarrow> fcontent (snd (delete_file p d)) p = None"
  using assms by (auto simp: delete_file_def fcontent_def fs_simps split: option.splits node.splits if_splits)

lemma make_dirs_nonempty:
  assumes "p \<in> set (tl (prefixes (norm q)))"
  shows "norm p \<noteq> []"
proof -
  have p: "p \<noteq> [] \<and> prefix p (norm q)" using assms by (cases "norm q") auto
  then have "set p \<subseteq> set (norm q)" by (auto simp: prefix_def)
  then have "norm p = p" using norm_dotless [of q] by (intro norm_plain) auto
  with p show ?thesis by simp
qed

lemma mkdirs_content: "fcontent (snd (mkdirs p d)) q = fcontent d q"
  unfolding mkdirs_def by (rule make_dirs_content) (intro ballI make_dirs_nonempty)

text \<open>What the operations leave alone: everything outside the root, but for missing directories above it.\<close>

lemma make_dirs_frame:
  "\<forall>p \<in> set ps. norm p \<noteq> [] \<Longrightarrow> dget (snd (make_dirs ps d)) q = dget d q
     \<or> dget d q = None \<and> dget (snd (make_dirs ps d)) q = Some Dir \<and> norm q \<in> norm ` set ps"
proof (induction ps d rule: make_dirs.induct)
  case (2 p ps d)
  show ?case
  proof (cases "dget d p")
    case None
    show ?thesis
    proof (cases "may_write d p")
      case True
      let ?d = "set_fs (fput p Dir (d_fs d)) d"
      have ih: "dget (snd (make_dirs ps ?d)) q = dget ?d q
          \<or> dget ?d q = None \<and> dget (snd (make_dirs ps ?d)) q = Some Dir \<and> norm q \<in> norm ` set ps"
        using "2.IH"(1) [OF None True] "2.prems" by simp
      have st: "dget ?d q = (if norm q = norm p then Some Dir else dget d q)" using "2.prems" by (simp add: fs_simps)
      have "dget d q = None" if "norm q = norm p" using None that by (metis fget_cong_norm)
      then show ?thesis using ih st None True by (auto split: if_splits)
    qed (simp add: None)
  next
    case (Some n)
    with "2" show ?thesis by (cases n) auto
  qed
qed simp

lemma mkdirs_frame:
  "dget (snd (mkdirs p d)) q = dget d q \<or> dget d q = None \<and> dget (snd (mkdirs p d)) q = Some Dir \<and> prefix (norm q) (norm p)"
proof -
  let ?ps = "tl (prefixes (norm p))"
  have "norm x = x \<and> prefix x (norm p)" if "x \<in> set ?ps" for x
  proof -
    have x: "prefix x (norm p)" using that by (cases "norm p") auto
    then have "set x \<subseteq> set (norm p)" by (auto simp: prefix_def)
    with x show ?thesis using norm_dotless [of p] by (auto intro!: norm_plain)
  qed
  then have "prefix (norm q) (norm p)" if "norm q \<in> norm ` set ?ps" using that by auto
  moreover have "\<forall>x \<in> set ?ps. norm x \<noteq> []" by (intro ballI make_dirs_nonempty)
  ultimately show ?thesis using make_dirs_frame [of ?ps d q] unfolding mkdirs_def by blast
qed

lemma write_file_frame: "norm p \<noteq> [] \<Longrightarrow> norm q \<noteq> norm p \<Longrightarrow> dget (snd (write_file p c d)) q = dget d q"
  by (auto simp: write_file_def Let_def fs_simps)

lemma delete_file_frame: "norm p \<noteq> [] \<Longrightarrow> norm q \<noteq> norm p \<Longrightarrow> dget (snd (delete_file p d)) q = dget d q"
  by (auto simp: delete_file_def fs_simps split: option.splits node.splits)

lemma resolved_below:
  assumes "local_resolve basePath key = Inr p" and "\<not> prefix (norm basePath) (norm q)"
  shows "norm p = p" "p \<noteq> []" "norm q \<noteq> p" "prefix x p \<Longrightarrow> \<not> prefix (norm basePath) x \<Longrightarrow> prefix x (norm basePath)"
proof -
  have b: "prefix (norm basePath) p" by (rule resolve_below [OF assms(1)])
  show "norm p = p" using assms(1) by (auto simp: local_resolve_def Let_def split: if_splits)
  show "p \<noteq> []" using b assms(2) by auto
  show "norm q \<noteq> p" using b assms(2) by blast
  show "prefix x p \<Longrightarrow> \<not> prefix (norm basePath) x \<Longrightarrow> prefix x (norm basePath)"
    using b by (meson prefix_same_cases)
qed

lemma local_Delete_frame:
  assumes "\<not> prefix (norm basePath) (norm q)"
  shows "dget (snd (local_Delete basePath key d)) q = dget d q"
proof (cases "local_resolve basePath key")
  case (Inr p)
  note b = resolved_below [OF Inr assms]
  have "dget (snd (delete_file p d)) q = dget d q" using b by (intro delete_file_frame) simp_all
  with Inr show ?thesis by (simp add: local_Delete_def split: prod.split) auto
qed (simp add: local_Delete_def)

lemma local_Put_frame:
  assumes "\<not> prefix (norm basePath) (norm q)"
  shows "dget (snd (local_Put basePath key r d)) q = dget d q
    \<or> dget d q = None \<and> dget (snd (local_Put basePath key r d)) q = Some Dir \<and> prefix (norm q) (norm basePath)"
proof (cases "local_resolve basePath key")
  case (Inr p)
  note b = resolved_below [OF Inr assms]
  obtain ok d1 where m: "mkdirs (butlast p) d = (ok, d1)" by fastforce
  have "norm (butlast p) = butlast p"
    using norm_dotless [of p] b(1) by (intro norm_plain) (auto dest: in_set_butlastD)
  then have "dget d1 q = dget d q \<or> dget d q = None \<and> dget d1 q = Some Dir \<and> prefix (norm q) (norm basePath)"
    using mkdirs_frame [of "butlast p" d q] m b(4) [of "norm q"] assms prefixeq_butlast [of p] prefix_order.trans by fastforce
  moreover obtain ok' d2 where w: "write_file p (rd_data r) d1 = (ok', d2)" by fastforce
  moreover have "dget d2 q = dget d1 q" using write_file_frame [of p q "rd_data r" d1] b w by simp
  moreover have "snd (local_Put basePath key r d) \<in> {d, d1, d2}" by (cases ok) (simp_all add: local_Put_def Inr m w)
  ultimately show ?thesis by auto
qed (simp add: local_Put_def)

lemma local_refuses:
  assumes "\<not> prefix (norm basePath) (norm (basePath @ comps key))"
  shows "local_Put basePath key r d = (Inl InvalidKey, d)" "local_Get basePath key d = Inl InvalidKey"
    "local_Delete basePath key d = (Inl InvalidKey, d)" "local_Exists basePath key d = Inl InvalidKey"
proof -
  have "local_resolve basePath key = Inl InvalidKey"
    using assms resolve_below [of basePath key] by (auto simp: local_resolve_def Let_def split: if_splits)
  then show "local_Put basePath key r d = (Inl InvalidKey, d)" "local_Get basePath key d = Inl InvalidKey"
    "local_Delete basePath key d = (Inl InvalidKey, d)" "local_Exists basePath key d = Inl InvalidKey"
    by (simp_all add: local_Put_def local_Get_def local_Delete_def local_Exists_def)
qed

lemma local_content_f: "simple_name i \<Longrightarrow> local_content basePath d (storage_key i) = fcontent d (blob_path basePath i)"
  using key_resolves(3) [of i] fget_cong_norm [of "basePath @ [''releases'', i, ''bundle'']" "blob_path basePath i" "d_fs d"]
  by (simp add: local_content_def fcontent_def blob_path_norm norm_append_simple) (simp add: blob_path_def)

lemma local_Put_simple:
  assumes "simple_name i"
  shows "local_Put b (storage_key i) r d =
    (case mkdirs (norm b @ [''releases'', i]) d of
       (False, d1) \<Rightarrow> (Inl BlobError, d1)
     | (True, d1) \<Rightarrow> (case write_file (blob_path b i) (rd_data r) d1 of
           (ok, d2) \<Rightarrow> (if ok \<and> rd_complete r then Inr () else Inl BlobError, d2)))"
  unfolding local_Put_def key_resolves [OF assms] using key_resolves(2) [OF assms]
  by (simp add: blob_path_norm [OF assms])

lemma local_Put_content:
  assumes i: "simple_name i" and j: "simple_name j"
    and p: "local_Put b (storage_key i) r d = (x, d')"
  shows "i \<noteq> j \<Longrightarrow> fcontent d' (blob_path b j) = fcontent d (blob_path b j)"
    "x = Inr () \<Longrightarrow> rd_complete r \<and> fcontent d' (blob_path b i) = Some (rd_data r)"
proof -
  obtain ok d1 where m: "mkdirs (norm b @ [''releases'', i]) d = (ok, d1)" by fastforce
  obtain ok' d2 where w: "write_file (blob_path b i) (rd_data r) d1 = (ok', d2)" by fastforce
  have d1: "fcontent d1 q = fcontent d q" for q using mkdirs_content [of "norm b @ [''releases'', i]" d q] m by simp
  note n = blob_path_norm [OF i]
  have d2: "i \<noteq> j \<Longrightarrow> fcontent d2 (blob_path b j) = fcontent d1 (blob_path b j)"
    using write_content(1) [of "blob_path b i" "blob_path b j" "rd_data r" d1] n blob_path_norm [OF j] blob_path_inj [of b i j] w
    by (metis snd_conv)
  show "i \<noteq> j \<Longrightarrow> fcontent d' (blob_path b j) = fcontent d (blob_path b j)"
    using p d1 d2 unfolding local_Put_simple [OF i] m by (cases ok) (auto simp: w)
  show "x = Inr () \<Longrightarrow> rd_complete r \<and> fcontent d' (blob_path b i) = Some (rd_data r)"
    using p write_content(2) [of "blob_path b i" "rd_data r" d1] n unfolding local_Put_simple [OF i] m
    by (cases ok) (auto simp: w split: if_splits)
qed

lemma local_Get_content:
  assumes i: "simple_name i" and g: "local_Get b (storage_key i) d = Inr r"
  shows "(rd_complete r \<longrightarrow> fcontent d (blob_path b i) = Some (rd_data r))
    \<and> (\<forall>c. fcontent d (blob_path b i) = Some c \<longrightarrow> prefix (rd_data r) c)"
  using g unfolding local_Get_def key_resolves [OF i]
  by (auto simp: key_resolves(2) [OF i] fcontent_def split: option.splits if_splits node.splits)

lemma local_Delete_content:
  assumes i: "simple_name i" and j: "simple_name j"
    and p: "local_Delete b (storage_key i) d = (x, d')"
  shows "i \<noteq> j \<Longrightarrow> fcontent d' (blob_path b j) = fcontent d (blob_path b j)"
    "x = Inr () \<Longrightarrow> fcontent d' (blob_path b i) = None"
proof -
  obtain ok d1 where m: "delete_file (blob_path b i) d = (ok, d1)" by fastforce
  note n = blob_path_norm [OF i]
  have x: "(x, d') = (if ok \<or> \<not> path_exists (blob_path b i) d \<and> \<not> below_file d (blob_path b i) then Inr () else Inl BlobError, d1)"
    using p unfolding local_Delete_def key_resolves [OF i] by (simp add: key_resolves(2) [OF i] m)
  show "i \<noteq> j \<Longrightarrow> fcontent d' (blob_path b j) = fcontent d (blob_path b j)"
    using delete_content(1) [of "blob_path b i" "blob_path b j" d] n blob_path_norm [OF j] blob_path_inj [of b i j] m x
    by (metis snd_conv)
  show "x = Inr () \<Longrightarrow> fcontent d' (blob_path b i) = None"
  proof (cases ok)
    case True
    then show ?thesis using delete_content(2) [of "blob_path b i" d] n m x by simp
  next
    case False
    assume "x = Inr ()"
    with False x have "dget d (blob_path b i) = None" by (simp add: path_exists_def split: if_splits)
    moreover from this m have "d1 = d" by (simp add: delete_file_def split: if_splits)
    ultimately show ?thesis using x by (simp add: fcontent_def)
  qed
qed

text \<open>On a disk that does not fail, \<open>Put\<close> succeeds and leaves such a disk.\<close>

lemma local_Put_up:
  assumes i: "simple_name i" and u: "local_up b d" and r: "rd_complete r"
  shows "\<exists>d'. local_Put b (storage_key i) r d = (Inr (), d') \<and> local_up b d'"
proof -
  let ?dir = "b @ [''releases'', i]" and ?p = "blob_path b i"
  have b: "simple_path b" and g: "good d" and nf: "no_file_above ?dir (dview d)" and nd: "dview d ?p \<noteq> Some Dir"
    using u i unfolding local_up_def by auto
  have nb: "norm b = b" using b by (rule norm_simple)
  have sd: "simple_path ?dir" and sp: "simple_path ?p" using b i by (simp_all add: blob_path_def nb)
  obtain d1 where m: "mkdirs ?dir d = (True, d1)"
    and c1: "chg (\<lambda>w. \<exists>q. prefix q ?dir \<and> w = with_dir q (dview d)) d (with_dir ?dir (dview d)) d1"
    by (rule mkdirs_view [OF g sd nf])
  from c1 have g1: "good d1" and v1: "dview d1 = with_dir ?dir (dview d)" by auto
  have par: "dview d1 (butlast ?p) = Some Dir" using blob_path_norm(3) [OF i] by (simp add: v1 with_dir_def nb)
  have np: "\<not> prefix ?p ?dir" by (simp add: blob_path_def nb)
  then have nd1: "dview d1 ?p \<noteq> Some Dir" using nd by (simp add: v1 with_dir_def)
  let ?new = "(dview d1)(?p \<mapsto> File (rd_data r))"
  obtain d2 where w: "write_file ?p (rd_data r) d1 = (True, d2)"
    and c2: "chg (\<lambda>w. w = (dview d1)(?p \<mapsto> File []) \<or> w = ?new) d1 ?new d2"
    by (rule write_view [OF g1 sp par nd1])
  from c2 have g2: "good d2" and v2: "dview d2 = ?new" by auto
  have "local_up b d2"
    unfolding local_up_def
  proof (intro conjI allI impI b g2)
    fix j assume j: "simple_name j"
    have nj: "no_file_above (b @ [''releases'', j]) (dview d)" "dview d (blob_path b j) \<noteq> Some Dir"
      using u j unfolding local_up_def by auto
    have lp: "\<not> prefix ?p (b @ [''releases'', j])" by (simp add: blob_path_def nb)
    then show "no_file_above (b @ [''releases'', j]) (dview d2)"
      using nj(1) unfolding no_file_above_def v2 v1 with_dir_def by auto
    have "\<not> prefix (blob_path b j) ?dir" by (simp add: blob_path_def nb)
    then show "dview d2 (blob_path b j) \<noteq> Some Dir" using nj(2) by (simp add: v2 v1 with_dir_def)
  qed
  then show ?thesis by (simp add: local_Put_simple [OF i] nb m w r)
qed

lemma local_Get_up:
  assumes i: "simple_name i" and u: "local_up b d" and c: "fcontent d (blob_path b i) = Some c"
  shows "local_Get b (storage_key i) d = Inr \<lparr>rd_data = c, rd_complete = True\<rparr>"
proof -
  have "may_read d p" for p using u by (simp add: local_up_def)
  then show ?thesis
    using c unfolding local_Get_def key_resolves [OF i]
    by (auto simp: key_resolves(2) [OF i] fcontent_def split: option.splits node.splits)
qed

interpretation on_disk: blob_store "local_storage b" "local_up b" "local_content b" for b :: path
proof
  fix i r s assume i: "simple_name i" and e: "st_Exists (local_storage b) (storage_key i) s = Inr False"
  then have "dget s (blob_path b i) = None"
    by (simp add: local_storage_def local_Exists_def key_resolves [OF i] path_exists_def split: if_splits)
  then show "local_content b s (storage_key i) = None" by (simp add: local_content_f [OF i] fcontent_def)
qed (use local_Put_content  local_Get_content  local_Delete_content  local_Put_up  local_Get_up 
    in \<open>simp_all add: local_storage_def local_content_f \<close>)

lemma s3_okD:
  assumes "s3_ok client bucket objects online"
  shows "PutObject client bucket k r s = (True, s') \<Longrightarrow> rd_complete r \<and> objects s' k = Some (rd_data r)"
    "PutObject client bucket k r s = (ok, s') \<Longrightarrow> k' \<noteq> k \<Longrightarrow> objects s' k' = objects s k'"
    "GetObject client bucket k s = Some r \<Longrightarrow>
       \<exists>c. objects s k = Some c \<and> prefix (rd_data r) c \<and> (rd_complete r \<longrightarrow> rd_data r = c)"
    "DeleteObject client bucket k s = (True, s') \<Longrightarrow> objects s' k = None"
    "DeleteObject client bucket k s = (ok, s') \<Longrightarrow> k' \<noteq> k \<Longrightarrow> objects s' k' = objects s k'"
    "HeadObject client bucket k s = Inl (Some code) \<Longrightarrow> code = ''NotFound'' \<or> code = ''NoSuchKey'' \<Longrightarrow> objects s k = None"
    "online s \<Longrightarrow> rd_complete r \<Longrightarrow> \<exists>s'. PutObject client bucket k r s = (True, s') \<and> online s'"
    "online s \<Longrightarrow> objects s k = Some c \<Longrightarrow> GetObject client bucket k s = Some \<lparr>rd_data = c, rd_complete = True\<rparr>"
  using assms by (auto simp: s3_ok_def)

lemma s3_blob_store:
  assumes ok: "s3_ok client bucket objects online"
  shows "blob_store (s3_storage client bucket) online objects"
proof
  fix i j r s x s'
  have inj: "i \<noteq> j \<Longrightarrow> storage_key j \<noteq> storage_key i" by (simp add: storage_key_def)
  show "st_Put (s3_storage client bucket) (storage_key i) r s = (Inr (), s') \<Longrightarrow>
      rd_complete r \<and> objects s' (storage_key i) = Some (rd_data r)"
    using s3_okD(1) [OF ok] by (simp add: s3_storage_def s3_Put_def split: prod.splits if_splits)
  show "i \<noteq> j \<Longrightarrow> st_Put (s3_storage client bucket) (storage_key i) r s = (x, s') \<Longrightarrow>
      objects s' (storage_key j) = objects s (storage_key j)"
    using s3_okD(2) [OF ok] inj by (auto simp: s3_storage_def s3_Put_def split: prod.splits)
  show "st_Get (s3_storage client bucket) (storage_key i) s = Inr r \<Longrightarrow>
      (rd_complete r \<longrightarrow> objects s (storage_key i) = Some (rd_data r))
      \<and> (\<forall>c. objects s (storage_key i) = Some c \<longrightarrow> prefix (rd_data r) c)"
    using s3_okD(3) [OF ok, of "storage_key i" s r] by (auto simp: s3_storage_def s3_Get_def split: option.splits)
  show "st_Delete (s3_storage client bucket) (storage_key i) s = (Inr (), s') \<Longrightarrow> objects s' (storage_key i) = None"
    using s3_okD(4) [OF ok] by (simp add: s3_storage_def s3_Delete_def split: prod.splits if_splits)
  show "i \<noteq> j \<Longrightarrow> st_Delete (s3_storage client bucket) (storage_key i) s = (x, s') \<Longrightarrow>
      objects s' (storage_key j) = objects s (storage_key j)"
    using s3_okD(5) [OF ok] inj by (auto simp: s3_storage_def s3_Delete_def split: prod.splits)
  show "st_Exists (s3_storage client bucket) (storage_key i) s = Inr False \<Longrightarrow> objects s (storage_key i) = None"
    using s3_okD(6) [OF ok]
    by (simp add: s3_storage_def s3_Exists_def split: sum.splits option.splits if_splits)
  show "online s \<Longrightarrow> rd_complete r \<Longrightarrow>
      \<exists>s'. st_Put (s3_storage client bucket) (storage_key i) r s = (Inr (), s') \<and> online s'"
    using s3_okD(7) [OF ok, of s r "storage_key i"] by (auto simp: s3_storage_def s3_Put_def)
  show "online s \<Longrightarrow> objects s (storage_key i) = Some c \<Longrightarrow>
      st_Get (s3_storage client bucket) (storage_key i) s = Inr \<lparr>rd_data = c, rd_complete = True\<rparr>" for c
    using s3_okD(8) [OF ok] by (simp add: s3_storage_def s3_Get_def)
qed

text \<open>A sample bucket, a map that is always online.\<close>

definition sample_s3 :: "(string \<rightharpoonup> string) s3_client" where
  "sample_s3 =
     \<lparr>PutObject = (\<lambda>_ k r s. if rd_complete r then (True, s(k \<mapsto> rd_data r)) else (False, s)),
      GetObject = (\<lambda>_ k s. map_option (\<lambda>c. \<lparr>rd_data = c, rd_complete = True\<rparr>) (s k)),
      DeleteObject = (\<lambda>_ k s. (True, s(k := None))),
      HeadObject = (\<lambda>_ k s. if s k = None then Inl (Some ''NotFound'') else Inr ())\<rparr>"

lemma sample_s3_ok: "s3_ok sample_s3 bucket (\<lambda>s. s) (\<lambda>_. True)"
  by (auto simp: s3_ok_def sample_s3_def split: if_splits)

interpretation on_bucket: blob_store "s3_storage sample_s3 bucket" "\<lambda>_. True" "\<lambda>s. s" for bucket :: string
  by (rule s3_blob_store [OF sample_s3_ok])

end
