(* ===== verification/ServerReleases.thy ===== *)
theory ServerReleases
  imports ServerStorage Signing "HOL-Library.Multiset"
begin

text \<open>
  The release service of the server, \<open>internal/releases/releases.go\<close>, over the table \<open>releases\<close> that
  \<open>migrations/\<close> creates. A row is a \<open>release\<close>; each SQL statement of the source is a function on the list of
  rows, run through \<open>sql\<close>, which also lets the database fail before or after it has executed the statement.
\<close>

section \<open>Data\<close>

record release =
  rel_ID :: string
  rel_Version :: string
  rel_Platform :: string
  rel_Channel :: string
  rel_RuntimeVersion :: string
  rel_BundleHash :: string
  rel_Signature :: string
  rel_BundleSize :: nat
  rel_BundleStorageKey :: string
  rel_RolloutPercentage :: int
  rel_PublishedAt :: "nat option"
  rel_CreatedAt :: nat

record create_input =
  in_Version :: string
  in_Platform :: string
  in_Channel :: string
  in_RuntimeVersion :: string
  in_BundleHash :: string
  in_Signature :: string
  in_RolloutPercentage :: int
  in_Bundle :: reader

record list_filter =
  lf_Channel :: string
  lf_Platform :: string
  lf_RuntimeVersion :: string

datatype service_error =
    ReadBundle | ErrHashMismatch | StoreBundle blob_error | InsertRelease
  | ErrInvalidID | ErrNotFound | PublishRelease | GetRelease | ListReleases | ListUpdatesFailed | OpenBundleFailed blob_error

text \<open>
  What is not part of the repository: SHA-256, the UUID parser of the Go package, the one of Postgres (with the
  canonical form it answers), and the precision in which Postgres keeps a time stamp.
\<close>

record go_lib =
  sha256_Sum256 :: "string \<Rightarrow> string"
  uuid_Parse :: "string \<Rightarrow> bool"
  pg_uuid :: "string \<Rightarrow> string option"
  pg_time :: "nat \<Rightarrow> nat"

definition canonical_uuid :: "string \<Rightarrow> bool" where
  "canonical_uuid s \<longleftrightarrow> map length (split_on (CHR ''-'') s) = [8, 4, 4, 4, 12] \<and> set s \<subseteq> insert (CHR ''-'') hex_digits"

definition go_lib_ok :: "go_lib \<Rightarrow> bool" where
  "go_lib_ok L \<longleftrightarrow> (\<forall>s. canonical_uuid s \<longrightarrow> uuid_Parse L s \<and> pg_uuid L s = Some s)
     \<and> (\<forall>s t. pg_uuid L s = Some t \<longrightarrow> canonical_uuid t) \<and> mono (pg_time L)"

text \<open>\<open>hex.EncodeToString\<close>.\<close>

definition hex_EncodeToString :: "string \<Rightarrow> string" where
  "hex_EncodeToString b = concat (map (\<lambda>c. [''0123456789abcdef'' ! (of_char c div 16 :: nat), ''0123456789abcdef'' ! (of_char c mod 16 :: nat)]) b)"

section \<open>The database\<close>

text \<open>The outcomes of the coming statements; when the list is empty, they are executed.\<close>

datatype sql_outcome = Executed | Refused | AnswerLost

record 's server =
  v_rows :: "release list"
  v_blobs :: 's
  v_sql :: "sql_outcome list"

text \<open>A statement changes the table and answers, or violates a constraint (\<open>None\<close>) and changes nothing.\<close>

type_synonym 'a statement = "release list \<Rightarrow> ('a \<times> release list) option"

definition sql :: "'a statement \<Rightarrow> ('s server, unit, 'a) action" where
  "sql stmt w =
     (let outcome = (case v_sql w of [] \<Rightarrow> Executed | x # _ \<Rightarrow> x);
          w' = w\<lparr>v_sql := drop 1 (v_sql w)\<rparr>
      in if outcome = Refused then (Inl (), w')
         else (case stmt (v_rows w) of
                 None \<Rightarrow> (Inl (), w')
               | Some (a, rows) \<Rightarrow> (if outcome = AnswerLost then Inl () else Inr a, w'\<lparr>v_rows := rows\<rparr>)))"

text \<open>The constraints of \<open>CREATE TABLE releases\<close>.\<close>

definition table_row :: "release \<Rightarrow> bool" where
  "table_row rel \<longleftrightarrow> canonical_uuid (rel_ID rel) \<and> rel_Platform rel \<in> {''ios'', ''android''}
     \<and> 0 \<le> rel_RolloutPercentage rel \<and> rel_RolloutPercentage rel \<le> 100"

definition insert_release :: "go_lib \<Rightarrow> release \<Rightarrow> unit statement" where
  "insert_release L rel rows =
     (case pg_uuid L (rel_ID rel) of
        None \<Rightarrow> None
      | Some i \<Rightarrow>
          let row = rel\<lparr>rel_ID := i, rel_PublishedAt := None, rel_CreatedAt := pg_time L (rel_CreatedAt rel)\<rparr>
          in if table_row row \<and> i \<notin> rel_ID ` set rows then Some ((), rows @ [row]) else None)"

text \<open>\<open>UPDATE ... WHERE i = $1 AND published_at IS NULL\<close>; the answer is the number of rows affected.\<close>

definition publish_release :: "go_lib \<Rightarrow> string \<Rightarrow> nat \<Rightarrow> nat statement" where
  "publish_release L i now rows =
     (case pg_uuid L i of
        None \<Rightarrow> None
      | Some j \<Rightarrow>
          let hit = (\<lambda>rel. rel_ID rel = j \<and> rel_PublishedAt rel = None)
          in Some (length (filter hit rows), map (\<lambda>rel. if hit rel then rel\<lparr>rel_PublishedAt := Some now\<rparr> else rel) rows))"

definition select_release :: "go_lib \<Rightarrow> string \<Rightarrow> release option statement" where
  "select_release L i rows =
     map_option (\<lambda>j. (find (\<lambda>rel. rel_ID rel = j) rows, rows)) (pg_uuid L i)"

text \<open>\<open>ORDER BY created_at DESC\<close>; rows of equal time stamps come in the order of the table.\<close>

definition newest_first :: "release list \<Rightarrow> release list" where
  "newest_first rows = sort_key (\<lambda>rel. - int (rel_CreatedAt rel)) rows"

definition select_all :: "release list statement" where
  "select_all rows = Some (newest_first rows, rows)"

definition offered :: "list_filter \<Rightarrow> release \<Rightarrow> bool" where
  "offered f rel \<longleftrightarrow> rel_PublishedAt rel \<noteq> None \<and> rel_Channel rel = lf_Channel f \<and> rel_Platform rel = lf_Platform f
     \<and> rel_RuntimeVersion rel = lf_RuntimeVersion f \<and> rel_RolloutPercentage rel > 0"

definition select_updates :: "list_filter \<Rightarrow> release list statement" where
  "select_updates f rows = Some (newest_first (filter (offered f) rows), rows)"

section \<open>The service\<close>

text \<open>An error of the database gets the service's own name.\<close>

definition rename_error :: "'e \<Rightarrow> ('s, unit, 'a) action \<Rightarrow> ('s, 'e, 'a) action" where
  "rename_error e m s = (case m s of (Inl _, s') \<Rightarrow> (Inl e, s') | (Inr a, s') \<Rightarrow> (Inr a, s'))"

text \<open>\<open>Create\<close> up to the stored bundle, and its \<open>INSERT\<close>. \<open>i\<close> is the new UUID, \<open>now\<close> the time.\<close>

definition create_stored :: "go_lib \<Rightarrow> 's storage \<Rightarrow> string \<Rightarrow> nat \<Rightarrow> create_input \<Rightarrow> ('s server, service_error, release) action" where
  "create_stored L St i now inp w =
     (if \<not> rd_complete (in_Bundle inp) then (Inl ReadBundle, w)
      else let buf = rd_data (in_Bundle inp);
               computedHash = hex_EncodeToString (sha256_Sum256 L buf)
           in if computedHash \<noteq> in_BundleHash inp then (Inl ErrHashMismatch, w)
              else let storageKey = storage_key i in
                (case st_Put St storageKey \<lparr>rd_data = buf, rd_complete = True\<rparr> (v_blobs w) of
                   (Inl e, s) \<Rightarrow> (Inl (StoreBundle e), w\<lparr>v_blobs := s\<rparr>)
                 | (Inr _, s) \<Rightarrow>
                     (Inr \<lparr>rel_ID = i, rel_Version = in_Version inp, rel_Platform = in_Platform inp,
                           rel_Channel = in_Channel inp, rel_RuntimeVersion = in_RuntimeVersion inp,
                           rel_BundleHash = in_BundleHash inp, rel_Signature = in_Signature inp,
                           rel_BundleSize = length buf, rel_BundleStorageKey = storageKey,
                           rel_RolloutPercentage = in_RolloutPercentage inp, rel_PublishedAt = None, rel_CreatedAt = now\<rparr>,
                      w\<lparr>v_blobs := s\<rparr>)))"

definition create_inserted :: "go_lib \<Rightarrow> release \<Rightarrow> ('s server, service_error, release) action" where
  "create_inserted L rel = then_io (rename_error InsertRelease (sql (insert_release L rel))) (ret rel)"

definition Create :: "go_lib \<Rightarrow> 's storage \<Rightarrow> string \<Rightarrow> nat \<Rightarrow> create_input \<Rightarrow> ('s server, service_error, release) action" where
  "Create L St i now inp = bind_io (create_stored L St i now inp) (create_inserted L)"

definition Get :: "go_lib \<Rightarrow> string \<Rightarrow> ('s server, service_error, release) action" where
  "Get L i w =
     (if \<not> uuid_Parse L i then (Inl ErrInvalidID, w)
      else (case sql (select_release L i) w of
              (Inl _, w') \<Rightarrow> (Inl GetRelease, w')
            | (Inr None, w') \<Rightarrow> (Inl ErrNotFound, w')
            | (Inr (Some rel), w') \<Rightarrow> (Inr rel, w')))"

definition Publish :: "go_lib \<Rightarrow> string \<Rightarrow> nat \<Rightarrow> ('s server, service_error, release) action" where
  "Publish L i now w =
     (if \<not> uuid_Parse L i then (Inl ErrInvalidID, w)
      else bind_io (rename_error PublishRelease (sql (publish_release L i now)))
             (\<lambda>n. if n = 0 then then_io (Get L i) (Get L i) else Get L i) w)"

definition ListReleases_rows :: "('s server, service_error, release list) action" where
  "ListReleases_rows = rename_error ListReleases (sql select_all)"

definition ListUpdates :: "list_filter \<Rightarrow> ('s server, service_error, release list) action" where
  "ListUpdates f = rename_error ListUpdatesFailed (sql (select_updates f))"

definition OpenBundle :: "go_lib \<Rightarrow> 's storage \<Rightarrow> string \<Rightarrow> ('s server, service_error, reader \<times> release) action" where
  "OpenBundle L St i =
     bind_io (Get L i) (\<lambda>rel w.
       (case st_Get St (rel_BundleStorageKey rel) (v_blobs w) of
          Inl e \<Rightarrow> (Inl (OpenBundleFailed e), w)
        | Inr r \<Rightarrow> (Inr (r, rel), w)))"

section \<open>What the statements do\<close>

lemma sql_frame: "sql stmt w = (x, w') \<Longrightarrow> v_blobs w' = v_blobs w
    \<and> (v_rows w' = v_rows w \<or> (\<exists>a. stmt (v_rows w) = Some (a, v_rows w')))"
  by (auto simp: sql_def Let_def split: option.splits prod.splits if_splits)

lemma sql_answer: "sql stmt w = (Inr a, w') \<Longrightarrow> stmt (v_rows w) = Some (a, v_rows w') \<and> v_blobs w' = v_blobs w"
  by (auto simp: sql_def Let_def split: option.splits prod.splits if_splits)

lemma sql_quiet: "v_sql w = [] \<Longrightarrow> stmt (v_rows w) = Some (a, rows) \<Longrightarrow> sql stmt w = (Inr a, w\<lparr>v_rows := rows\<rparr>)"
  by (simp add: sql_def Let_def)

text \<open>A statement that only reads leaves the table; so do the service's reading operations.\<close>

definition reads :: "('s server, 'e, 'a) action \<Rightarrow> bool" where
  "reads m \<longleftrightarrow> (\<forall>w x w'. m w = (x, w') \<longrightarrow> v_rows w' = v_rows w \<and> v_blobs w' = v_blobs w)"

lemma readsD: "reads m \<Longrightarrow> m w = (x, w') \<Longrightarrow> v_rows w' = v_rows w \<and> v_blobs w' = v_blobs w"
  by (auto simp: reads_def)

lemma reads_sql: "(\<And>rows a rows'. stmt rows = Some (a, rows') \<Longrightarrow> rows' = rows) \<Longrightarrow> reads (sql stmt)"
  unfolding reads_def by (auto simp: sql_def Let_def split: option.splits prod.splits if_splits)

lemma reads_rename: "reads m \<Longrightarrow> reads (rename_error e m)"
  by (auto simp: reads_def rename_error_def split: prod.splits sum.splits)

lemma reads_bind: "reads m \<Longrightarrow> (\<And>a. reads (f a)) \<Longrightarrow> reads (bind_io m f)"
  unfolding reads_def bind_io_def by (auto split: prod.splits sum.splits)

lemma reads_select: "reads (sql (select_release L i))"
  by (rule reads_sql) (auto simp: select_release_def)

lemma reads_Get: "reads (Get L i)"
  using reads_select [of L i] unfolding reads_def Get_def by (auto split: if_splits prod.splits sum.splits option.splits)

lemma reads_lists: "reads ListReleases_rows" "reads (ListUpdates f)"
  unfolding ListReleases_rows_def ListUpdates_def
  by (intro reads_rename reads_sql; auto simp: select_all_def select_updates_def)+

lemma reads_OpenBundle: "reads (OpenBundle L St i)"
  unfolding OpenBundle_def by (rule reads_bind [OF reads_Get]) (auto simp: reads_def split: sum.splits)

lemma Get_result:
  assumes "Get L i w = (Inr rel, w')"
  shows "\<exists>j. pg_uuid L i = Some j \<and> find (\<lambda>rel. rel_ID rel = j) (v_rows w) = Some rel"
proof -
  obtain o1 where "sql (select_release L i) w = (Inr (Some rel), o1)"
    using assms by (auto simp: Get_def split: if_splits prod.splits sum.splits option.splits)
  from sql_answer [OF this] show ?thesis by (auto simp: select_release_def)
qed

lemma Get_quiet:
  assumes "v_sql w = []" and "uuid_Parse L i" and "pg_uuid L i = Some j"
    and "find (\<lambda>rel. rel_ID rel = j) (v_rows w) = Some rel"
  shows "Get L i w = (Inr rel, w)"
proof -
  have "sql (select_release L i) w = (Inr (Some rel), w\<lparr>v_rows := v_rows w\<rparr>)"
    by (rule sql_quiet) (simp_all add: assms select_release_def)
  then show ?thesis using assms(2) by (simp add: Get_def)
qed

lemma newest_first_props: "mset (newest_first rows) = mset rows" "set (newest_first rows) = set rows"
    "sorted_wrt (\<lambda>a b. rel_CreatedAt b \<le> rel_CreatedAt a) (newest_first rows)"
proof -
  show "mset (newest_first rows) = mset rows" "set (newest_first rows) = set rows" by (simp_all add: newest_first_def)
  have "sorted (map (\<lambda>rel. - int (rel_CreatedAt rel)) (newest_first rows))" by (simp add: newest_first_def)
  then show "sorted_wrt (\<lambda>a b. rel_CreatedAt b \<le> rel_CreatedAt a) (newest_first rows)" by (simp add: sorted_map)
qed

end
