(* ===== verification/ServerStart.thy ===== *)
theory ServerStart
  imports ServerReleases "HOL-Library.List_Lexorder" "HOL-Library.Char_ord"
begin

text \<open>
  The migrations of \<open>internal/database/database.go\<close>, which the server runs when it starts (\<open>ServerMain\<close>). The advisory
  lock makes one process at a time run \<open>Migrate\<close>.
\<close>

section \<open>Migrations\<close>

text \<open>
  The rows of \<open>schema_migrations\<close> (\<open>None\<close> before the table exists), the scripts the database has executed and
  committed, and the outcomes of the coming calls to the database.
\<close>

record migration_db =
  g_applied :: "string list option"
  g_executed :: "string list"
  g_calls :: "sql_outcome list"

datatype migrate_error = AcquireConnection | AcquireLock | CreateTable | ReadMigrations | CheckMigration string
  | ReadMigration string | BeginTx string | ApplyMigration string | RecordMigration string | CommitMigration string

text \<open>The embedded files: entries with their names and whether they are directories; \<open>fs_read\<close> reads one.\<close>

record migration_fs =
  fs_entries :: "(string \<times> bool) list option"
  fs_read :: "string \<Rightarrow> string option"

text \<open>A call that returns what the database answers; \<open>effect\<close> is what it does when it is executed.\<close>

definition db_call :: "migrate_error \<Rightarrow> (migration_db \<Rightarrow> migration_db) \<Rightarrow> (migration_db, migrate_error, unit) action" where
  "db_call e effect m =
     (let outcome = (case g_calls m of [] \<Rightarrow> Executed | x # _ \<Rightarrow> x);
          m' = m\<lparr>g_calls := drop 1 (g_calls m)\<rparr>
      in case outcome of
           Executed \<Rightarrow> (Inr (), effect m')
         | Refused \<Rightarrow> (Inl e, m')
         | AnswerLost \<Rightarrow> (Inl e, effect m'))"

text \<open>\<open>path.Ext(name) == ".sql"\<close>: the name ends in the four characters.\<close>

definition is_sql :: "string \<Rightarrow> bool" where
  "is_sql name \<longleftrightarrow> suffix ''.sql'' name"

definition migration_names :: "(string \<times> bool) list \<Rightarrow> string list" where
  "migration_names entries = sort (map fst (filter (\<lambda>(name, is_dir). \<not> is_dir \<and> is_sql name) entries))"

text \<open>
  One migration. Script and record are one transaction: they take effect together, at the commit; a script that the
  database rejects is among the refused calls.
\<close>

definition recorded :: "string \<Rightarrow> migration_db \<Rightarrow> migration_db" where
  "recorded name m = m\<lparr>g_applied := map_option (\<lambda>ns. ns @ [name]) (g_applied m), g_executed := g_executed m @ [name]\<rparr>"

definition run_script :: "string \<Rightarrow> (migration_db, migrate_error, unit) action" where
  "run_script name =
     then_io (db_call (BeginTx name) (\<lambda>m. m))
    (then_io (db_call (ApplyMigration name) (\<lambda>m. m))
    (then_io (db_call (RecordMigration name) (\<lambda>m. m))
             (db_call (CommitMigration name) (recorded name))))"

definition apply_migration :: "migration_fs \<Rightarrow> string \<Rightarrow> (migration_db, migrate_error, unit) action" where
  "apply_migration F name =
     then_io (db_call (CheckMigration name) (\<lambda>m. m)) (\<lambda>m.
       if name \<in> set (the (g_applied m)) then (Inr (), m)
       else (case fs_read F name of
               None \<Rightarrow> (Inl (ReadMigration name), m)
             | Some sqlBytes \<Rightarrow> run_script name m))"

fun apply_migrations :: "migration_fs \<Rightarrow> string list \<Rightarrow> (migration_db, migrate_error, unit) action" where
  "apply_migrations F [] = ret ()"
| "apply_migrations F (name # names) = then_io (apply_migration F name) (apply_migrations F names)"

definition Migrate :: "migration_fs \<Rightarrow> (migration_db, migrate_error, unit) action" where
  "Migrate F =
     then_io (db_call AcquireConnection (\<lambda>m. m))
    (then_io (db_call AcquireLock (\<lambda>m. m))
    (then_io (db_call CreateTable (\<lambda>m. m\<lparr>g_applied := Some (case g_applied m of None \<Rightarrow> [] | Some ns \<Rightarrow> ns)\<rparr>))
      (case fs_entries F of
         None \<Rightarrow> throw ReadMigrations
       | Some entries \<Rightarrow> apply_migrations F (migration_names entries))))"

section \<open>Every script runs once\<close>

text \<open>The record and the execution of scripts agree, and no script is executed twice.\<close>

definition migrations_inv :: "migration_db \<Rightarrow> bool" where
  "migrations_inv m \<longleftrightarrow> distinct (g_executed m) \<and> (case g_applied m of None \<Rightarrow> g_executed m = [] | Some ns \<Rightarrow> ns = g_executed m)"

text \<open>\<open>grows P m m'\<close>: the invariant holds on, and what was executed in between satisfies \<open>P\<close>.\<close>

definition grows :: "migration_db \<Rightarrow> migration_db \<Rightarrow> string list \<Rightarrow> bool" where
  "grows m m' new \<longleftrightarrow> migrations_inv m' \<and> g_executed m' = g_executed m @ new \<and> (g_applied m \<noteq> None \<longrightarrow> g_applied m' \<noteq> None)"

lemma then_idle:
  assumes "then_io (db_call e (\<lambda>m. m)) k m = (x, m')"
  shows "(\<exists>c f. m' = m\<lparr>g_calls := c\<rparr> \<and> x = Inl f) \<or> (\<exists>c. k (m\<lparr>g_calls := c\<rparr>) = (x, m'))"
  using assms by (auto simp: then_io_def bind_io_def db_call_def Let_def split: sql_outcome.splits)

lemma inv_calls [simp]: "migrations_inv (m\<lparr>g_calls := c\<rparr>) = migrations_inv m"
  by (simp add: migrations_inv_def split: option.split)

lemma grows_idle: "migrations_inv m \<Longrightarrow> grows m (m\<lparr>g_calls := c\<rparr>) []"
  by (simp add: grows_def)

lemma grows_calls [simp]: "grows (m\<lparr>g_calls := c\<rparr>) m' new = grows m m' new"
  by (simp add: grows_def)

lemma grows_trans: "grows a b xs \<Longrightarrow> grows b c ys \<Longrightarrow> grows a c (xs @ ys)"
  by (auto simp: grows_def)

lemma commit_grows:
  assumes "db_call e (recorded name) m = (x, m')"
    and "migrations_inv m" and "g_applied m \<noteq> None" and "name \<notin> set (the (g_applied m))"
  shows "grows m m' [] \<and> x \<noteq> Inr () \<or> grows m m' [name]"
proof -
  obtain ns where ns: "g_applied m = Some ns" "g_executed m = ns" "distinct ns" "name \<notin> set ns"
    using assms(2-4) by (auto simp: migrations_inv_def)
  from assms(1) consider "m' = m\<lparr>g_calls := drop 1 (g_calls m)\<rparr>" "x \<noteq> Inr ()"
    | "m' = m\<lparr>g_calls := drop 1 (g_calls m), g_applied := Some (ns @ [name]), g_executed := ns @ [name]\<rparr>"
    by (auto simp: db_call_def recorded_def Let_def ns split: sql_outcome.splits)
  then show ?thesis
  proof cases
    case 1
    with assms(2,3) show ?thesis by (simp add: grows_def)
  next
    case 2
    with ns show ?thesis by (simp add: grows_def migrations_inv_def)
  qed
qed

lemma run_script_grows:
  assumes "run_script name m = (x, m')" and inv: "migrations_inv m" "g_applied m \<noteq> None" "name \<notin> set (the (g_applied m))"
  shows "grows m m' [] \<and> x \<noteq> Inr () \<or> grows m m' [name]"
proof -
  have stop: "(\<exists>c f. m' = m\<lparr>g_calls := c\<rparr> \<and> x = Inl f) \<Longrightarrow> grows m m' [] \<and> x \<noteq> Inr ()"
    using grows_idle [OF inv(1)] by auto
  have commit: "db_call (CommitMigration name) (recorded name) (m\<lparr>g_calls := c\<rparr>) = (x, m') \<Longrightarrow>
      grows m m' [] \<and> x \<noteq> Inr () \<or> grows m m' [name]" for c
    using commit_grows [of "CommitMigration name" name "m\<lparr>g_calls := c\<rparr>" x m'] inv by simp
  show ?thesis
    using assms(1) stop commit unfolding run_script_def by (fastforce dest!: then_idle)
qed

lemma apply_migration_grows:
  assumes "apply_migration F name m = (x, m')" and inv: "migrations_inv m" and t: "g_applied m \<noteq> None"
  shows "\<exists>new. subseq new [name] \<and> grows m m' new \<and> (x = Inr () \<longrightarrow> name \<in> set (g_executed m'))"
proof -
  have stop: "\<exists>new. subseq new [name] \<and> grows m m' new \<and> (x = Inr () \<longrightarrow> name \<in> set (g_executed m'))"
    if "m' = m\<lparr>g_calls := c\<rparr>" "x = Inr () \<longrightarrow> name \<in> set (g_executed m)" for c
    using that grows_idle [OF inv, of c] by (intro exI [of _ "[]"]) simp
  consider c f where "m' = m\<lparr>g_calls := c\<rparr>" "x = Inl f"
    | c where "(if name \<in> set (the (g_applied m)) then (Inr (), m\<lparr>g_calls := c\<rparr>)
       else (case fs_read F name of None \<Rightarrow> (Inl (ReadMigration name), m\<lparr>g_calls := c\<rparr>) | Some _ \<Rightarrow> run_script name (m\<lparr>g_calls := c\<rparr>))) = (x, m')"
    using then_idle [OF assms(1) [unfolded apply_migration_def]] by auto
  then show ?thesis
  proof cases
    case 1
    then show ?thesis using stop by auto
  next
    case (2 c)
    show ?thesis
    proof (cases "name \<in> set (the (g_applied m))")
      case True
      then have "name \<in> set (g_executed m)" using inv t by (auto simp: migrations_inv_def)
      with 2 True stop [of c] show ?thesis by auto
    next
      case False
      show ?thesis
      proof (cases "fs_read F name")
        case None
        with 2 False stop [of c] show ?thesis by auto
      next
        case (Some sqlBytes)
        with 2 False have "run_script name (m\<lparr>g_calls := c\<rparr>) = (x, m')" by simp
        from run_script_grows [OF this] inv t False have "grows m m' [] \<and> x \<noteq> Inr () \<or> grows m m' [name]" by simp
        then show ?thesis
        proof
          assume "grows m m' [name]"
          then show ?thesis by (intro exI [of _ "[name]"]) (simp add: grows_def)
        qed (intro exI [of _ "[]"], simp)
      qed
    qed
  qed
qed

lemma apply_migrations_grows:
  assumes "apply_migrations F names m = (x, m')" and "migrations_inv m" and "g_applied m \<noteq> None"
  shows "\<exists>new. subseq new names \<and> grows m m' new \<and> (x = Inr () \<longrightarrow> set names \<subseteq> set (g_executed m'))"
  using assms
proof (induction names arbitrary: m)
  case Nil
  then show ?case by (intro exI [of _ "[]"]) (simp add: grows_def)
next
  case (Cons name names)
  obtain y m1 where a: "apply_migration F name m = (y, m1)" by fastforce
  from apply_migration_grows [OF a Cons.prems(2,3)] obtain new where n: "subseq new [name]" "grows m m1 new"
    "y = Inr () \<longrightarrow> name \<in> set (g_executed m1)" by blast
  show ?case
  proof (cases y)
    case (Inl e)
    then have "x = Inl e" "m' = m1" using Cons.prems(1) a by (simp_all add: then_io_def bind_io_def)
    moreover have "subseq new (name # names)" using n(1) subseq_order.trans [of new "[name]" "name # names"] by simp
    ultimately show ?thesis using n(2) by auto
  next
    case (Inr u)
    then have r: "apply_migrations F names m1 = (x, m')" using Cons.prems(1) a by (simp add: then_io_def bind_io_def)
    have "migrations_inv m1" "g_applied m1 \<noteq> None" using n(2) Cons.prems(3) by (simp_all add: grows_def)
    from Cons.IH [OF r this] obtain more where m: "subseq more names" "grows m1 m' more"
      "x = Inr () \<longrightarrow> set names \<subseteq> set (g_executed m')" by blast
    have "name \<in> set (g_executed m')" using n(3) Inr m(2) by (auto simp: grows_def)
    moreover have "subseq (new @ more) (name # names)" using list_emb_append_mono [OF n(1) m(1)] by simp
    ultimately show ?thesis using m(3) grows_trans [OF n(2) m(2)] by auto
  qed
qed

lemma Migrate_grows:
  assumes "Migrate F m = (x, m')" and inv: "migrations_inv m"
  shows "\<exists>new. grows m m' new \<and> (case fs_entries F of None \<Rightarrow> new = [] | Some es \<Rightarrow> subseq new (migration_names es))
    \<and> (x = Inr () \<longrightarrow> (\<exists>es. fs_entries F = Some es \<and> set (migration_names es) \<subseteq> set (g_executed m')))"
proof -
  let ?P = "\<lambda>new. grows m m' new \<and> (case fs_entries F of None \<Rightarrow> new = [] | Some es \<Rightarrow> subseq new (migration_names es))
    \<and> (x = Inr () \<longrightarrow> (\<exists>es. fs_entries F = Some es \<and> set (migration_names es) \<subseteq> set (g_executed m')))"
  let ?create = "\<lambda>m. m\<lparr>g_applied := Some (case g_applied m of None \<Rightarrow> [] | Some ns \<Rightarrow> ns)\<rparr>"
  have stop: "grows m m' [] \<Longrightarrow> x \<noteq> Inr () \<Longrightarrow> \<exists>new. ?P new" by (intro exI [of _ "[]"]) (auto split: option.splits)
  have create: "migrations_inv (?create (m\<lparr>g_calls := c\<rparr>))" "grows m (?create (m\<lparr>g_calls := c\<rparr>)) []" for c
    using inv by (auto simp: migrations_inv_def grows_def split: option.splits)
  consider c f where "m' = m\<lparr>g_calls := c\<rparr>" "x = Inl f"
    | c where "then_io (db_call CreateTable ?create) (case fs_entries F of None \<Rightarrow> throw ReadMigrations
         | Some entries \<Rightarrow> apply_migrations F (migration_names entries)) (m\<lparr>g_calls := c\<rparr>) = (x, m')"
    using assms(1) unfolding Migrate_def by (fastforce dest!: then_idle)
  then show ?thesis
  proof cases
    case 1
    then show ?thesis using stop grows_idle [OF inv] by auto
  next
    case (2 c)
    then consider d f where "m' = m\<lparr>g_calls := d\<rparr>" "x = Inl f" | d f where "m' = ?create (m\<lparr>g_calls := d\<rparr>)" "x = Inl f"
      | d where "(case fs_entries F of None \<Rightarrow> throw ReadMigrations | Some entries \<Rightarrow> apply_migrations F (migration_names entries)) (?create (m\<lparr>g_calls := d\<rparr>)) = (x, m')"
      by (auto simp: then_io_def bind_io_def db_call_def Let_def split: sql_outcome.splits)
    then show ?thesis
    proof cases
      case 1
      then show ?thesis using stop grows_idle [OF inv] by auto
    next
      case 2
      then show ?thesis using stop create(2) by auto
    next
      case (3 d)
      show ?thesis
      proof (cases "fs_entries F")
        case None
        with 3 stop create(2) show ?thesis by auto
      next
        case (Some es)
        with 3 have "apply_migrations F (migration_names es) (?create (m\<lparr>g_calls := d\<rparr>)) = (x, m')" by simp
        from apply_migrations_grows [OF this create(1)] obtain new where n: "subseq new (migration_names es)"
          "grows (?create (m\<lparr>g_calls := d\<rparr>)) m' new" "x = Inr () \<longrightarrow> set (migration_names es) \<subseteq> set (g_executed m')" by auto
        with grows_trans [OF create(2) n(2)] Some show ?thesis by (intro exI [of _ new]) auto
      qed
    qed
  qed
qed

section \<open>Property\<close>

definition new_database :: migration_db where
  "new_database = \<lparr>g_applied = None, g_executed = [], g_calls = []\<rparr>"

text \<open>An attempt to start: whatever the database answers, and however \<open>Migrate\<close> ends.\<close>

definition migrate_attempt :: "migration_fs \<Rightarrow> migration_db \<Rightarrow> migration_db \<Rightarrow> bool" where
  "migrate_attempt F m m' \<longleftrightarrow> (\<exists>c x. Migrate F (m\<lparr>g_calls := c\<rparr>) = (x, m'))"

lemma attempts_inv:
  assumes "(migrate_attempt F)\<^sup>*\<^sup>* new_database m"
  shows "migrations_inv m \<and> (\<forall>n \<in> set (g_executed m). \<exists>es. fs_entries F = Some es \<and> n \<in> set (migration_names es))"
  using assms
proof induction
  case base
  show ?case by (simp add: migrations_inv_def new_database_def)
next
  case (step y z)
  then obtain c x where z: "Migrate F (y\<lparr>g_calls := c\<rparr>) = (x, z)" by (auto simp: migrate_attempt_def)
  have "migrations_inv (y\<lparr>g_calls := c\<rparr>)" using step.IH by simp
  from Migrate_grows [OF z this] obtain new where "grows y z new"
    "case fs_entries F of None \<Rightarrow> new = [] | Some es \<Rightarrow> subseq new (migration_names es)" by auto
  with step.IH show ?case
    by (cases "fs_entries F") (auto simp: grows_def dest: list_emb_set)
qed

lemma start_migrates:
  assumes "(migrate_attempt F)\<^sup>*\<^sup>* new_database m" and "Migrate F m = (x, m')"
  shows "distinct (g_executed m') \<and> (\<forall>ns. g_applied m' = Some ns \<longrightarrow> ns = g_executed m')
    \<and> (\<exists>new. g_executed m' = g_executed m @ new \<and> (\<forall>es. fs_entries F = Some es \<longrightarrow> subseq new (migration_names es)))
    \<and> (x = Inr () \<longrightarrow> (\<exists>es. fs_entries F = Some es \<and> set (g_executed m') = set (migration_names es)))"
proof -
  note inv = attempts_inv [OF assms(1)]
  from Migrate_grows [OF assms(2) conjunct1 [OF inv]] obtain new where n: "grows m m' new"
    "case fs_entries F of None \<Rightarrow> new = [] | Some es \<Rightarrow> subseq new (migration_names es)"
    "x = Inr () \<longrightarrow> (\<exists>es. fs_entries F = Some es \<and> set (migration_names es) \<subseteq> set (g_executed m'))" by blast
  have "migrate_attempt F m m'" using assms(2) unfolding migrate_attempt_def by (intro exI [of _ "g_calls m"]) auto
  with assms(1) have "(migrate_attempt F)\<^sup>*\<^sup>* new_database m'" by (rule rtranclp.rtrancl_into_rtrancl)
  note inv' = attempts_inv [OF this]
  have "set (g_executed m') = set (migration_names es)" if "x = Inr ()" "fs_entries F = Some es" for es
    using inv' n(3) that by fastforce
  with inv' n show ?thesis by (auto simp: grows_def migrations_inv_def)
qed

text \<open>C25. Migrations: however often the server is started, and wherever the database failed before, no script is executed
  twice, what is executed is exactly what is recorded, a start executes what is missing in the order of the names,
  and when it succeeds every script has been executed.\<close>

theorem migrations_run_once:
  assumes "(migrate_attempt F)\<^sup>*\<^sup>* new_database m" and "Migrate F m = (x, m')"
  shows "distinct (g_executed m') \<and> (\<forall>ns. g_applied m' = Some ns \<longrightarrow> ns = g_executed m')
    \<and> (\<exists>new. g_executed m' = g_executed m @ new \<and> (\<forall>es. fs_entries F = Some es \<longrightarrow> subseq new (migration_names es)))
    \<and> (x = Inr () \<longrightarrow> (\<exists>es. fs_entries F = Some es \<and> set (g_executed m') = set (migration_names es)))"
  by (rule start_migrates [OF assms])

definition sample_migrations :: migration_fs where
  "sample_migrations = \<lparr>fs_entries = Some [(''0001_create_releases.sql'', False), (''embed.go'', False)],
     fs_read = (\<lambda>n. if n = ''0001_create_releases.sql'' then Some ''CREATE TABLE'' else None)\<rparr>"

lemma migration_names_sample: "migration_names [(''0001_create_releases.sql'', False), (''embed.go'', False)] = [''0001_create_releases.sql'']"
  by (simp add: migration_names_def is_sql_def suffix_def)

lemma sample_migrate: "\<exists>m'. Migrate sample_migrations new_database = (Inr (), m')"
  by (simp add: Migrate_def then_io_def bind_io_def db_call_def Let_def new_database_def sample_migrations_def migration_names_sample
      apply_migration_def run_script_def recorded_def)

theorem migrations_run_once_witness:
  "\<exists>m m'. (migrate_attempt sample_migrations)\<^sup>*\<^sup>* new_database m \<and> Migrate sample_migrations m = (Inr (), m')
     \<and> set (g_executed m') = {''0001_create_releases.sql''}"
proof -
  obtain m' where m': "Migrate sample_migrations new_database = (Inr (), m')" using sample_migrate by blast
  from migrations_run_once [OF rtranclp.rtrancl_refl m'] m' show ?thesis
    by (auto simp: sample_migrations_def migration_names_sample)
qed

end
