(* ===== verification/ServerMain.thy ===== *)
theory ServerMain
  imports ServerStart
begin

text \<open>
  The start of the server, \<open>cmd/server/main.go\<close>: the configuration from the environment
  (\<open>internal/config/config.go\<close>), the connection to the database, the migrations, and the choice of the bundle storage
  with \<open>NewS3\<close> of \<open>s3.go\<close>. An error ends the process; the result of a start is what it begins to serve with.
\<close>

section \<open>Configuration\<close>

record server_config =
  Addr :: string
  DatabaseURL :: string
  StorageEndpoint :: string
  StorageBucket :: string
  StorageAccessKey :: string
  StorageSecretKey :: string
  StorageLocalPath :: string

text \<open>
  The process around the server: \<open>os.Getenv\<close>, the empty string for a variable that is not set, the working directory, and
  whether the database library accepts and reaches a data source and the AWS library can load its configuration.
\<close>

record host =
  Getenv :: "string \<Rightarrow> string"
  working_directory :: path
  sql_Open :: "string \<Rightarrow> bool"
  db_Ping :: "string \<Rightarrow> bool"
  LoadDefaultConfig :: bool

definition getEnv :: "host \<Rightarrow> string \<Rightarrow> string \<Rightarrow> string" where
  "getEnv H key fallback = (let v = Getenv H key in if v \<noteq> [] then v else fallback)"

definition Load :: "host \<Rightarrow> server_config" where
  "Load H =
     \<lparr>Addr = getEnv H ''ADDR'' '':8080'', DatabaseURL = Getenv H ''DATABASE_URL'',
      StorageEndpoint = Getenv H ''STORAGE_ENDPOINT'', StorageBucket = Getenv H ''STORAGE_BUCKET'',
      StorageAccessKey = Getenv H ''STORAGE_ACCESS_KEY'', StorageSecretKey = Getenv H ''STORAGE_SECRET_KEY'',
      StorageLocalPath = Getenv H ''STORAGE_LOCAL_PATH''\<rparr>"

section \<open>Database and storage\<close>

datatype start_error =
    DatabaseRequired | OpenDatabase | PingDatabase | MigrationsFailed migrate_error
  | BucketRequired | LoadAwsConfig | StorageRoot blob_error | NoStorageConfigured

definition Open :: "host \<Rightarrow> string \<Rightarrow> start_error + unit" where
  "Open H dsn =
     (if dsn = [] then Inl DatabaseRequired
      else if \<not> sql_Open H dsn then Inl OpenDatabase
      else if \<not> db_Ping H dsn then Inl PingDatabase
      else Inr ())"

record s3_config =
  Endpoint :: string
  Bucket :: string
  AccessKey :: string
  SecretKey :: string
  Region :: string

text \<open>What the client of the AWS library is built with.\<close>

record s3_options =
  o_bucket :: string
  o_region :: string
  o_credentials :: "string \<times> string"
  o_BaseEndpoint :: "string option"
  o_UsePathStyle :: bool

definition NewS3 :: "host \<Rightarrow> s3_config \<Rightarrow> start_error + s3_options" where
  "NewS3 H cfg =
     (if Bucket cfg = [] then Inl BucketRequired
      else let region = (if Region cfg = [] then ''auto'' else Region cfg) in
        if \<not> LoadDefaultConfig H then Inl LoadAwsConfig
        else Inr \<lparr>o_bucket = Bucket cfg, o_region = region, o_credentials = (AccessKey cfg, SecretKey cfg),
               o_BaseEndpoint = (if Endpoint cfg \<noteq> [] then Some (Endpoint cfg) else None), o_UsePathStyle = True\<rparr>)"

datatype backend = S3Backend s3_options | LocalBackend path

text \<open>A path of the configuration, which may be relative to the working directory.\<close>

definition host_path :: "host \<Rightarrow> string \<Rightarrow> path" where
  "host_path H s = (if s \<noteq> [] \<and> hd s = CHR ''/'' then comps s else working_directory H @ comps s)"

definition newStorage :: "host \<Rightarrow> server_config \<Rightarrow> (disk, start_error, backend) action" where
  "newStorage H cfg d =
     (if StorageEndpoint cfg \<noteq> [] then
        (map_sum id S3Backend (NewS3 H \<lparr>Endpoint = StorageEndpoint cfg, Bucket = StorageBucket cfg,
           AccessKey = StorageAccessKey cfg, SecretKey = StorageSecretKey cfg, Region = []\<rparr>), d)
      else if StorageLocalPath cfg \<noteq> [] then
        (case NewLocal (host_path H (StorageLocalPath cfg)) d of (x, d') \<Rightarrow> (map_sum StorageRoot LocalBackend x, d'))
      else (Inl NoStorageConfigured, d))"

section \<open>\<open>main\<close>\<close>

text \<open>\<open>Load\<close> returns no error. The answer is the address to listen on and the storage behind the handlers.\<close>

definition main :: "host \<Rightarrow> migration_fs \<Rightarrow> (migration_db \<times> disk, start_error, string \<times> backend) action" where
  "main H F = (\<lambda>(m, d).
     let cfg = Load H in
     (case Open H (DatabaseURL cfg) of
        Inl e \<Rightarrow> (Inl e, (m, d))
      | Inr _ \<Rightarrow>
          (case Migrate F m of
             (Inl e, m') \<Rightarrow> (Inl (MigrationsFailed e), (m', d))
           | (Inr _, m') \<Rightarrow>
               (case newStorage H cfg d of
                  (Inl e, d') \<Rightarrow> (Inl e, (m', d'))
                | (Inr blobs, d') \<Rightarrow> (Inr (Addr cfg, blobs), (m', d'))))))"

section \<open>Directories that were made are there\<close>

lemma make_dirs_done:
  "make_dirs ps d = (True, d') \<Longrightarrow> \<forall>p \<in> set ps. norm p \<noteq> [] \<Longrightarrow> \<forall>p \<in> set ps. dget d' p = Some Dir"
proof (induction ps d arbitrary: d' rule: make_dirs.induct)
  case (2 p ps d)
  have there: "dget d' p = Some Dir" if "make_dirs ps e = (True, d')" "dget e p = Some Dir" for e
    using make_dirs_keeps [of ps e p] that "2.prems"(2) by simp
  show ?case
  proof (cases "dget d p")
    case None
    let ?e = "set_fs (fput p Dir (d_fs d)) d"
    have m: "may_write d p" and r: "make_dirs ps ?e = (True, d')" using "2.prems"(1) None by (simp_all split: if_splits)
    have "dget ?e p = Some Dir" using "2.prems"(2) by (simp add: fs_simps)
    with there [OF r] "2.IH"(1) [OF None m r] "2.prems"(2) show ?thesis by simp
  next
    case (Some n)
    then have n: "n = Dir" and r: "make_dirs ps d = (True, d')" using "2.prems"(1) by (cases n; simp)+
    from there [OF r] "2.IH"(2) [OF Some n r] "2.prems"(2) Some n show ?thesis by simp
  qed
qed simp

lemma mkdirs_done:
  assumes "mkdirs p d = (True, d')"
  shows "dget d' p = Some Dir"
proof (cases "norm p = []")
  case False
  then have "norm p \<in> set (tl (prefixes (norm p)))" by (cases "norm p") auto
  with make_dirs_done [OF assms [unfolded mkdirs_def]] have "dget d' (norm p) = Some Dir"
    using make_dirs_nonempty by blast
  then show ?thesis using fget_cong_norm [of "norm p" p] by (simp add: norm_norm)
qed (simp add: fget_def)

lemma map_sum_cases:
  "map_sum f g x = Inl e \<Longrightarrow> \<exists>a. x = Inl a \<and> e = f a" "map_sum f g x = Inr b \<Longrightarrow> \<exists>a. x = Inr a \<and> b = g a"
  by (cases x; simp)+

section \<open>Property\<close>

text \<open>C26. A server that listens is ready: it has an address, a database in which every migration has run, and either a
  bucket at the configured endpoint or a directory that is there. Whatever fails before ends the process, and
  nothing is created on disk unless the migrations have run.\<close>

theorem started_server_is_ready:
  assumes "(migrate_attempt F)\<^sup>*\<^sup>* new_database m" and "main H F (m, d) = (x, (m', d'))"
  shows "case x of
     Inl e \<Rightarrow> (\<forall>b. e \<noteq> StorageRoot b) \<longrightarrow> d' = d
   | Inr (address, blobs) \<Rightarrow> address \<noteq> [] \<and> db_Ping H (Getenv H ''DATABASE_URL'')
       \<and> (\<exists>es. fs_entries F = Some es \<and> set (g_executed m') = set (migration_names es) \<and> distinct (g_executed m'))
       \<and> (case blobs of
            S3Backend opts \<Rightarrow> o_bucket opts \<noteq> [] \<and> o_BaseEndpoint opts = Some (Getenv H ''STORAGE_ENDPOINT'') \<and> d' = d
          | LocalBackend basePath \<Rightarrow> dget d' basePath = Some Dir)"
proof (cases x)
  case (Inl e)
  with assms(2) show ?thesis
    by (auto simp: main_def Let_def newStorage_def NewS3_def split: sum.splits prod.splits if_splits dest: map_sum_cases)
next
  case (Inr y)
  obtain address blobs where y: "y = (address, blobs)" by fastforce
  let ?cfg = "Load H"
  from assms(2) Inr y have addr: "address = Addr ?cfg" and o: "Open H (DatabaseURL ?cfg) = Inr ()"
    and mig: "Migrate F m = (Inr (), m')" and st: "newStorage H ?cfg d = (Inr blobs, d')"
    by (auto simp: main_def Let_def split: sum.splits prod.splits)
  have 1: "address \<noteq> []" by (simp add: addr Load_def getEnv_def Let_def)
  have 2: "db_Ping H (Getenv H ''DATABASE_URL'')" using o by (simp add: Open_def Load_def split: if_splits)
  have 3: "\<exists>es. fs_entries F = Some es \<and> set (g_executed m') = set (migration_names es) \<and> distinct (g_executed m')"
    using start_migrates [OF assms(1) mig] by simp
  have 4: "case blobs of
      S3Backend opts \<Rightarrow> o_bucket opts \<noteq> [] \<and> o_BaseEndpoint opts = Some (Getenv H ''STORAGE_ENDPOINT'') \<and> d' = d
    | LocalBackend basePath \<Rightarrow> dget d' basePath = Some Dir"
    using st mkdirs_done
    by (auto simp: newStorage_def NewS3_def NewLocal_def Load_def Let_def split: sum.splits prod.splits if_splits backend.splits dest!: map_sum_cases)
  show ?thesis using 1 2 3 4 by (simp add: Inr y)
qed

definition sample_host :: host where
  "sample_host =
     \<lparr>Getenv = (\<lambda>k. if k = ''DATABASE_URL'' then ''postgres://db'' else if k = ''STORAGE_LOCAL_PATH'' then ''/data'' else []),
      working_directory = [], sql_Open = (\<lambda>_. True), db_Ping = (\<lambda>_. True), LoadDefaultConfig = True\<rparr>"

definition empty_disk :: disk where
  "empty_disk = \<lparr>d_fs = [], d_hist = [], may_read = (\<lambda>_. True), may_write = (\<lambda>_. True), d_room = None\<rparr>"

theorem started_server_is_ready_witness:
  "\<exists>m d. main sample_host sample_migrations (new_database, empty_disk) = (Inr ('':8080'', LocalBackend [''data'']), (m, d))
     \<and> set (g_executed m) = {''0001_create_releases.sql''} \<and> dget d [''data''] = Some Dir"
proof -
  obtain m where m: "Migrate sample_migrations new_database = (Inr (), m)" using sample_migrate by blast
  have cfg: "DatabaseURL (Load sample_host) = ''postgres://db''" "StorageEndpoint (Load sample_host) = []"
    "StorageLocalPath (Load sample_host) = ''/data''" "Addr (Load sample_host) = '':8080''"
    by (simp_all add: Load_def sample_host_def getEnv_def)
  have p: "host_path sample_host ''/data'' = [''data'']" by (simp add: host_path_def comps_def)
  have "norm [''data''] = [''data'']" by (simp add: norm_def norm_step_def)
  then have k: "\<exists>d. mkdirs [''data''] empty_disk = (True, d)"
    by (simp add: mkdirs_def empty_disk_def fget_def)
  then obtain d where d: "mkdirs [''data''] empty_disk = (True, d)" by blast
  have r: "main sample_host sample_migrations (new_database, empty_disk) = (Inr ('':8080'', LocalBackend [''data'']), (m, d))"
    by (simp add: main_def Let_def Open_def newStorage_def NewLocal_def cfg p d m) (simp add: sample_host_def)
  from started_server_is_ready [OF rtranclp.rtrancl_refl r] r show ?thesis
    using migration_names_sample by (auto simp: sample_migrations_def)
qed

end
