(* ===== verification/ServerApi.thy ===== *)
theory ServerApi
  imports ServerReleases JsonText
begin

text \<open>
  The HTTP interface of the server, \<open>internal/api\<close>: the handlers of \<open>releases.go\<close> and \<open>updates.go\<close> and the
  router. A handler takes what the request carries and returns the response and the server it leaves. The
  standard library's form and URL parsing happens before: \<open>upload\<close> and \<open>http_request\<close> hold its results.
\<close>

section \<open>Requests and responses\<close>

text \<open>\<open>protocol.ReleaseMetadata\<close>.\<close>

record metadata =
  md_Id :: string
  md_Version :: string
  md_Platform :: string
  md_Channel :: string
  md_RuntimeVersion :: string
  md_BundleHash :: string
  md_Signature :: "string option"
  md_RolloutPercentage :: "int option"
  md_Size :: nat
  md_CreatedAt :: nat

datatype body =
    TextBody string
  | JsonObject "(string \<times> json) list"
  | JsonMetadata metadata
  | JsonMetadataList "metadata list"
  | Bytes string

record http_response =
  h_status :: nat
  h_headers :: "(string \<times> string) list"
  h_body :: body

definition http_Error :: "string \<Rightarrow> nat \<Rightarrow> http_response" where
  "http_Error message status =
     \<lparr>h_status = status, h_headers = [(''Content-Type'', ''text/plain; charset=utf-8''), (''X-Content-Type-Options'', ''nosniff'')],
      h_body = TextBody (message @ [newline])\<rparr>"

definition writeJSON :: "nat \<Rightarrow> body \<Rightarrow> http_response" where
  "writeJSON status b = \<lparr>h_status = status, h_headers = [(''Content-Type'', ''application/json'')], h_body = b\<rparr>"

text \<open>
  A multipart form as the standard library parses it: the error, if it cannot; the values of its fields in the
  order \<open>FormValue\<close> looks at them; the file \<open>bundle\<close>, if there is one.
\<close>

record upload =
  up_error :: "string option"
  up_values :: "(string \<times> string) list"
  up_file :: "reader option"

definition first_value :: "(string \<times> string) list \<Rightarrow> string \<Rightarrow> string" where
  "first_value vs k = (case map_of vs k of None \<Rightarrow> [] | Some v \<Rightarrow> v)"

section \<open>\<open>strconv.Atoi\<close>\<close>

definition digits_value :: "string \<Rightarrow> int" where
  "digits_value ds = foldl (\<lambda>n d. 10 * n + int (of_char d - 48)) 0 ds"

definition Atoi :: "string \<Rightarrow> int option" where
  "Atoi s =
     (let signed = s \<noteq> [] \<and> (hd s = CHR ''-'' \<or> hd s = CHR ''+'');
          ds = (if signed then tl s else s);
          n = digits_value ds;
          v = (if signed \<and> hd s = CHR ''-'' then - n else n)
      in if ds = [] \<or> \<not> set ds \<subseteq> digit_set \<or> v < - (2 ^ 63) \<or> 2 ^ 63 \<le> v then None else Some v)"

section \<open>\<open>releases.go\<close>\<close>

definition toReleaseMetadata :: "release \<Rightarrow> metadata" where
  "toReleaseMetadata rel =
     \<lparr>md_Id = rel_ID rel, md_Version = rel_Version rel, md_Platform = rel_Platform rel, md_Channel = rel_Channel rel,
      md_RuntimeVersion = rel_RuntimeVersion rel, md_BundleHash = rel_BundleHash rel, md_Signature = Some (rel_Signature rel),
      md_RolloutPercentage = Some (rel_RolloutPercentage rel), md_Size = rel_BundleSize rel, md_CreatedAt = rel_CreatedAt rel\<rparr>"

text \<open>\<open>handleCreate\<close> up to the call of the service, and as a whole.\<close>

definition rollout_value :: "string \<Rightarrow> int option" where
  "rollout_value v =
     (if v = [] then Some 100
      else (case Atoi v of None \<Rightarrow> None | Some n \<Rightarrow> if n < 0 \<or> n > 100 then None else Some n))"

definition parse_create :: "upload \<Rightarrow> http_response + create_input" where
  "parse_create u =
     (case up_error u of
        Some err \<Rightarrow> Inl (http_Error (''invalid multipart form: '' @ err) 400)
      | None \<Rightarrow>
     (case up_file u of
        None \<Rightarrow> Inl (http_Error ''missing bundle file'' 400)
      | Some file \<Rightarrow>
     (case rollout_value (first_value (up_values u) ''rollout_percentage'') of
        None \<Rightarrow> Inl (http_Error ''invalid rollout_percentage'' 400)
      | Some rollout \<Rightarrow>
          let FormValue = first_value (up_values u);
              inp = \<lparr>in_Version = FormValue ''version'', in_Platform = FormValue ''platform'', in_Channel = FormValue ''channel'',
                     in_RuntimeVersion = FormValue ''runtime_version'', in_BundleHash = FormValue ''bundle_hash'',
                     in_Signature = FormValue ''signature'', in_RolloutPercentage = rollout, in_Bundle = file\<rparr>
          in if in_Version inp = [] \<or> in_Platform inp = [] \<or> in_Channel inp = [] \<or> in_RuntimeVersion inp = []
                \<or> in_BundleHash inp = [] \<or> in_Signature inp = []
             then Inl (http_Error ''version, platform, channel, runtime_version, bundle_hash and signature are required'' 400)
             else Inr inp)))"

type_synonym 's handler = "'s server \<Rightarrow> http_response \<times> 's server"

definition handleCreate :: "go_lib \<Rightarrow> 's storage \<Rightarrow> string \<Rightarrow> nat \<Rightarrow> upload \<Rightarrow> 's handler" where
  "handleCreate L St i now u w =
     (case parse_create u of
        Inl r \<Rightarrow> (r, w)
      | Inr inp \<Rightarrow>
          (case Create L St i now inp w of
             (Inl e, w') \<Rightarrow>
               (if e = ErrHashMismatch then http_Error ''bundle_hash does not match uploaded bundle content'' 400
                else http_Error ''failed to create release'' 500, w')
           | (Inr rel, w') \<Rightarrow> (writeJSON 201 (JsonMetadata (toReleaseMetadata rel)), w')))"

definition releases_handleList :: "'s handler" where
  "releases_handleList w =
     (case ListReleases_rows w of
        (Inl _, w') \<Rightarrow> (http_Error ''failed to list releases'' 500, w')
      | (Inr rels, w') \<Rightarrow> (writeJSON 200 (JsonMetadataList (map toReleaseMetadata rels)), w'))"

text \<open>The three handlers that look a release up by its id answer alike, but for the words.\<close>

definition lookup_error :: "string \<Rightarrow> string \<Rightarrow> string \<Rightarrow> service_error \<Rightarrow> http_response" where
  "lookup_error invalid missing failed e =
     (if e = ErrInvalidID then http_Error invalid 400
      else if e = ErrNotFound then http_Error missing 404
      else http_Error failed 500)"

definition releases_handleGet :: "go_lib \<Rightarrow> string \<Rightarrow> 's handler" where
  "releases_handleGet L i w =
     (case Get L i w of
        (Inl e, w') \<Rightarrow> (lookup_error ''invalid release id'' ''release not found'' ''failed to get release'' e, w')
      | (Inr rel, w') \<Rightarrow> (writeJSON 200 (JsonMetadata (toReleaseMetadata rel)), w'))"

definition handlePublish :: "go_lib \<Rightarrow> string \<Rightarrow> nat \<Rightarrow> 's handler" where
  "handlePublish L i now w =
     (case Publish L i now w of
        (Inl e, w') \<Rightarrow> (lookup_error ''invalid release id'' ''release not found'' ''failed to publish release'' e, w')
      | (Inr rel, w') \<Rightarrow> (writeJSON 200 (JsonMetadata (toReleaseMetadata rel)), w'))"

section \<open>\<open>updates.go\<close>\<close>

definition updates_handleList :: "(string \<times> string) list \<Rightarrow> 's handler" where
  "updates_handleList q w =
     (let filter = \<lparr>lf_Channel = first_value q ''channel'', lf_Platform = first_value q ''platform'',
                    lf_RuntimeVersion = first_value q ''runtime_version''\<rparr>
      in if lf_Channel filter = [] \<or> lf_Platform filter = [] \<or> lf_RuntimeVersion filter = []
         then (http_Error ''channel, platform and runtime_version are required'' 400, w)
         else (case ListUpdates filter w of
                 (Inl _, w') \<Rightarrow> (http_Error ''failed to list updates'' 500, w')
               | (Inr rels, w') \<Rightarrow> (writeJSON 200 (JsonMetadataList (map toReleaseMetadata rels)), w')))"

definition updates_handleGet :: "go_lib \<Rightarrow> string \<Rightarrow> 's handler" where
  "updates_handleGet L i w =
     (case Get L i w of
        (Inl e, w') \<Rightarrow> (lookup_error ''invalid update id'' ''update not found'' ''failed to get update'' e, w')
      | (Inr rel, w') \<Rightarrow> (writeJSON 200 (JsonMetadata (toReleaseMetadata rel)), w'))"

text \<open>An error of \<open>io.Copy\<close> is dropped: the response ends after the bytes read so far.\<close>

definition handleBundle :: "go_lib \<Rightarrow> 's storage \<Rightarrow> string \<Rightarrow> 's handler" where
  "handleBundle L St i w =
     (case OpenBundle L St i w of
        (Inl e, w') \<Rightarrow> (lookup_error ''invalid update id'' ''update not found'' ''failed to open bundle'' e, w')
      | (Inr (body, rel), w') \<Rightarrow>
          (\<lparr>h_status = 200,
            h_headers = [(''Content-Type'', ''application/octet-stream''), (''X-Salve-Push-Bundle-Hash'', rel_BundleHash rel)],
            h_body = Bytes (rd_data body)\<rparr>, w'))"

section \<open>\<open>router.go\<close>\<close>

definition handleHealth :: http_response where
  "handleHealth = writeJSON 200 (JsonObject [(''status'', JStr ''ok''), (''version'', JStr ''0.1.0'')])"

definition handleServerIdentity :: http_response where
  "handleServerIdentity = writeJSON 200 (JsonObject [(''service'', JStr ''salve-push''), (''version'', JStr ''0.1.0''),
     (''protocol_version'', JNum 1), (''instance_id'', JStr ''unconfigured'')])"

definition notImplemented :: http_response where
  "notImplemented = http_Error ''not implemented'' 501"

definition handleChallenge :: http_response where
  "handleChallenge = http_Error ''not implemented'' 501"

datatype endpoint =
    Health | ServerIdentity | Challenge
  | UpdatesList | UpdatesGet | UpdatesBundle | Telemetry
  | ReleasesList | ReleasesCreate | ReleasesGet | ReleasesPublish

datatype segment = Lit string | Wild

definition registerPublicRoutes :: "(string \<times> segment list \<times> endpoint) list" where
  "registerPublicRoutes =
     [(''GET'', [Lit ''v1'', Lit ''updates''], UpdatesList),
      (''GET'', [Lit ''v1'', Lit ''updates'', Wild], UpdatesGet),
      (''GET'', [Lit ''v1'', Lit ''updates'', Wild, Lit ''bundle''], UpdatesBundle),
      (''POST'', [Lit ''v1'', Lit ''telemetry''], Telemetry)]"

definition registerAdminRoutes :: "(string \<times> segment list \<times> endpoint) list" where
  "registerAdminRoutes =
     [(''GET'', [Lit ''v1'', Lit ''releases''], ReleasesList),
      (''POST'', [Lit ''v1'', Lit ''releases''], ReleasesCreate),
      (''GET'', [Lit ''v1'', Lit ''releases'', Wild], ReleasesGet),
      (''POST'', [Lit ''v1'', Lit ''releases'', Wild, Lit ''publish''], ReleasesPublish)]"

definition routes :: "(string \<times> segment list \<times> endpoint) list" where
  "routes =
     [(''GET'', [Lit ''health''], Health),
      (''GET'', [Lit ''.well-known'', Lit ''salve-push''], ServerIdentity),
      (''POST'', [Lit ''.well-known'', Lit ''salve-push'', Lit ''challenge''], Challenge)]
     @ registerPublicRoutes @ registerAdminRoutes"

text \<open>
  \<open>http.ServeMux\<close>: a wildcard takes one segment that is not empty; the answer is the segment it took. A pattern for
  GET also serves HEAD; a path known under other methods only is answered with 405.
\<close>

fun match_path :: "segment list \<Rightarrow> string list \<Rightarrow> string option" where
  "match_path [] [] = Some []"
| "match_path (Lit s # ps) (x # xs) = (if s = x then match_path ps xs else None)"
| "match_path (Wild # ps) (x # xs) = (if x = [] \<or> match_path ps xs = None then None else Some x)"
| "match_path _ _ = None"

definition find_route :: "string \<Rightarrow> string list \<Rightarrow> (endpoint \<times> string) option" where
  "find_route method path =
     map_option (\<lambda>(_, ps, e). (e, the (match_path ps path)))
       (find (\<lambda>(m, ps, _). (m = method \<or> m = ''GET'' \<and> method = ''HEAD'') \<and> match_path ps path \<noteq> None) routes)"

record http_request =
  rq_method :: string
  rq_path :: "string list"
  rq_query :: "(string \<times> string) list"
  rq_upload :: upload

definition serve :: "go_lib \<Rightarrow> 's storage \<Rightarrow> string \<Rightarrow> nat \<Rightarrow> http_request \<Rightarrow> 's handler" where
  "serve L St i now r w =
     (case find_route (rq_method r) (rq_path r) of
        None \<Rightarrow>
          (if \<exists>(_, ps, _) \<in> set routes. match_path ps (rq_path r) \<noteq> None
           then (http_Error ''Method Not Allowed'' 405, w) else (http_Error ''404 page not found'' 404, w))
      | Some (e, x) \<Rightarrow>
          (case e of
             Health \<Rightarrow> (handleHealth, w)
           | ServerIdentity \<Rightarrow> (handleServerIdentity, w)
           | Challenge \<Rightarrow> (handleChallenge, w)
           | UpdatesList \<Rightarrow> updates_handleList (rq_query r) w
           | UpdatesGet \<Rightarrow> updates_handleGet L x w
           | UpdatesBundle \<Rightarrow> handleBundle L St x w
           | Telemetry \<Rightarrow> (notImplemented, w)
           | ReleasesList \<Rightarrow> releases_handleList w
           | ReleasesCreate \<Rightarrow> handleCreate L St i now (rq_upload r) w
           | ReleasesGet \<Rightarrow> releases_handleGet L x w
           | ReleasesPublish \<Rightarrow> handlePublish L x now w))"

section \<open>Reading a form\<close>

lemma decimal_digit_value: "d < 10 \<Longrightarrow> int (of_char (digit_char d) - 48) = int d"
proof -
  assume "d < 10"
  then have "d \<in> set [0, 1, 2, 3, 4, 5, 6, 7, 8, 9]" by auto
  then show ?thesis by (auto simp: digit_char_def)
qed

lemma digits_value_snoc: "digits_value (s @ [c]) = 10 * digits_value s + int (of_char c - 48)"
  by (simp add: digits_value_def)

lemma digits_value_show: "digits_value (show_nat n) = int n"
proof (induction n rule: show_nat.induct)
  case (1 n)
  show ?case
  proof (cases "n < 10")
    case True
    then show ?thesis by (subst show_nat.simps) (simp add: digits_value_def decimal_digit_value)
  next
    case False
    have "digits_value (show_nat n) = 10 * int (n div 10) + int (n mod 10)"
      using False "1.IH" decimal_digit_value [of "n mod 10"] by (subst show_nat.simps) (simp add: digits_value_snoc)
    then show ?thesis by presburger
  qed
qed

lemma Atoi_show_nat:
  assumes "int n < 2 ^ 63"
  shows "Atoi (show_nat n) = Some (int n)"
proof -
  have ne: "show_nat n \<noteq> []" using length_show_nat_pos [of n] by auto
  then have "hd (show_nat n) \<in> digit_set" using set_show_nat hd_in_set by blast
  then have "hd (show_nat n) \<noteq> CHR ''-'' \<and> hd (show_nat n) \<noteq> CHR ''+''" by (auto simp: digit_set_def)
  with ne show ?thesis using assms set_show_nat [of n] by (simp add: Atoi_def Let_def digits_value_show)
qed

lemma rollout_range: "rollout_value v = Some n \<Longrightarrow> 0 \<le> n \<and> n \<le> 100"
  by (auto simp: rollout_value_def split: if_splits option.splits)

lemma rollout_show: "n \<le> 100 \<Longrightarrow> rollout_value (show_nat n) = Some (int n)"
  using length_show_nat_pos [of n] by (auto simp: rollout_value_def Atoi_show_nat)

text \<open>What an accepted form guarantees.\<close>

definition filled :: "create_input \<Rightarrow> bool" where
  "filled inp \<longleftrightarrow> in_Version inp \<noteq> [] \<and> in_Platform inp \<noteq> [] \<and> in_Channel inp \<noteq> [] \<and> in_RuntimeVersion inp \<noteq> []
     \<and> in_BundleHash inp \<noteq> [] \<and> in_Signature inp \<noteq> [] \<and> 0 \<le> in_RolloutPercentage inp \<and> in_RolloutPercentage inp \<le> 100"

lemma parse_create_filled: "parse_create u = Inr inp \<Longrightarrow> filled inp"
  by (auto simp: parse_create_def filled_def Let_def dest: rollout_range split: option.splits if_splits)

section \<open>The handlers that only read\<close>

definition only_reads :: "'s handler \<Rightarrow> bool" where
  "only_reads h \<longleftrightarrow> (\<forall>w. v_rows (snd (h w)) = v_rows w \<and> v_blobs (snd (h w)) = v_blobs w)"

lemma reading_handlers:
  "only_reads releases_handleList" "only_reads (releases_handleGet L i)" "only_reads (updates_handleList q)"
  "only_reads (updates_handleGet L i)" "only_reads (handleBundle L St i)"
  by (auto simp: only_reads_def releases_handleList_def releases_handleGet_def updates_handleList_def
      updates_handleGet_def handleBundle_def Let_def split: prod.splits sum.splits
      dest: readsD [OF reads_lists(1)] readsD [OF reads_lists(2)] readsD [OF reads_Get] readsD [OF reads_OpenBundle])

end
