(* ===== verification/ServerRuns.thy ===== *)
theory ServerRuns
  imports ServerApi
begin

text \<open>
  The server at work: requests interleave, the database fails and recovers, the process is killed between storing
  a bundle and inserting its row. \<open>server_step\<close> has a step per SQL statement and storage operation that changes
  the state. \<open>server_inv\<close> is its invariant, \<open>catalog_step\<close> the abstract machine it refines.
\<close>

section \<open>Steps\<close>

text \<open>The second component holds the releases whose bundle is stored and whose \<open>INSERT\<close> is still to come.\<close>

type_synonym 's run = "'s server \<times> release list"

definition fresh_id :: "string \<Rightarrow> 's run \<Rightarrow> bool" where
  "fresh_id i s \<longleftrightarrow> canonical_uuid i \<and> i \<notin> rel_ID ` (set (v_rows (fst s)) \<union> set (snd s))"

inductive server_step :: "go_lib \<Rightarrow> 's storage \<Rightarrow> 's run \<Rightarrow> 's run \<Rightarrow> bool" for L St where
  stored: "fresh_id i (w, p) \<Longrightarrow> parse_create u = Inr inp \<Longrightarrow> create_stored L St i now inp w = (Inr rel, w') \<Longrightarrow>
    server_step L St (w, p) (w', rel # p)"
| not_stored: "fresh_id i (w, p) \<Longrightarrow> parse_create u = Inr inp \<Longrightarrow> create_stored L St i now inp w = (Inl e, w') \<Longrightarrow>
    server_step L St (w, p) (w', p)"
| inserted: "p = xs @ rel # ys \<Longrightarrow> create_inserted L rel w = (x, w') \<Longrightarrow> server_step L St (w, p) (w', xs @ ys)"
| killed: "p = xs @ rel # ys \<Longrightarrow> server_step L St (w, p) (w, xs @ ys)"
| publish: "Publish L i now w = (x, w') \<Longrightarrow> server_step L St (w, p) (w', p)"
| database: "server_step L St (w, p) (w\<lparr>v_sql := os\<rparr>, p)"
| reorder: "mset rows = mset (v_rows w) \<Longrightarrow> server_step L St (w, p) (w\<lparr>v_rows := rows\<rparr>, p)"

definition empty_server :: "'s \<Rightarrow> 's run" where
  "empty_server b = (\<lparr>v_rows = [], v_blobs = b, v_sql = []\<rparr>, [])"

definition server_run :: "go_lib \<Rightarrow> 's storage \<Rightarrow> 's \<Rightarrow> 's run \<Rightarrow> bool" where
  "server_run L St b s \<longleftrightarrow> (server_step L St)\<^sup>*\<^sup>* (empty_server b) s"

lemma server_run_step: "server_run L St b s \<Longrightarrow> server_step L St s s' \<Longrightarrow> server_run L St b s'"
  by (simp add: server_run_def)

section \<open>The invariant\<close>

definition bundle_hash :: "go_lib \<Rightarrow> string \<Rightarrow> string" where
  "bundle_hash L b = hex_EncodeToString (sha256_Sum256 L b)"

definition holds_bundle :: "go_lib \<Rightarrow> ('s \<Rightarrow> string \<Rightarrow> string option) \<Rightarrow> 's \<Rightarrow> release \<Rightarrow> bool" where
  "holds_bundle L content b rel \<longleftrightarrow> rel_BundleStorageKey rel = storage_key (rel_ID rel)
     \<and> (\<exists>c. content b (storage_key (rel_ID rel)) = Some c \<and> bundle_hash L c = rel_BundleHash rel \<and> length c = rel_BundleSize rel)"

text \<open>What every release has: the constraints of the form.\<close>

definition well_formed :: "release \<Rightarrow> bool" where
  "well_formed rel \<longleftrightarrow> canonical_uuid (rel_ID rel) \<and> rel_Version rel \<noteq> [] \<and> rel_Platform rel \<noteq> [] \<and> rel_Channel rel \<noteq> []
     \<and> rel_RuntimeVersion rel \<noteq> [] \<and> rel_BundleHash rel \<noteq> [] \<and> rel_Signature rel \<noteq> []
     \<and> 0 \<le> rel_RolloutPercentage rel \<and> rel_RolloutPercentage rel \<le> 100"

definition server_inv :: "go_lib \<Rightarrow> ('s \<Rightarrow> string \<Rightarrow> string option) \<Rightarrow> 's run \<Rightarrow> bool" where
  "server_inv L content s \<longleftrightarrow> distinct (map rel_ID (v_rows (fst s) @ snd s))
     \<and> (\<forall>rel \<in> set (v_rows (fst s)) \<union> set (snd s). well_formed rel \<and> holds_bundle L content (v_blobs (fst s)) rel)
     \<and> (\<forall>rel \<in> set (v_rows (fst s)). table_row rel)"

lemma canonical_simple: "canonical_uuid i \<Longrightarrow> simple_name i"
proof -
  assume c: "canonical_uuid i"
  then have s: "set i \<subseteq> insert (CHR ''-'') hex_digits" and n: "length (split_on (CHR ''-'') i) = 5"
    by (auto simp: canonical_uuid_def dest: arg_cong [of _ _ length])
  from n have "CHR ''-'' \<in> set i" using split_on_no_sep [of "CHR ''-''" i] by (cases "CHR ''-'' \<in> set i") auto
  moreover have "CHR ''/'' \<notin> set i" "CHR 0x00 \<notin> set i" "CHR ''.'' \<notin> set i" using s by (auto simp: hex_digits_def)
  ultimately show ?thesis by (auto simp: simple_name_def)
qed

lemma well_formed_simple: "well_formed rel \<Longrightarrow> simple_name (rel_ID rel)"
  by (simp add: well_formed_def canonical_simple)

lemma insert_release_effect:
  assumes "go_lib_ok L" and "canonical_uuid (rel_ID rel)" and "insert_release L rel rows = Some (a, rows')"
  shows "\<exists>t. rows' = rows @ [rel\<lparr>rel_PublishedAt := None, rel_CreatedAt := t\<rparr>]
    \<and> table_row (rel\<lparr>rel_PublishedAt := None, rel_CreatedAt := t\<rparr>) \<and> rel_ID rel \<notin> rel_ID ` set rows"
proof -
  have "pg_uuid L (rel_ID rel) = Some (rel_ID rel)" using assms(1,2) by (simp add: go_lib_ok_def)
  then show ?thesis using assms(3) by (cases rel) (auto simp: insert_release_def Let_def split: if_splits)
qed

lemma create_inserted_effect:
  assumes "go_lib_ok L" and "canonical_uuid (rel_ID rel)" and "create_inserted L rel w = (x, w')"
  shows "v_blobs w' = v_blobs w \<and> (v_rows w' = v_rows w \<or>
    (\<exists>t. v_rows w' = v_rows w @ [rel\<lparr>rel_PublishedAt := None, rel_CreatedAt := t\<rparr>]
       \<and> table_row (rel\<lparr>rel_PublishedAt := None, rel_CreatedAt := t\<rparr>) \<and> rel_ID rel \<notin> rel_ID ` set (v_rows w)))"
proof -
  obtain y where "sql (insert_release L rel) w = (y, w')"
    using assms(3) by (auto simp: create_inserted_def rename_error_def then_io_def bind_io_def split: prod.splits sum.splits)
  from sql_frame [OF this] insert_release_effect [OF assms(1,2)] show ?thesis by blast
qed

text \<open>\<open>Publish\<close> sets the date of at most one release, which had none; \<open>mark\<close> is its effect on the rows.\<close>

definition mark :: "string \<Rightarrow> nat \<Rightarrow> release list \<Rightarrow> release list" where
  "mark j now rows = map (\<lambda>rel. if rel_ID rel = j \<and> rel_PublishedAt rel = None then rel\<lparr>rel_PublishedAt := Some now\<rparr> else rel) rows"

lemma mark_sel:
  "map rel_ID (mark j now rows) = map rel_ID rows"
  "rel \<in> set (mark j now rows) \<Longrightarrow> \<exists>r \<in> set rows. rel = r \<or> rel = r\<lparr>rel_PublishedAt := Some now\<rparr>"
  by (auto simp: mark_def)

lemma publish_release_effect: "publish_release L i now rows = Some (a, rows') \<Longrightarrow> \<exists>j. rows' = mark j now rows"
  by (auto simp: publish_release_def mark_def Let_def split: option.splits)

lemma Publish_effect:
  assumes "Publish L i now w = (x, w')"
  shows "v_blobs w' = v_blobs w \<and> (v_rows w' = v_rows w \<or> (\<exists>j. v_rows w' = mark j now (v_rows w)))"
proof (cases "uuid_Parse L i")
  case False
  then show ?thesis using assms by (simp add: Publish_def)
next
  case True
  obtain y w1 where u: "sql (publish_release L i now) w = (y, w1)" by fastforce
  have "v_blobs w1 = v_blobs w \<and> (v_rows w1 = v_rows w \<or> (\<exists>j. v_rows w1 = mark j now (v_rows w)))"
    using sql_frame [OF u] publish_release_effect [of L i now] by blast
  moreover have "reads (if n = 0 then then_io (Get L i) (Get L i) else Get L i)" for n :: nat
    by (auto simp: then_io_def intro: reads_Get reads_bind)
  then have "v_rows w' = v_rows w1 \<and> v_blobs w' = v_blobs w1"
    using assms True u by (auto simp: Publish_def bind_io_def rename_error_def reads_def split: sum.splits)
  ultimately show ?thesis by simp
qed

context blob_store
begin

lemma create_stored_effect:
  assumes "simple_name i" and "create_stored L St i now inp w = (x, w')"
  shows "v_rows w' = v_rows w"
    "simple_name j \<Longrightarrow> i \<noteq> j \<Longrightarrow> content (v_blobs w') (storage_key j) = content (v_blobs w) (storage_key j)"
    "filled inp \<Longrightarrow> canonical_uuid i \<Longrightarrow> x = Inr rel \<Longrightarrow> rel_ID rel = i \<and> well_formed rel \<and> holds_bundle L content (v_blobs w') rel"
  using assms(2) put_done [OF assms(1)] put_frame [OF assms(1)]
  by (auto simp: create_stored_def Let_def filled_def well_formed_def holds_bundle_def bundle_hash_def
      split: if_splits prod.splits sum.splits)

lemma holds_frame:
  assumes "holds_bundle L content b rel"
    and "content b' (storage_key (rel_ID rel)) = content b (storage_key (rel_ID rel))"
  shows "holds_bundle L content b' rel"
  using assms by (simp add: holds_bundle_def)

lemma stored_inv:
  assumes inv: "server_inv L content (w, p)" and i: "fresh_id i (w, p)" and f: "filled inp"
    and c: "create_stored L St i now inp w = (x, w')"
  shows "server_inv L content (w', p)" "x = Inr rel \<Longrightarrow> server_inv L content (w', rel # p)"
proof -
  have s: "simple_name i" using i by (simp add: fresh_id_def canonical_simple)
  have rows: "v_rows w' = v_rows w" by (rule create_stored_effect(1) [OF s c])
  have old: "holds_bundle L content (v_blobs w') r" if "r \<in> set (v_rows w) \<union> set p" for r
  proof (rule holds_frame)
    show "holds_bundle L content (v_blobs w) r" using inv that by (auto simp: server_inv_def)
    have "simple_name (rel_ID r)" "i \<noteq> rel_ID r"
      using inv i that by (auto simp: server_inv_def fresh_id_def intro: well_formed_simple)
    then show "content (v_blobs w') (storage_key (rel_ID r)) = content (v_blobs w) (storage_key (rel_ID r))"
      by (rule create_stored_effect(2) [OF s c])
  qed
  show kept: "server_inv L content (w', p)" using inv old by (auto simp: server_inv_def rows)
  assume x: "x = Inr rel"
  have new: "rel_ID rel = i" "well_formed rel" "holds_bundle L content (v_blobs w') rel"
    using create_stored_effect(3) [OF s c f _ x] i by (auto simp: fresh_id_def)
  show "server_inv L content (w', rel # p)" using kept new i by (auto simp: server_inv_def fresh_id_def rows)
qed

lemma holds_fields [simp]:
  "holds_bundle L content b (rel\<lparr>rel_PublishedAt := t, rel_CreatedAt := u\<rparr>) = holds_bundle L content b rel"
  "holds_bundle L content b (rel\<lparr>rel_PublishedAt := t\<rparr>) = holds_bundle L content b rel"
  by (simp_all add: holds_bundle_def)

lemma inv_drop: "server_inv L content (w, xs @ rel # ys) \<Longrightarrow> server_inv L content (w, xs @ ys)"
  by (auto simp: server_inv_def)

lemma inv_cong: "v_rows w' = v_rows w \<Longrightarrow> v_blobs w' = v_blobs w \<Longrightarrow> server_inv L content (w', p) = server_inv L content (w, p)"
  by (simp add: server_inv_def)

lemma inv_insert:
  assumes inv: "server_inv L content (w, xs @ rel # ys)" and b: "v_blobs w' = v_blobs w"
    and r: "v_rows w' = v_rows w @ [new]" and new: "new = rel\<lparr>rel_PublishedAt := None, rel_CreatedAt := t\<rparr>" and t: "table_row new"
  shows "server_inv L content (w', xs @ ys)"
proof -
  have n: "rel_ID new = rel_ID rel" "well_formed new = well_formed rel"
    "holds_bundle L content (v_blobs w) new = holds_bundle L content (v_blobs w) rel"
    by (simp_all add: new well_formed_def)
  have "distinct (map rel_ID (v_rows w) @ rel_ID rel # map rel_ID xs @ map rel_ID ys)"
    using inv by (auto simp: server_inv_def)
  moreover have "well_formed rel" "holds_bundle L content (v_blobs w) rel" using inv by (simp_all add: server_inv_def)
  ultimately show ?thesis
    using inv_drop [OF inv] t unfolding server_inv_def fst_conv snd_conv b r by (simp add: n)
qed

lemma server_step_inv:
  assumes L: "go_lib_ok L" and "server_step L St s s'" and "server_inv L content s"
  shows "server_inv L content s'"
  using assms(2,3)
proof induction
  case (stored i w p u inp now rel w')
  from stored_inv(2) [OF stored.prems stored.hyps(1) parse_create_filled [OF stored.hyps(2)] stored.hyps(3)] show ?case by simp
next
  case (not_stored i w p u inp now e w')
  from stored_inv(1) [OF not_stored.prems not_stored.hyps(1) parse_create_filled [OF not_stored.hyps(2)] not_stored.hyps(3)]
  show ?case .
next
  case (inserted p xs rel ys w x w')
  have "canonical_uuid (rel_ID rel)" using inserted by (auto simp: server_inv_def well_formed_def)
  from create_inserted_effect [OF L this inserted.hyps(2)] have b: "v_blobs w' = v_blobs w"
    and r: "v_rows w' = v_rows w \<or> (\<exists>t. v_rows w' = v_rows w @ [rel\<lparr>rel_PublishedAt := None, rel_CreatedAt := t\<rparr>]
       \<and> table_row (rel\<lparr>rel_PublishedAt := None, rel_CreatedAt := t\<rparr>))" by blast+
  note inv = inserted.prems [unfolded inserted.hyps(1)]
  from r show ?case
  proof
    assume "v_rows w' = v_rows w"
    with inv_drop [OF inv] inv_cong [OF this b] show ?case by simp
  qed (use inv_insert [OF inv b _ refl] in blast)
next
  case (killed p xs rel ys w)
  then show ?case by (auto simp: server_inv_def)
next
  case (publish i now w x w' p)
  from Publish_effect [OF publish.hyps] have b: "v_blobs w' = v_blobs w"
    and r: "v_rows w' = v_rows w \<or> (\<exists>j. v_rows w' = mark j now (v_rows w))" by simp_all
  from r have ids: "map rel_ID (v_rows w' @ p) = map rel_ID (v_rows w @ p)" by (auto simp: mark_sel)
  have "\<exists>r \<in> set (v_rows w). rel = r \<or> rel = r\<lparr>rel_PublishedAt := Some now\<rparr>" if "rel \<in> set (v_rows w')" for rel
    using r
  proof
    assume "v_rows w' = v_rows w"
    with that show ?thesis by auto
  next
    assume "\<exists>j. v_rows w' = mark j now (v_rows w)"
    with that show ?thesis using mark_sel(2) [of rel _ now "v_rows w"] by auto
  qed
  moreover have "well_formed r \<and> holds_bundle L content (v_blobs w) r \<and> table_row r" if "r \<in> set (v_rows w)" for r
    using publish.prems that by (simp add: server_inv_def)
  moreover have "well_formed (r\<lparr>rel_PublishedAt := t\<rparr>) = well_formed r" "table_row (r\<lparr>rel_PublishedAt := t\<rparr>) = table_row r" for r t
    by (simp_all add: well_formed_def table_row_def)
  ultimately have "well_formed rel \<and> holds_bundle L content (v_blobs w) rel \<and> table_row rel" if "rel \<in> set (v_rows w')" for rel
    using that holds_fields(2) by metis
  with publish.prems show ?case unfolding server_inv_def fst_conv snd_conv ids b by blast
next
  case (database w p os)
  then show ?case by (simp add: server_inv_def)
next
  case (reorder rows w p)
  then have "set rows = set (v_rows w)" "distinct (map rel_ID rows) = distinct (map rel_ID (v_rows w))"
    by (auto dest: mset_eq_setD) (metis mset_map distinct_count_atmost_1 mset_eq_setD set_map)+
  with reorder.prems show ?case by (simp add: server_inv_def)
qed

lemma server_run_inv:
  assumes "go_lib_ok L" and "server_run L St b s"
  shows "server_inv L content s"
  using assms(2) unfolding server_run_def
proof induction
  case base
  show ?case by (simp add: server_inv_def empty_server_def)
next
  case (step y z)
  from server_step_inv [OF assms(1) step.hyps(2) step.IH] show ?case .
qed

end

section \<open>A request is a run of steps\<close>

abbreviation server_steps :: "go_lib \<Rightarrow> 's storage \<Rightarrow> 's run \<Rightarrow> 's run \<Rightarrow> bool" where
  "server_steps L St \<equiv> (server_step L St)\<^sup>*\<^sup>*"

lemma reading_steps:
  assumes "v_rows w' = v_rows w" and "v_blobs w' = v_blobs w"
  shows "server_steps L St (w, p) (w', p)"
proof -
  have "w' = w\<lparr>v_sql := v_sql w'\<rparr>" using assms by (cases w; cases w') simp
  then show ?thesis using server_step.database [of L St w p "v_sql w'"] by auto
qed

lemma only_reads_steps: "only_reads h \<Longrightarrow> h w = (x, w') \<Longrightarrow> server_steps L St (w, p) (w', p)"
  by (rule reading_steps) (auto simp: only_reads_def dest: spec [of _ w])

lemma handleCreate_steps:
  assumes i: "fresh_id i (w, p)" and h: "handleCreate L St i now u w = (x, w')"
  shows "server_steps L St (w, p) (w', p)"
proof (cases "parse_create u")
  case (Inl r)
  then show ?thesis using h by (simp add: handleCreate_def)
next
  case (Inr inp)
  obtain y w1 where c: "create_stored L St i now inp w = (y, w1)" by fastforce
  show ?thesis
  proof (cases y)
    case (Inl e)
    then have "w' = w1" using h c Inr by (simp add: handleCreate_def Create_def bind_io_def split: if_splits)
    then show ?thesis using server_step.not_stored [OF i Inr] c Inl by auto
  next
    case (Inr rel)
    obtain z w2 where d: "create_inserted L rel w1 = (z, w2)" by fastforce
    then have "w' = w2"
      using h c Inr \<open>parse_create u = Inr inp\<close> by (simp add: handleCreate_def Create_def bind_io_def split: sum.splits)
    moreover have "server_step L St (w, p) (w1, rel # p)"
      using server_step.stored [OF i \<open>parse_create u = Inr inp\<close>] c Inr by auto
    moreover have "server_step L St (w1, rel # p) (w2, p)" using server_step.inserted [OF _ d, of "rel # p" "[]" p] by simp
    ultimately show ?thesis by (auto intro: converse_rtranclp_into_rtranclp)
  qed
qed

lemma handlePublish_steps:
  assumes "handlePublish L i now w = (x, w')"
  shows "server_steps L St (w, p) (w', p)"
proof -
  obtain y where "Publish L i now w = (y, w')" using assms by (auto simp: handlePublish_def split: prod.splits sum.splits)
  from server_step.publish [OF this, of St p] show ?thesis by (rule r_into_rtranclp)
qed

lemma serve_steps:
  assumes i: "fresh_id i (w, p)" and s: "serve L St i now r w = (x, w')"
  shows "server_steps L St (w, p) (w', p)"
proof (cases "find_route (rq_method r) (rq_path r)")
  case None
  then have "w' = w" using s by (auto simp: serve_def split: if_splits)
  then show ?thesis by simp
next
  case (Some ex)
  then show ?thesis
    using s handleCreate_steps [OF i] handlePublish_steps only_reads_steps [OF reading_handlers(1)]
      only_reads_steps [OF reading_handlers(2)] only_reads_steps [OF reading_handlers(3)]
      only_reads_steps [OF reading_handlers(4)] only_reads_steps [OF reading_handlers(5)]
    by (cases ex; cases "fst ex") (simp_all add: serve_def)
qed

lemma serve_run:
  assumes "server_run L St b (w, p)" and "fresh_id i (w, p)" and "serve L St i now r w = (x, w')"
  shows "server_run L St b (w', p)"
  using assms(1) serve_steps [OF assms(2,3)] unfolding server_run_def by (rule rtranclp_trans)

section \<open>The catalog\<close>

text \<open>
  What the server is to its clients: a catalog of releases with their bundles, in which a release never disappears,
  never changes, and is published at most once.
\<close>

type_synonym catalog = "string \<Rightarrow> (release \<times> string) option"

inductive catalog_step :: "go_lib \<Rightarrow> catalog \<Rightarrow> catalog \<Rightarrow> bool" for L where
  skip: "catalog_step L c c"
| add: "c i = None \<Longrightarrow> rel_ID rel = i \<Longrightarrow> rel_PublishedAt rel = None \<Longrightarrow> table_row rel \<Longrightarrow> bundle_hash L b = rel_BundleHash rel \<Longrightarrow>
    length b = rel_BundleSize rel \<Longrightarrow> catalog_step L c (c(i \<mapsto> (rel, b)))"
| publish: "c i = Some (rel, b) \<Longrightarrow> rel_PublishedAt rel = None \<Longrightarrow>
    catalog_step L c (c(i \<mapsto> (rel\<lparr>rel_PublishedAt := Some now\<rparr>, b)))"

definition row_of :: "string \<Rightarrow> release list \<Rightarrow> release option" where
  "row_of i rows = find (\<lambda>rel. rel_ID rel = i) rows"

definition catalog_of :: "('s \<Rightarrow> string \<Rightarrow> string option) \<Rightarrow> 's run \<Rightarrow> catalog" where
  "catalog_of content s i =
     map_option (\<lambda>rel. (rel, the (content (v_blobs (fst s)) (storage_key i)))) (row_of i (v_rows (fst s)))"

lemma row_of_Some:
  assumes "distinct (map rel_ID rows)"
  shows "row_of i rows = Some rel \<longleftrightarrow> rel \<in> set rows \<and> rel_ID rel = i"
  using assms by (induction rows) (auto simp: row_of_def)

lemma row_of_None: "row_of i rows = None \<longleftrightarrow> i \<notin> rel_ID ` set rows"
  by (auto simp: row_of_def find_None_iff)

lemma row_of_append: "row_of i (rows @ [rel]) = (case row_of i rows of None \<Rightarrow> if rel_ID rel = i then Some rel else None | Some r \<Rightarrow> Some r)"
  by (induction rows) (auto simp: row_of_def)

lemma row_of_mark:
  "row_of i (mark j now rows) = map_option (\<lambda>rel. if i = j \<and> rel_PublishedAt rel = None then rel\<lparr>rel_PublishedAt := Some now\<rparr> else rel) (row_of i rows)"
  by (induction rows) (auto simp: row_of_def mark_def)

lemma row_of_perm:
  assumes "distinct (map rel_ID rows)" and "mset rows' = mset rows"
  shows "row_of i rows' = row_of i rows"
proof -
  have "distinct (map rel_ID rows')" using assms by (metis mset_map mset_eq_imp_distinct_iff)
  moreover have "set rows' = set rows" using assms(2) by (rule mset_eq_setD)
  ultimately show ?thesis using row_of_Some [OF assms(1), of i] row_of_Some [of rows' i] by (cases "row_of i rows") (auto, metis not_Some_eq)
qed

context blob_store
begin

text \<open>Entries keep their bundles when the contents of their keys stay.\<close>

lemma catalog_cong:
  assumes "\<And>i. row_of i (v_rows w') = row_of i (v_rows w)"
    and "\<And>i rel. row_of i (v_rows w) = Some rel \<Longrightarrow> content (v_blobs w') (storage_key i) = content (v_blobs w) (storage_key i)"
  shows "catalog_of content (w', p') = catalog_of content (w, p)"
  by (rule ext) (simp add: catalog_of_def assms(1) map_option_case assms(2) split: option.split)

text \<open>\<open>mark\<close> publishes the entry of its id when that is a draft, and changes nothing otherwise.\<close>

lemma mark_catalog:
  assumes "v_blobs w' = v_blobs w" and "v_rows w' = mark j now (v_rows w)"
  shows "catalog_of content (w, p) j = Some (rel, b) \<Longrightarrow> rel_PublishedAt rel = None \<Longrightarrow>
      catalog_of content (w', p') = (catalog_of content (w, p))(j \<mapsto> (rel\<lparr>rel_PublishedAt := Some now\<rparr>, b))"
    and "\<nexists>rel b. catalog_of content (w, p) j = Some (rel, b) \<and> rel_PublishedAt rel = None \<Longrightarrow>
      catalog_of content (w', p') = catalog_of content (w, p)"
proof -
  show "catalog_of content (w, p) j = Some (rel, b) \<Longrightarrow> rel_PublishedAt rel = None \<Longrightarrow>
      catalog_of content (w', p') = (catalog_of content (w, p))(j \<mapsto> (rel\<lparr>rel_PublishedAt := Some now\<rparr>, b))"
    by (rule ext) (auto simp: catalog_of_def assms row_of_mark map_option_case split: option.splits)
  assume none: "\<nexists>rel b. catalog_of content (w, p) j = Some (rel, b) \<and> rel_PublishedAt rel = None"
  have "row_of i (v_rows w') = row_of i (v_rows w)" for i
    using none by (cases "row_of i (v_rows w)") (auto simp: assms(2) row_of_mark catalog_of_def)
  then show "catalog_of content (w', p') = catalog_of content (w, p)" by (intro catalog_cong) (simp_all add: assms(1))
qed

lemma stored_catalog:
  assumes inv: "server_inv L content (w, p)" and i: "fresh_id i (w, p)" and c: "create_stored L St i now inp w = (x, w')"
  shows "catalog_of content (w', p') = catalog_of content (w, p)"
proof (rule catalog_cong)
  have s: "simple_name i" using i by (simp add: fresh_id_def canonical_simple)
  show "row_of j (v_rows w') = row_of j (v_rows w)" for j by (simp add: create_stored_effect(1) [OF s c])
  fix j rel assume "row_of j (v_rows w) = Some rel"
  then have m: "rel \<in> set (v_rows w)" "rel_ID rel = j" using inv row_of_Some [of "v_rows w" j rel] by (auto simp: server_inv_def)
  then have "simple_name j" "i \<noteq> j" using inv i by (auto simp: server_inv_def fresh_id_def intro: well_formed_simple)
  then show "content (v_blobs w') (storage_key j) = content (v_blobs w) (storage_key j)"
    by (rule create_stored_effect(2) [OF s c])
qed

lemma catalog_refines:
  assumes L: "go_lib_ok L" and inv: "server_inv L content s" and step: "server_step L St s s'"
  shows "catalog_step L (catalog_of content s) (catalog_of content s')"
  using step inv
proof induction
  case (stored i w p u inp now rel w')
  then show ?case using stored_catalog by (metis catalog_step.skip)
next
  case (not_stored i w p u inp now e w')
  then show ?case using stored_catalog by (metis catalog_step.skip)
next
  case (inserted p xs rel ys w x w')
  have c: "canonical_uuid (rel_ID rel)" and h: "holds_bundle L content (v_blobs w) rel"
    using inserted by (auto simp: server_inv_def well_formed_def)
  from create_inserted_effect [OF L c inserted.hyps(2)] have b: "v_blobs w' = v_blobs w"
    and r: "v_rows w' = v_rows w \<or> (\<exists>t. v_rows w' = v_rows w @ [rel\<lparr>rel_PublishedAt := None, rel_CreatedAt := t\<rparr>]
       \<and> table_row (rel\<lparr>rel_PublishedAt := None, rel_CreatedAt := t\<rparr>) \<and> rel_ID rel \<notin> rel_ID ` set (v_rows w))" by blast+
  from r show ?case
  proof
    assume "v_rows w' = v_rows w"
    then have "catalog_of content (w', xs @ ys) = catalog_of content (w, p)" by (intro catalog_cong) (simp_all add: b)
    then show ?case by (simp add: catalog_step.skip)
  next
    assume "\<exists>t. v_rows w' = v_rows w @ [rel\<lparr>rel_PublishedAt := None, rel_CreatedAt := t\<rparr>]
       \<and> table_row (rel\<lparr>rel_PublishedAt := None, rel_CreatedAt := t\<rparr>) \<and> rel_ID rel \<notin> rel_ID ` set (v_rows w)"
    then obtain new t where new: "new = rel\<lparr>rel_PublishedAt := None, rel_CreatedAt := t\<rparr>" "v_rows w' = v_rows w @ [new]"
      "table_row new" and i: "rel_ID rel \<notin> rel_ID ` set (v_rows w)" by blast
    obtain d where d: "content (v_blobs w) (storage_key (rel_ID rel)) = Some d" "bundle_hash L d = rel_BundleHash rel" "length d = rel_BundleSize rel"
      using h by (auto simp: holds_bundle_def)
    have free: "row_of (rel_ID rel) (v_rows w) = None" using i by (simp add: row_of_None)
    have "catalog_of content (w', xs @ ys) = (catalog_of content (w, p))(rel_ID rel \<mapsto> (new, d))"
      by (rule ext) (use free in \<open>auto simp: catalog_of_def new b d row_of_append map_option_case split: option.splits\<close>)
    moreover have "catalog_step L (catalog_of content (w, p)) ((catalog_of content (w, p))(rel_ID rel \<mapsto> (new, d)))"
      by (rule catalog_step.add) (simp_all add: catalog_of_def free d new(3), simp_all add: new(1) d)
    ultimately show ?case by metis
  qed
next
  case (killed p xs rel ys w)
  have "catalog_of content (w, xs @ ys) = catalog_of content (w, p)" by (rule catalog_cong) simp_all
  then show ?case by (simp add: catalog_step.skip)
next
  case (publish i now w x w' p)
  from Publish_effect [OF publish.hyps] have b: "v_blobs w' = v_blobs w"
    and r: "v_rows w' = v_rows w \<or> (\<exists>j. v_rows w' = mark j now (v_rows w))" by simp_all
  from r consider "v_rows w' = v_rows w" | j where "v_rows w' = mark j now (v_rows w)" by blast
  then show ?case
  proof cases
    case 1
    then have "catalog_of content (w', p) = catalog_of content (w, p)" by (intro catalog_cong) (simp_all add: b)
    then show ?thesis by (simp add: catalog_step.skip)
  next
    case (2 j)
    let ?c = "catalog_of content (w, p)"
    show ?thesis
    proof (cases "\<exists>rel d. ?c j = Some (rel, d) \<and> rel_PublishedAt rel = None")
      case True
      then obtain rel d where j: "?c j = Some (rel, d)" "rel_PublishedAt rel = None" by blast
      from catalog_step.publish [where c = ?c and i = j and L = L and now = now, OF j] show ?thesis
        unfolding mark_catalog(1) [OF b 2 j] .
    next
      case False
      from mark_catalog(2) [OF b 2, of p p] False show ?thesis by (auto intro: catalog_step.skip)
    qed
  qed
next
  case (database w p os)
  have "catalog_of content (w\<lparr>v_sql := os\<rparr>, p) = catalog_of content (w, p)" by (rule catalog_cong) simp_all
  then show ?case by (simp add: catalog_step.skip)
next
  case (reorder rows w p)
  have "distinct (map rel_ID (v_rows w))" using reorder.prems by (simp add: server_inv_def)
  then have "catalog_of content (w\<lparr>v_rows := rows\<rparr>, p) = catalog_of content (w, p)"
    using row_of_perm [OF _ reorder.hyps] by (intro catalog_cong) simp_all
  then show ?case by (simp add: catalog_step.skip)
qed

end

end
