(* ===== verification/ServerProps.thy ===== *)
theory ServerProps
  imports ServerRuns
begin

text \<open>
  What the server promises, on the file system storage: bundles that cannot be wrong, listings that are exact,
  releases that never change, errors that leave no trace, keys that stay below the storage root.
\<close>

section \<open>A sample server\<close>

definition sample_go :: go_lib where
  "sample_go = \<lparr>sha256_Sum256 = (\<lambda>b. b), uuid_Parse = canonical_uuid,
     pg_uuid = (\<lambda>s. if canonical_uuid s then Some s else None), pg_time = (\<lambda>t. t)\<rparr>"

lemma sample_go_ok [simp]: "go_lib_ok sample_go"
  by (auto simp: go_lib_ok_def sample_go_def mono_def split: if_splits)

definition sample_root :: path where
  "sample_root = [''srv'']"

definition server_disk :: disk where
  "server_disk = \<lparr>d_fs = [([''srv''], Dir)], d_hist = [], may_read = (\<lambda>_. True), may_write = (\<lambda>_. True), d_room = None\<rparr>"

lemma server_disk_view: "dview server_disk p = (if p = [] \<or> p = [''srv''] then Some Dir else None)"
  by (auto simp: fview_def fget_def server_disk_def norm_simple simple_name_def)

lemma server_disk_up: "local_up sample_root server_disk"
proof -
  have "tree (dview server_disk)" by (auto simp: tree_def server_disk_view)
  moreover have "healthy server_disk" by (simp add: healthy_def permissive_def server_disk_def)
  ultimately show ?thesis
    by (auto simp: local_up_def good_def sample_root_def no_file_above_def server_disk_view blob_path_def simple_name_def)
qed

definition sample_id :: string where
  "sample_id = ''00000000-0000-4000-8000-000000000001''"

lemma sample_id_canonical [simp]: "canonical_uuid sample_id"
  by (simp add: canonical_uuid_def sample_id_def hex_digits_def)

definition sample_form :: upload where
  "sample_form = \<lparr>up_error = None,
     up_values = [(''version'', ''1.5.0''), (''platform'', ''ios''), (''channel'', ''production''), (''runtime_version'', ''1.5''),
       (''bundle_hash'', ''6f6b''), (''signature'', ''sig''), (''rollout_percentage'', ''100'')],
     up_file = Some \<lparr>rd_data = ''ok'', rd_complete = True\<rparr>\<rparr>"

section \<open>A good day\<close>

text \<open>What the handlers do when the database answers and the storage does not fail.\<close>

definition accepted :: "go_lib \<Rightarrow> create_input \<Rightarrow> bool" where
  "accepted L inp \<longleftrightarrow> filled inp \<and> rd_complete (in_Bundle inp) \<and> bundle_hash L (rd_data (in_Bundle inp)) = in_BundleHash inp
     \<and> in_Platform inp \<in> {''ios'', ''android''}"

definition draft :: "go_lib \<Rightarrow> string \<Rightarrow> nat \<Rightarrow> create_input \<Rightarrow> release" where
  "draft L i now inp =
     \<lparr>rel_ID = i, rel_Version = in_Version inp, rel_Platform = in_Platform inp, rel_Channel = in_Channel inp,
      rel_RuntimeVersion = in_RuntimeVersion inp, rel_BundleHash = in_BundleHash inp, rel_Signature = in_Signature inp,
      rel_BundleSize = length (rd_data (in_Bundle inp)), rel_BundleStorageKey = storage_key i,
      rel_RolloutPercentage = in_RolloutPercentage inp, rel_PublishedAt = None, rel_CreatedAt = now\<rparr>"

definition published :: "nat \<Rightarrow> release \<Rightarrow> release" where
  "published now rel = (if rel_PublishedAt rel = None then rel\<lparr>rel_PublishedAt := Some now\<rparr> else rel)"

lemma publish_quiet:
  assumes L: "go_lib_ok L" and q: "v_sql w = []" and i: "canonical_uuid i" and r: "row_of i (v_rows w) = Some rel"
  shows "handlePublish L i now w =
    (writeJSON 200 (JsonMetadata (toReleaseMetadata (published now rel))), w\<lparr>v_rows := mark i now (v_rows w)\<rparr>)"
proof -
  have u: "uuid_Parse L i" "pg_uuid L i = Some i" using L i by (simp_all add: go_lib_ok_def)
  let ?w = "w\<lparr>v_rows := mark i now (v_rows w)\<rparr>"
  have "find (\<lambda>rel. rel_ID rel = i) (v_rows ?w) = Some (published now rel)"
    using row_of_mark [of i i now "v_rows w"] r by (simp add: row_of_def published_def)
  then have g: "Get L i ?w = (Inr (published now rel), ?w)" using q u by (intro Get_quiet) simp_all
  obtain n where "publish_release L i now (v_rows w) = Some (n, mark i now (v_rows w))"
    by (simp add: publish_release_def u mark_def)
  then have "sql (publish_release L i now) w = (Inr n, ?w)" using q by (intro sql_quiet)
  then show ?thesis
    by (cases "n = 0") (simp_all add: handlePublish_def Publish_def u bind_io_def rename_error_def then_io_def g)
qed

lemma updates_quiet:
  assumes "v_sql w = []" and "first_value q ''channel'' \<noteq> []" and "first_value q ''platform'' \<noteq> []" and "first_value q ''runtime_version'' \<noteq> []"
  shows "updates_handleList q w =
    (writeJSON 200 (JsonMetadataList (map toReleaseMetadata (newest_first (filter (offered
       \<lparr>lf_Channel = first_value q ''channel'', lf_Platform = first_value q ''platform'', lf_RuntimeVersion = first_value q ''runtime_version''\<rparr>)
       (v_rows w))))), w)"
  using assms by (simp add: updates_handleList_def Let_def ListUpdates_def rename_error_def sql_quiet select_updates_def)

context blob_store
begin

lemma create_quiet:
  assumes L: "go_lib_ok L" and u: "up (v_blobs w)" and q: "v_sql w = []" and i: "canonical_uuid i"
    and new: "i \<notin> rel_ID ` set (v_rows w)" and p: "parse_create form = Inr inp" and a: "accepted L inp"
  shows "\<exists>s. handleCreate L St i now form w =
      (writeJSON 201 (JsonMetadata (toReleaseMetadata (draft L i now inp))),
       w\<lparr>v_blobs := s, v_rows := v_rows w @ [draft L i (pg_time L now) inp]\<rparr>)
    \<and> up s \<and> content s (storage_key i) = Some (rd_data (in_Bundle inp))"
proof -
  have si: "simple_name i" using i by (rule canonical_simple)
  obtain s where s: "st_Put St (storage_key i) \<lparr>rd_data = rd_data (in_Bundle inp), rd_complete = True\<rparr> (v_blobs w) = (Inr (), s)" "up s"
    using put_up [OF u si, of "\<lparr>rd_data = rd_data (in_Bundle inp), rd_complete = True\<rparr>"] by auto
  have c: "content s (storage_key i) = Some (rd_data (in_Bundle inp))" using put_done [OF si s(1)] by simp
  have st: "create_stored L St i now inp w = (Inr (draft L i now inp), w\<lparr>v_blobs := s\<rparr>)"
    using a s(1) by (simp add: create_stored_def Let_def accepted_def bundle_hash_def draft_def)
  have "pg_uuid L i = Some i" using L i by (simp add: go_lib_ok_def)
  then have "insert_release L (draft L i now inp) (v_rows w) = Some ((), v_rows w @ [draft L i (pg_time L now) inp])"
    using a i new by (auto simp: insert_release_def draft_def table_row_def accepted_def filled_def)
  then have "sql (insert_release L (draft L i now inp)) (w\<lparr>v_blobs := s\<rparr>)
      = (Inr (), w\<lparr>v_blobs := s, v_rows := v_rows w @ [draft L i (pg_time L now) inp]\<rparr>)"
    using q by (simp add: sql_quiet)
  then have "handleCreate L St i now form w =
      (writeJSON 201 (JsonMetadata (toReleaseMetadata (draft L i now inp))),
       w\<lparr>v_blobs := s, v_rows := v_rows w @ [draft L i (pg_time L now) inp]\<rparr>)"
    by (simp add: handleCreate_def p Create_def bind_io_def st create_inserted_def then_io_def rename_error_def)
  with s(2) c show ?thesis by blast
qed

lemma download_quiet:
  assumes L: "go_lib_ok L" and u: "up (v_blobs w)" and q: "v_sql w = []" and i: "canonical_uuid i"
    and r: "row_of i (v_rows w) = Some rel" and k: "rel_BundleStorageKey rel = storage_key i"
    and c: "content (v_blobs w) (storage_key i) = Some b"
  shows "handleBundle L St i w =
    (\<lparr>h_status = 200, h_headers = [(''Content-Type'', ''application/octet-stream''), (''X-Salve-Push-Bundle-Hash'', rel_BundleHash rel)],
      h_body = Bytes b\<rparr>, w)"
proof -
  have "uuid_Parse L i" "pg_uuid L i = Some i" using L i by (simp_all add: go_lib_ok_def)
  then have "Get L i w = (Inr rel, w)" using q r by (intro Get_quiet) (simp_all add: row_of_def)
  with get_up [OF u canonical_simple [OF i] c] show ?thesis
    by (simp add: handleBundle_def OpenBundle_def bind_io_def k)
qed

text \<open>A draft can be published at any time: it takes one request, answered by the database.\<close>

lemma draft_can_be_published:
  assumes L: "go_lib_ok L" and inv: "server_inv L content (w, p)"
    and i: "catalog_of content (w, p) i = Some (rel, b)" "rel_PublishedAt rel = None"
  shows "\<exists>s'. server_steps L St (w, p) s'
    \<and> catalog_of content s' = (catalog_of content (w, p))(i \<mapsto> (rel\<lparr>rel_PublishedAt := Some now\<rparr>, b))"
proof -
  let ?w = "w\<lparr>v_sql := []\<rparr>"
  have r: "row_of i (v_rows ?w) = Some rel" using i(1) by (simp add: catalog_of_def)
  then have "rel \<in> set (v_rows w)" "rel_ID rel = i" by (auto simp: row_of_def find_Some_iff)
  then have c: "canonical_uuid i" using inv by (auto simp: server_inv_def well_formed_def)
  have d: "server_step L St (w, p) (?w, p)" by (rule server_step.database)
  have "catalog_of content (?w, p) = catalog_of content (w, p)" by (rule catalog_cong) simp_all
  with i have i': "catalog_of content (?w, p) i = Some (rel, b)" "rel_PublishedAt rel = None"
    and e: "catalog_of content (?w, p) = catalog_of content (w, p)" by simp_all
  have q: "v_sql ?w = []" by simp
  note h = publish_quiet [OF L q c r, of now]
  from converse_rtranclp_into_rtranclp [OF d handlePublish_steps [OF h, of St p]]
    mark_catalog(1) [OF _ _ i', of "?w\<lparr>v_rows := mark i now (v_rows ?w)\<rparr>" now p]
  show ?thesis unfolding e by auto
qed

text \<open>On any day, what is sent as a bundle is a release's bundle, or a part of it.\<close>

lemma download_sound:
  assumes inv: "server_inv L content (w, p)" and h: "handleBundle L St i w = (r, w')" and ok: "h_status r = 200"
  shows "\<exists>rel \<in> set (v_rows w). \<exists>c b. h_headers r = [(''Content-Type'', ''application/octet-stream''), (''X-Salve-Push-Bundle-Hash'', rel_BundleHash rel)]
    \<and> pg_uuid L i = Some (rel_ID rel) \<and> h_body r = Bytes c \<and> prefix c b \<and> bundle_hash L b = rel_BundleHash rel \<and> length b = rel_BundleSize rel"
proof -
  obtain y where o1: "OpenBundle L St i w = (y, w')" using h by (auto simp: handleBundle_def split: prod.splits sum.splits)
  then obtain body rel where y: "y = Inr (body, rel)" and r: "h_headers r = [(''Content-Type'', ''application/octet-stream''), (''X-Salve-Push-Bundle-Hash'', rel_BundleHash rel)]"
    "h_body r = Bytes (rd_data body)"
    using h ok by (auto simp: handleBundle_def lookup_error_def http_Error_def split: sum.splits if_splits)
  obtain w1 where g: "Get L i w = (Inr rel, w1)" and s: "st_Get St (rel_BundleStorageKey rel) (v_blobs w1) = Inr body"
    using o1 y by (auto simp: OpenBundle_def bind_io_def split: prod.splits sum.splits)
  obtain j where j: "pg_uuid L i = Some j" "find (\<lambda>rel. rel_ID rel = j) (v_rows w) = Some rel" using Get_result [OF g] by blast
  then have m: "rel \<in> set (v_rows w)" "rel_ID rel = j" by (auto simp: find_Some_iff)
  have b: "v_blobs w1 = v_blobs w" using readsD [OF reads_Get g] by simp
  from m(1) inv have wf: "well_formed rel" "holds_bundle L content (v_blobs w) rel" by (auto simp: server_inv_def)
  then obtain c where c: "content (v_blobs w) (storage_key j) = Some c" "bundle_hash L c = rel_BundleHash rel" "length c = rel_BundleSize rel"
    "rel_BundleStorageKey rel = storage_key j"
    using m(2) by (auto simp: holds_bundle_def)
  have "prefix (rd_data body) c"
    using get_content [OF well_formed_simple [OF wf(1)], of "v_blobs w" body] s c(1,4) m(2) b by simp
  with m c j(1) r show ?thesis by blast
qed

end

section \<open>Requests\<close>

definition no_upload :: upload where
  "no_upload = \<lparr>up_error = None, up_values = [], up_file = None\<rparr>"

definition get_updates :: "(string \<times> string) list \<Rightarrow> http_request" where
  "get_updates q = \<lparr>rq_method = ''GET'', rq_path = [''v1'', ''updates''], rq_query = q, rq_upload = no_upload\<rparr>"

definition get_bundle :: "string \<Rightarrow> http_request" where
  "get_bundle i = \<lparr>rq_method = ''GET'', rq_path = [''v1'', ''updates'', i, ''bundle''], rq_query = [], rq_upload = no_upload\<rparr>"

definition post_release :: "upload \<Rightarrow> http_request" where
  "post_release u = \<lparr>rq_method = ''POST'', rq_path = [''v1'', ''releases''], rq_query = [], rq_upload = u\<rparr>"

definition post_publish :: "string \<Rightarrow> http_request" where
  "post_publish i = \<lparr>rq_method = ''POST'', rq_path = [''v1'', ''releases'', i, ''publish''], rq_query = [], rq_upload = no_upload\<rparr>"

lemmas route_defs = find_route_def routes_def registerPublicRoutes_def registerAdminRoutes_def

lemma serve_requests:
  "serve L St i now (get_updates q) w = updates_handleList q w"
  "j \<noteq> [] \<Longrightarrow> serve L St i now (get_bundle j) w = handleBundle L St j w"
  "serve L St i now (post_release u) w = handleCreate L St i now u w"
  "j \<noteq> [] \<Longrightarrow> serve L St i now (post_publish j) w = handlePublish L j now w"
  by (simp_all add: serve_def get_updates_def get_bundle_def post_release_def post_publish_def route_defs)

section \<open>A sample run\<close>

definition sample_release :: release where
  "sample_release = \<lparr>rel_ID = sample_id, rel_Version = ''1.5.0'', rel_Platform = ''ios'', rel_Channel = ''production'',
     rel_RuntimeVersion = ''1.5'', rel_BundleHash = ''6f6b'', rel_Signature = ''sig'', rel_BundleSize = 2,
     rel_BundleStorageKey = storage_key sample_id, rel_RolloutPercentage = 100, rel_PublishedAt = None, rel_CreatedAt = 5\<rparr>"

lemma sample_parse: "\<exists>inp. parse_create sample_form = Inr inp \<and> accepted sample_go inp \<and> rd_data (in_Bundle inp) = ''ok''
    \<and> draft sample_go sample_id 5 inp = sample_release"
  by (simp add: parse_create_def sample_form_def first_value_def rollout_value_def Atoi_def digits_value_def digit_set_def
      accepted_def filled_def bundle_hash_def hex_EncodeToString_def sample_go_def draft_def sample_release_def)

lemma sample_server:
  "\<exists>w. server_run sample_go (local_storage sample_root) server_disk (w, []) \<and> v_rows w = [sample_release] \<and> v_sql w = []
     \<and> local_up sample_root (v_blobs w) \<and> local_content sample_root (v_blobs w) (storage_key sample_id) = Some ''ok''
     \<and> handleCreate sample_go (local_storage sample_root) sample_id 5 sample_form (fst (empty_server server_disk)) = (writeJSON 201 (JsonMetadata (toReleaseMetadata sample_release)), w)"
proof -
  define start where "start = fst (empty_server server_disk)"
  have w0: "v_blobs start = server_disk" "v_sql start = []" "v_rows start = []" "empty_server server_disk = (start, [])"
    by (simp_all add: start_def empty_server_def)
  obtain inp where inp: "parse_create sample_form = Inr inp" "accepted sample_go inp" "rd_data (in_Bundle inp) = ''ok''"
    "draft sample_go sample_id 5 inp = sample_release" using sample_parse by blast
  have t: "pg_time sample_go 5 = 5" by (simp add: sample_go_def)
  obtain s where s: "handleCreate sample_go (local_storage sample_root) sample_id 5 sample_form start
      = (writeJSON 201 (JsonMetadata (toReleaseMetadata sample_release)), start\<lparr>v_blobs := s, v_rows := [sample_release]\<rparr>)"
    "local_up sample_root s" "local_content sample_root s (storage_key sample_id) = Some ''ok''"
    using on_disk.create_quiet [OF sample_go_ok _ w0(2) sample_id_canonical _ inp(1,2), of sample_root 5] server_disk_up
    unfolding w0(1,3) t inp(3,4) by auto
  let ?w = "start\<lparr>v_blobs := s, v_rows := [sample_release]\<rparr>"
  have "fresh_id sample_id (start, [])" using w0(3) by (simp add: fresh_id_def)
  from handleCreate_steps [OF this s(1)] have "server_run sample_go (local_storage sample_root) server_disk (?w, [])"
    unfolding server_run_def w0(4) .
  with s w0(2) show ?thesis by (intro exI [of _ ?w]) (simp add: w0(4))
qed

section \<open>Properties\<close>

text \<open>C5. Bundles cannot be wrong: in every state the server can reach, whatever the database and the file system do, a
  bundle it answers with is the one whose hash and size the release was created with, and the header names this
  hash; when reading fails half-way, it is a beginning of that bundle.\<close>

theorem bundles_are_genuine:
  assumes "go_lib_ok L" and "server_run L (local_storage basePath) d (w, p)"
    and "serve L (local_storage basePath) k now (get_bundle i) w = (r, w')" and "i \<noteq> []" and "h_status r = 200"
  shows "\<exists>rel \<in> set (v_rows w). \<exists>c b. pg_uuid L i = Some (rel_ID rel)
    \<and> (''X-Salve-Push-Bundle-Hash'', rel_BundleHash rel) \<in> set (h_headers r)
    \<and> h_body r = Bytes c \<and> prefix c b \<and> bundle_hash L b = rel_BundleHash rel \<and> length b = rel_BundleSize rel"
  using on_disk.download_sound [OF on_disk.server_run_inv [OF assms(1,2)] assms(3) [unfolded serve_requests(2) [OF assms(4)]] assms(5)]
  by fastforce

theorem bundles_are_genuine_witness:
  "\<exists>w r w'. serve sample_go (local_storage sample_root) sample_id 7 (get_bundle sample_id) w = (r, w') \<and> h_body r = Bytes ''ok''
     \<and> (\<exists>rel \<in> set (v_rows w). (''X-Salve-Push-Bundle-Hash'', rel_BundleHash rel) \<in> set (h_headers r))"
proof -
  obtain w where w: "server_run sample_go (local_storage sample_root) server_disk (w, [])" "v_rows w = [sample_release]"
    "v_sql w = []" "local_up sample_root (v_blobs w)" "local_content sample_root (v_blobs w) (storage_key sample_id) = Some ''ok''"
    using sample_server by blast
  have ne: "sample_id \<noteq> []" by (simp add: sample_id_def)
  have "row_of sample_id (v_rows w) = Some sample_release" by (simp add: w(2) row_of_def sample_release_def)
  note g = on_disk.download_quiet [OF sample_go_ok w(4,3) sample_id_canonical this _ w(5)]
  then obtain r where r: "serve sample_go (local_storage sample_root) sample_id 7 (get_bundle sample_id) w = (r, w)"
    "h_status r = 200" "h_body r = Bytes ''ok''"
    by (simp add: serve_requests(2) [OF ne] sample_release_def)
  from bundles_are_genuine [OF sample_go_ok w(1) r(1) ne r(2)] r show ?thesis by blast
qed

text \<open>The same holds with the bundles in S3.\<close>

lemma s3_bundles_are_genuine:
  assumes "s3_ok client bucket objects online" and "go_lib_ok L" and "server_run L (s3_storage client bucket) d (w, p)"
    and "serve L (s3_storage client bucket) k now (get_bundle i) w = (r, w')" and "i \<noteq> []" and "h_status r = 200"
  shows "\<exists>rel \<in> set (v_rows w). \<exists>c b. pg_uuid L i = Some (rel_ID rel)
    \<and> (''X-Salve-Push-Bundle-Hash'', rel_BundleHash rel) \<in> set (h_headers r)
    \<and> h_body r = Bytes c \<and> prefix c b \<and> bundle_hash L b = rel_BundleHash rel \<and> length b = rel_BundleSize rel"
proof -
  note s3 = s3_blob_store [OF assms(1)]
  show ?thesis
    using blob_store.download_sound [OF s3 blob_store.server_run_inv [OF s3 assms(2,3)] assms(4) [unfolded serve_requests(2) [OF assms(5)]] assms(6)]
    by fastforce
qed

text \<open>C20. The listing is exact: with the three parameters given and the database answering, \<open>GET /v1/updates\<close> lists
  exactly the published releases of that channel, platform and runtime version whose rollout is not zero, each
  once, the newest first, and changes nothing.\<close>

theorem updates_listing_is_exact:
  assumes "v_sql w = []" and "first_value q ''channel'' \<noteq> []" and "first_value q ''platform'' \<noteq> []" and "first_value q ''runtime_version'' \<noteq> []"
  shows "\<exists>rels. serve L St i now (get_updates q) w = (writeJSON 200 (JsonMetadataList (map toReleaseMetadata rels)), w)
    \<and> mset rels = mset (filter (\<lambda>rel. rel_PublishedAt rel \<noteq> None \<and> 0 < rel_RolloutPercentage rel
         \<and> rel_Channel rel = first_value q ''channel'' \<and> rel_Platform rel = first_value q ''platform''
         \<and> rel_RuntimeVersion rel = first_value q ''runtime_version'') (v_rows w))
    \<and> sorted_wrt (\<lambda>a b. rel_CreatedAt b \<le> rel_CreatedAt a) rels"
  unfolding serve_requests updates_quiet [OF assms]
  by (intro exI conjI, rule refl) (simp_all add: newest_first_props offered_def conj_ac)

theorem updates_listing_is_exact_witness:
  "\<exists>rels. serve sample_go (local_storage sample_root) sample_id 0
       (get_updates [(''channel'', ''production''), (''platform'', ''ios''), (''runtime_version'', ''1.5'')])
       \<lparr>v_rows = [sample_release, published 9 sample_release], v_blobs = server_disk, v_sql = []\<rparr>
     = (writeJSON 200 (JsonMetadataList (map toReleaseMetadata rels)),
        \<lparr>v_rows = [sample_release, published 9 sample_release], v_blobs = server_disk, v_sql = []\<rparr>)
     \<and> mset rels = {#published 9 sample_release#}"
  using updates_listing_is_exact [where w = "\<lparr>v_rows = [sample_release, published 9 sample_release], v_blobs = server_disk, v_sql = []\<rparr>"
      and q = "[(''channel'', ''production''), (''platform'', ''ios''), (''runtime_version'', ''1.5'')]"
      and L = sample_go and St = "local_storage sample_root" and i = sample_id and now = 0]
  by (auto simp: first_value_def published_def sample_release_def)

text \<open>C6. Refinement, step by step: a new server is the empty catalog, and from every state the server can reach, each of its
  steps, also when the database fails or the process is killed, leaves the catalog as it is, adds one draft under a new id with
  a bundle that has its hash and size, or gives one draft its date of publication. So nothing else ever happens to a
  release, and none is published twice. Conversely each publication the catalog allows can happen.\<close>

theorem server_refines_catalog:
  assumes "go_lib_ok L" and "server_run L (local_storage basePath) d s"
  shows "catalog_of (local_content basePath) (empty_server d) = Map.empty
    \<and> (\<forall>s'. server_step L (local_storage basePath) s s' \<longrightarrow>
        catalog_step L (catalog_of (local_content basePath) s) (catalog_of (local_content basePath) s'))
    \<and> (\<forall>i rel b now. catalog_of (local_content basePath) s i = Some (rel, b) \<longrightarrow> rel_PublishedAt rel = None \<longrightarrow>
        (\<exists>s'. server_steps L (local_storage basePath) s s' \<and> catalog_of (local_content basePath) s'
            = (catalog_of (local_content basePath) s)(i \<mapsto> (rel\<lparr>rel_PublishedAt := Some now\<rparr>, b))))"
proof (intro conjI allI impI)
  note inv = on_disk.server_run_inv [OF assms]
  show "catalog_of (local_content basePath) (empty_server d) = Map.empty"
    by (rule ext) (simp add: catalog_of_def empty_server_def row_of_def)
  show "catalog_step L (catalog_of (local_content basePath) s) (catalog_of (local_content basePath) s')"
    if "server_step L (local_storage basePath) s s'" for s'
    by (rule on_disk.catalog_refines [OF assms(1) inv that])
  show "\<exists>s'. server_steps L (local_storage basePath) s s' \<and> catalog_of (local_content basePath) s'
      = (catalog_of (local_content basePath) s)(i \<mapsto> (rel\<lparr>rel_PublishedAt := Some now\<rparr>, b))"
    if "catalog_of (local_content basePath) s i = Some (rel, b)" "rel_PublishedAt rel = None" for i rel b now
    using on_disk.draft_can_be_published [OF assms(1)] inv that by (cases s) blast
qed

theorem server_refines_catalog_witness:
  "\<exists>s s'. catalog_of (local_content sample_root) s sample_id = Some (sample_release, ''ok'')
     \<and> server_steps sample_go (local_storage sample_root) s s'
     \<and> catalog_of (local_content sample_root) s' sample_id = Some (sample_release\<lparr>rel_PublishedAt := Some 9\<rparr>, ''ok'')"
proof -
  obtain w where w: "server_run sample_go (local_storage sample_root) server_disk (w, [])" "v_rows w = [sample_release]"
    "local_content sample_root (v_blobs w) (storage_key sample_id) = Some ''ok''" using sample_server by blast
  have c: "catalog_of (local_content sample_root) (w, []) sample_id = Some (sample_release, ''ok'')"
    using w by (simp add: catalog_of_def row_of_def sample_release_def)
  have n: "rel_PublishedAt sample_release = None" by (simp add: sample_release_def)
  from server_refines_catalog [OF sample_go_ok w(1)] c n obtain s' where
    "server_steps sample_go (local_storage sample_root) (w, []) s'"
    "catalog_of (local_content sample_root) s' = (catalog_of (local_content sample_root) (w, []))
       (sample_id \<mapsto> (sample_release\<lparr>rel_PublishedAt := Some 9\<rparr>, ''ok''))" by blast
  with c show ?thesis by (intro exI [of _ "(w, [])"] exI [of _ s']) simp
qed

text \<open>The catalog only grows, and an entry changes at most once, when it is published.\<close>

definition same_release :: "release \<Rightarrow> release \<Rightarrow> bool" where
  "same_release rel rel' \<longleftrightarrow> rel' = rel \<or> rel_PublishedAt rel = None \<and> (\<exists>t. rel' = rel\<lparr>rel_PublishedAt := Some t\<rparr>)"

lemma same_release_trans: "same_release a b \<Longrightarrow> same_release b c \<Longrightarrow> same_release a c"
  by (auto simp: same_release_def)

lemma catalog_step_keeps:
  "catalog_step L c c' \<Longrightarrow> c i = Some (rel, b) \<Longrightarrow> \<exists>rel'. c' i = Some (rel', b) \<and> same_release rel rel'"
  by (induction rule: catalog_step.induct) (auto simp: same_release_def)

lemma server_steps_keep:
  assumes L: "go_lib_ok L" and inv: "server_inv L (local_content basePath) s"
    and steps: "server_steps L (local_storage basePath) s s'"
    and c: "catalog_of (local_content basePath) s i = Some (rel, b)"
  shows "server_inv L (local_content basePath) s'
    \<and> (\<exists>rel'. catalog_of (local_content basePath) s' i = Some (rel', b) \<and> same_release rel rel')"
  using steps
proof induction
  case base
  show ?case using inv c by (simp add: same_release_def)
next
  case (step y z)
  then obtain rel' where y: "catalog_of (local_content basePath) y i = Some (rel', b)" "same_release rel rel'" by blast
  have v: "server_inv L (local_content basePath) y" using step.IH ..
  from catalog_step_keeps [OF on_disk.catalog_refines [OF L v step.hyps(2)] y(1)] obtain rel''
    where "catalog_of (local_content basePath) z i = Some (rel'', b)" "same_release rel' rel''" by blast
  with on_disk.server_step_inv [OF L step.hyps(2) v] same_release_trans [OF y(2)] show ?case by blast
qed

text \<open>C13. Releases are permanent: once a release is in the catalog it stays there with the same bundle, and no later
  request, failure or kill changes any of its fields but the publication date, which is set once.\<close>

theorem releases_are_permanent:
  assumes "go_lib_ok L" and "server_run L (local_storage basePath) d s"
    and "server_steps L (local_storage basePath) s s'" and "catalog_of (local_content basePath) s i = Some (rel, b)"
  shows "\<exists>rel'. catalog_of (local_content basePath) s' i = Some (rel', b)
    \<and> (rel' = rel \<or> rel_PublishedAt rel = None \<and> (\<exists>t. rel' = rel\<lparr>rel_PublishedAt := Some t\<rparr>))"
  using server_steps_keep [OF assms(1) on_disk.server_run_inv [OF assms(1,2)] assms(3,4)] unfolding same_release_def by blast

theorem releases_are_permanent_witness:
  "\<exists>s s' rel'. server_steps sample_go (local_storage sample_root) s s' \<and> catalog_of (local_content sample_root) s' sample_id = Some (rel', ''ok'')
     \<and> rel_Version rel' = ''1.5.0''"
proof -
  obtain w where w: "server_run sample_go (local_storage sample_root) server_disk (w, [])" "v_rows w = [sample_release]"
    "local_content sample_root (v_blobs w) (storage_key sample_id) = Some ''ok''" using sample_server by blast
  have c: "catalog_of (local_content sample_root) (w, []) sample_id = Some (sample_release, ''ok'')"
    using w by (simp add: catalog_of_def row_of_def sample_release_def)
  obtain x w' where p: "handlePublish sample_go sample_id 9 w = (x, w')" by fastforce
  note st = handlePublish_steps [OF p, of "local_storage sample_root" "[]"]
  from releases_are_permanent [OF sample_go_ok w(1) st c] obtain rel'
    where "catalog_of (local_content sample_root) (w', []) sample_id = Some (rel', ''ok'')" "rel_Version rel' = ''1.5.0''"
    by (auto simp: sample_release_def)
  with st show ?thesis by blast
qed

lemma create_outcome:
  assumes "go_lib_ok L" and "canonical_uuid i" and "handleCreate L St i now u w = (r, w')"
  shows "h_status r \<in> {201, 400, 500} \<and> (h_status r = 400 \<longrightarrow> w' = w)
    \<and> (\<forall>f. filter (offered f) (v_rows w') = filter (offered f) (v_rows w))"
proof (cases "parse_create u")
  case (Inl e)
  then have "h_status e = 400" by (auto simp: parse_create_def http_Error_def Let_def split: option.splits if_splits)
  then show ?thesis using assms(3) Inl by (simp add: handleCreate_def)
next
  case (Inr inp)
  obtain x w1 where c: "create_stored L St i now inp w = (x, w1)" by fastforce
  have rows: "v_rows w1 = v_rows w" and hash: "x = Inl ErrHashMismatch \<Longrightarrow> w1 = w"
    and id: "x = Inr rel \<Longrightarrow> rel_ID rel = i" for rel
    using c by (auto simp: create_stored_def Let_def split: if_splits prod.splits sum.splits)
  show ?thesis
  proof (cases x)
    case (Inl e)
    then show ?thesis
      using assms(3) c Inr rows hash
      by (auto simp: handleCreate_def Create_def bind_io_def http_Error_def split: if_splits)
  next
    case (Inr rel)
    obtain y w2 where d: "create_inserted L rel w1 = (y, w2)" by fastforce
    have "canonical_uuid (rel_ID rel)" using id [OF Inr] assms(2) by simp
    from create_inserted_effect [OF assms(1) this d]
    have off: "filter (offered f) (v_rows w2) = filter (offered f) (v_rows w)" for f by (auto simp: offered_def rows)
    have "y \<noteq> Inl ErrHashMismatch"
      using d by (auto simp: create_inserted_def rename_error_def then_io_def bind_io_def split: prod.splits sum.splits)
    then show ?thesis
      using assms(3) c d Inr \<open>parse_create u = Inr inp\<close> off
      by (auto simp: handleCreate_def Create_def bind_io_def http_Error_def writeJSON_def split: sum.splits)
  qed
qed

text \<open>C19. Errors of \<open>POST /v1/releases\<close>: it answers 201, 400 or 500; a request refused with 400 changes nothing; and
  whatever it answers, no listing of updates changes, since a new release is a draft.\<close>

theorem create_answers:
  assumes "go_lib_ok L" and "canonical_uuid i" and "serve L St i now (post_release u) w = (r, w')"
  shows "h_status r \<in> {201, 400, 500} \<and> (h_status r = 400 \<longrightarrow> w' = w)
    \<and> (\<forall>f. filter (offered f) (v_rows w') = filter (offered f) (v_rows w))"
  by (rule create_outcome [OF assms(1,2) assms(3) [unfolded serve_requests]])

theorem create_answers_witness:
  "\<exists>r w'. serve sample_go (local_storage sample_root) sample_id 5 (post_release (sample_form\<lparr>up_file := None\<rparr>))
       \<lparr>v_rows = [], v_blobs = server_disk, v_sql = []\<rparr> = (r, w') \<and> h_status r = 400
     \<and> w' = \<lparr>v_rows = [], v_blobs = server_disk, v_sql = []\<rparr>"
proof -
  let ?start = "\<lparr>v_rows = [], v_blobs = server_disk, v_sql = []\<rparr>" and ?form = "sample_form\<lparr>up_file := None\<rparr>"
  have s: "serve sample_go (local_storage sample_root) sample_id 5 (post_release ?form) ?start
      = (http_Error ''missing bundle file'' 400, ?start)"
    by (simp add: serve_requests handleCreate_def parse_create_def sample_form_def)
  from create_answers [OF sample_go_ok sample_id_canonical s] s show ?thesis by (simp add: http_Error_def)
qed

text \<open>Publication: when the database answers, \<open>POST /v1/releases/{id}/publish\<close> of a release with a rollout above zero
  answers with its metadata and makes it one of those listed for its channel, platform and runtime version; doing
  it again changes nothing.\<close>

theorem publish_makes_visible:
  assumes "go_lib_ok L" and "v_sql w = []" and "canonical_uuid i" and "row_of i (v_rows w) = Some rel" and "0 < rel_RolloutPercentage rel"
  shows "\<exists>rel' w'. serve L St k now (post_publish i) w = (writeJSON 200 (JsonMetadata (toReleaseMetadata rel)), w')
    \<and> rel' \<in> set (v_rows w') \<and> toReleaseMetadata rel' = toReleaseMetadata rel
    \<and> offered \<lparr>lf_Channel = rel_Channel rel, lf_Platform = rel_Platform rel, lf_RuntimeVersion = rel_RuntimeVersion rel\<rparr> rel'
    \<and> serve L St k later (post_publish i) w' = (writeJSON 200 (JsonMetadata (toReleaseMetadata rel)), w')"
proof -
  have ne: "i \<noteq> []" using canonical_simple [OF assms(3)] by (auto simp: simple_name_def)
  have meta: "toReleaseMetadata (published t r) = toReleaseMetadata r" for t r
    by (simp add: published_def toReleaseMetadata_def)
  let ?new = "w\<lparr>v_rows := mark i now (v_rows w)\<rparr>"
  have r': "row_of i (v_rows ?new) = Some (published now rel)" by (simp add: row_of_mark assms(4) published_def)
  have m: "published now rel \<in> set (v_rows ?new)" using r' by (auto simp: row_of_def find_Some_iff)
  have "mark i later (mark i now (v_rows w)) = mark i now (v_rows w)" by (auto simp: mark_def)
  then have again: "handlePublish L i later ?new = (writeJSON 200 (JsonMetadata (toReleaseMetadata rel)), ?new)"
    using publish_quiet [OF assms(1) _ assms(3) r', of later] assms(2) by (simp add: meta)
  have "offered \<lparr>lf_Channel = rel_Channel rel, lf_Platform = rel_Platform rel, lf_RuntimeVersion = rel_RuntimeVersion rel\<rparr> (published now rel)"
    using assms(5) by (auto simp: offered_def published_def)
  with m again show ?thesis
    unfolding serve_requests(4) [OF ne] publish_quiet [OF assms(1-4)] meta by (intro exI conjI) (auto simp: meta)
qed

theorem publish_makes_visible_witness:
  "\<exists>rel' w'. serve sample_go (local_storage sample_root) sample_id 9 (post_publish sample_id)
       \<lparr>v_rows = [sample_release], v_blobs = server_disk, v_sql = []\<rparr>
     = (writeJSON 200 (JsonMetadata (toReleaseMetadata sample_release)), w')
     \<and> rel' \<in> set (v_rows w') \<and> offered \<lparr>lf_Channel = ''production'', lf_Platform = ''ios'', lf_RuntimeVersion = ''1.5''\<rparr> rel'"
proof -
  let ?start = "\<lparr>v_rows = [sample_release], v_blobs = server_disk, v_sql = []\<rparr>"
  have s: "row_of sample_id (v_rows ?start) = Some sample_release" "0 < rel_RolloutPercentage sample_release" "v_sql ?start = []"
    "rel_Channel sample_release = ''production''" "rel_Platform sample_release = ''ios''" "rel_RuntimeVersion sample_release = ''1.5''"
    by (simp_all add: row_of_def sample_release_def)
  from publish_makes_visible [OF sample_go_ok s(3) sample_id_canonical s(1,2), of "local_storage sample_root" sample_id 9]
  show ?thesis unfolding s(4-6) by blast
qed



text \<open>Storage round trip: on a disk that does not fail, what \<open>Put\<close> stored for a release is what \<open>Get\<close> delivers, also
  after bundles of other releases were stored.\<close>

theorem stored_bundle_is_read_back:
  assumes "local_up basePath d" and "simple_name i" and "simple_name j" and "i \<noteq> j"
    and "local_Put basePath (storage_key i) \<lparr>rd_data = b, rd_complete = True\<rparr> d = (x, d1)"
    and "local_Put basePath (storage_key j) \<lparr>rd_data = c, rd_complete = True\<rparr> d1 = (y, d2)"
  shows "x = Inr () \<and> y = Inr () \<and> local_Get basePath (storage_key i) d2 = Inr \<lparr>rd_data = b, rd_complete = True\<rparr>"
proof -
  note put = on_disk.put_up [of basePath, unfolded local_storage_def, simplified]
  have x: "x = Inr ()" "local_up basePath d1" using put [OF assms(1,2), of "\<lparr>rd_data = b, rd_complete = True\<rparr>"] assms(5) by auto
  have y: "y = Inr ()" "local_up basePath d2" using put [OF x(2) assms(3), of "\<lparr>rd_data = c, rd_complete = True\<rparr>"] assms(6) by auto
  have "local_content basePath d1 (storage_key i) = Some b"
    using on_disk.put_done [OF assms(2), of basePath _ d d1] assms(5) x(1) by (auto simp: local_storage_def)
  then have "local_content basePath d2 (storage_key i) = Some b"
    using on_disk.put_frame [OF assms(3,2) assms(4) [symmetric], of basePath _ d1 y d2] assms(6) by (simp add: local_storage_def)
  from on_disk.get_up [OF y(2) assms(2) this] show ?thesis using x y by (simp add: local_storage_def)
qed

theorem stored_bundle_is_read_back_witness:
  "\<exists>d1 d2. local_Put sample_root (storage_key ''a'') \<lparr>rd_data = ''one'', rd_complete = True\<rparr> server_disk = (Inr (), d1)
     \<and> local_Put sample_root (storage_key ''b'') \<lparr>rd_data = ''two'', rd_complete = True\<rparr> d1 = (Inr (), d2)
     \<and> local_Get sample_root (storage_key ''a'') d2 = Inr \<lparr>rd_data = ''one'', rd_complete = True\<rparr>"
proof -
  obtain x d1 where 1: "local_Put sample_root (storage_key ''a'') \<lparr>rd_data = ''one'', rd_complete = True\<rparr> server_disk = (x, d1)" by fastforce
  obtain y d2 where 2: "local_Put sample_root (storage_key ''b'') \<lparr>rd_data = ''two'', rd_complete = True\<rparr> d1 = (y, d2)" by fastforce
  have n: "simple_name ''a''" "simple_name ''b''" "''a'' \<noteq> ''b''" by (simp_all add: simple_name_def)
  from stored_bundle_is_read_back [OF server_disk_up n 1 2] 1 2 show ?thesis by blast
qed

end
