(* ===== verification/CommandLine.thy ===== *)
theory CommandLine
  imports ClientProps ServerProps
begin

text \<open>
  The command line tool, \<open>packages/cli/src\<close>: the signing key on disk (\<open>keys.ts\<close>) and the upload of a release
  (\<open>release.ts\<close>). The network is the parameter \<open>send\<close>: what becomes of a request, and the answer.
\<close>

section \<open>\<open>keys.ts\<close>\<close>

datatype cli_error = KeyExists | KeyNotWritten | NoSigningKey | SigningFailed | UploadFailed nat

text \<open>\<open>generateSigningKeyPair\<close> of \<open>signing.ts\<close>, on the random bytes it draws.\<close>

definition generateSigningKeyPair :: "crypto \<Rightarrow> string \<Rightarrow> string \<times> string" where
  "generateSigningKeyPair C privateKey =
     (let publicKey = getPublicKey C privateKey in (bytesToBase64 C privateKey, bytesToBase64 C publicKey))"

definition resolveSigningKeyPath :: "path \<Rightarrow> path" where
  "resolveSigningKeyPath cwd = cwd @ [''.salve-push'', ''signing.key'']"

text \<open>Without \<open>--force\<close> a key that can be read is not overwritten; any error of that read counts as no key.\<close>

definition generateAndWriteSigningKey :: "crypto \<Rightarrow> path \<Rightarrow> bool \<Rightarrow> string \<Rightarrow> (disk, cli_error, string \<times> path) action" where
  "generateAndWriteSigningKey C cwd force random d =
     (let keyPath = resolveSigningKeyPath cwd in
      if \<not> force \<and> read_file keyPath d \<noteq> None then (Inl KeyExists, d)
      else (case generateSigningKeyPair C random of
              (privateKey, publicKey) \<Rightarrow>
                (case mkdirs (butlast keyPath) d of
                   (False, d1) \<Rightarrow> (Inl KeyNotWritten, d1)
                 | (True, d1) \<Rightarrow>
                     (case write_file keyPath privateKey d1 of
                        (ok, d2) \<Rightarrow> (if ok then Inr (publicKey, keyPath) else Inl KeyNotWritten, d2)))))"

text \<open>\<open>String.prototype.trim\<close>, for the characters that have one byte.\<close>

definition js_space :: "char \<Rightarrow> bool" where
  "js_space c \<longleftrightarrow> c \<in> {CHR 0x09, CHR 0x0A, CHR 0x0B, CHR 0x0C, CHR 0x0D, CHR 0x20, CHR 0xA0}"

definition js_trim :: "string \<Rightarrow> string" where
  "js_trim s = rev (dropWhile js_space (rev (dropWhile js_space s)))"

text \<open>\<open>environment\<close> is the value of \<open>SALVE_PUSH_SIGNING_KEY\<close>; an empty one counts as none.\<close>

definition loadSigningPrivateKey :: "path \<Rightarrow> string option \<Rightarrow> disk \<Rightarrow> cli_error + string" where
  "loadSigningPrivateKey cwd environment d =
     (case environment of
        Some (c # cs) \<Rightarrow> Inr (c # cs)
      | _ \<Rightarrow> (case read_file (resolveSigningKeyPath cwd) d of None \<Rightarrow> Inl NoSigningKey | Some s \<Rightarrow> Inr (js_trim s)))"

section \<open>\<open>release.ts\<close>\<close>

text \<open>The form of an upload. The rollout percentage is a whole number here.\<close>

definition release_form :: "build \<Rightarrow> nat option \<Rightarrow> string \<times> string \<times> string \<Rightarrow> upload" where
  "release_form e rolloutPercentage payload =
     (case payload of (bundleHash, signature, bundleBytes) \<Rightarrow>
        \<lparr>up_error = None,
         up_values = [(''version'', e_version e), (''platform'', e_platform e), (''channel'', e_channel e),
           (''runtime_version'', e_runtimeVersion e), (''bundle_hash'', bundleHash), (''signature'', signature),
           (''rollout_percentage'', show_nat (case rolloutPercentage of None \<Rightarrow> 100 | Some n \<Rightarrow> n))],
         up_file = Some \<lparr>rd_data = bundleBytes, rd_complete = True\<rparr>\<rparr>)"

definition publishRelease ::
    "crypto \<Rightarrow> (http_request \<Rightarrow> 'w \<Rightarrow> http_response \<times> 'w) \<Rightarrow> string \<Rightarrow> build \<Rightarrow> nat option \<Rightarrow> ('w, cli_error, body) action" where
  "publishRelease C send privateKey e rolloutPercentage w =
     (case buildReleasePayload C privateKey e of
        None \<Rightarrow> (Inl SigningFailed, w)
      | Some payload \<Rightarrow>
          (case send (post_release (release_form e rolloutPercentage payload)) w of
             (response, w') \<Rightarrow> (if ok_status (h_status response) then Inr (h_body response) else Inl (UploadFailed (h_status response)), w')))"

section \<open>The signing key\<close>

definition key_disk :: "path \<Rightarrow> disk \<Rightarrow> bool" where
  "key_disk cwd d \<longleftrightarrow> good d \<and> simple_path cwd \<and> no_file_above (butlast (resolveSigningKeyPath cwd)) (dview d)
     \<and> dview d (resolveSigningKeyPath cwd) \<noteq> Some Dir"

lemma key_path:
  assumes "simple_path cwd"
  shows "simple_path (resolveSigningKeyPath cwd)" "simple_path (butlast (resolveSigningKeyPath cwd))"
    "butlast (resolveSigningKeyPath cwd) = cwd @ [''.salve-push'']"
  using assms by (simp_all add: resolveSigningKeyPath_def butlast_append simple_name_def)

lemma generate_writes:
  assumes k: "key_disk cwd d" and f: "force \<or> read_file (resolveSigningKeyPath cwd) d = None"
  shows "\<exists>d'. generateAndWriteSigningKey C cwd force random d = (Inr (btoa C (getPublicKey C random), resolveSigningKeyPath cwd), d')
    \<and> good d' \<and> read_file (resolveSigningKeyPath cwd) d' = Some (btoa C random)"
proof -
  let ?p = "resolveSigningKeyPath cwd"
  have g: "good d" and s: "simple_path cwd" and nf: "no_file_above (butlast ?p) (dview d)" and nd: "dview d ?p \<noteq> Some Dir"
    using k by (simp_all add: key_disk_def)
  obtain d1 where m: "mkdirs (butlast ?p) d = (True, d1)"
    and c1: "chg (\<lambda>w. \<exists>q. prefix q (butlast ?p) \<and> w = with_dir q (dview d)) d (with_dir (butlast ?p) (dview d)) d1"
    by (rule mkdirs_view [OF g key_path(2) [OF s] nf])
  from c1 have g1: "good d1" and v1: "dview d1 = with_dir (butlast ?p) (dview d)" by auto
  have par: "dview d1 (butlast ?p) = Some Dir" by (simp add: v1 with_dir_def)
  have "\<not> prefix ?p (butlast ?p)" unfolding key_path(3) [OF s] by (simp add: resolveSigningKeyPath_def)
  then have nd1: "dview d1 ?p \<noteq> Some Dir" using nd by (simp add: v1 with_dir_def)
  let ?new = "(dview d1)(?p \<mapsto> File (btoa C random))"
  obtain d2 where w: "write_file ?p (btoa C random) d1 = (True, d2)"
    and c2: "chg (\<lambda>w. w = (dview d1)(?p \<mapsto> File []) \<or> w = ?new) d1 ?new d2"
    by (rule write_view [OF g1 key_path(1) [OF s] par nd1])
  from c2 have g2: "good d2" and v2: "dview d2 = ?new" by auto
  have "read_file ?p d2 = Some (btoa C random)" using read_view [OF g2 key_path(1) [OF s]] by (simp add: v2)
  with f g2 show ?thesis
    by (intro exI [of _ d2]) (simp add: generateAndWriteSigningKey_def Let_def generateSigningKeyPair_def m w)
qed

text \<open>C33. The developer's key: when a key is generated and the base64 text of its bytes has no surrounding white space, the
  key loaded afterwards signs releases that verify under the public key that was printed; generating again without
  \<open>--force\<close> is refused and changes nothing.\<close>

theorem signing_key_round_trip:
  assumes "crypto_ok C" and "key_disk cwd d" and "length random = 32" and "js_trim (btoa C random) = btoa C random"
    and "force \<or> read_file (resolveSigningKeyPath cwd) d = None"
  shows "\<exists>publicKey keyPath d' privateKey. generateAndWriteSigningKey C cwd force random d = (Inr (publicKey, keyPath), d')
    \<and> loadSigningPrivateKey cwd None d' = Inr privateKey
    \<and> (\<forall>i. \<exists>s. signRelease C privateKey i = Some s \<and> verifyRelease C publicKey i s)
    \<and> generateAndWriteSigningKey C cwd False another d' = (Inl KeyExists, d')"
proof -
  obtain d' where d: "generateAndWriteSigningKey C cwd force random d = (Inr (btoa C (getPublicKey C random), resolveSigningKeyPath cwd), d')"
    "read_file (resolveSigningKeyPath cwd) d' = Some (btoa C random)"
    using generate_writes [OF assms(2,5)] by blast
  have l: "loadSigningPrivateKey cwd None d' = Inr (btoa C random)"
    by (simp add: loadSigningPrivateKey_def d(2) assms(4))
  have r: "generateAndWriteSigningKey C cwd False another d' = (Inl KeyExists, d')"
    by (simp add: generateAndWriteSigningKey_def Let_def d(2))
  show ?thesis using d(1) l r sign_verify [OF assms(1,3)] unfolding base64_loops by blast
qed

theorem signing_key_round_trip_witness:
  "\<exists>publicKey keyPath d' privateKey. generateAndWriteSigningKey sample_crypto [''srv''] False sample_key server_disk = (Inr (publicKey, keyPath), d')
     \<and> loadSigningPrivateKey [''srv''] None d' = Inr privateKey
     \<and> (\<forall>i. \<exists>s. signRelease sample_crypto privateKey i = Some s \<and> verifyRelease sample_crypto publicKey i s)
     \<and> generateAndWriteSigningKey sample_crypto [''srv''] False [] d' = (Inl KeyExists, d')"
proof -
  have k: "key_disk [''srv''] server_disk"
    using server_disk_up
    by (auto simp: key_disk_def local_up_def sample_root_def no_file_above_def server_disk_view resolveSigningKeyPath_def simple_name_def)
  have n: "length sample_key = 32" "js_trim (btoa sample_crypto sample_key) = btoa sample_crypto sample_key"
    by (simp_all add: sample_key_def js_trim_def js_space_def sample_crypto_def)
  have a: "False \<or> read_file (resolveSigningKeyPath [''srv'']) server_disk = None"
    using k by (simp add: read_view key_disk_def server_disk_view resolveSigningKeyPath_def simple_name_def)
  show ?thesis by (rule signing_key_round_trip [OF sample_crypto_ok k n a])
qed

end
