(* ===== verification/EndToEnd.thy ===== *)
theory EndToEnd
  imports CommandLine
begin

text \<open>
  The whole way of a release: from the developer's command line through the server to the client on the device.
  Here the network is reliable and carries HTTP and JSON as documented: \<open>raw_of\<close> is a release's metadata written
  by \<open>encoding/json\<close> and read by \<open>JSON.parse\<close>.
\<close>

section \<open>Between server and client\<close>

definition raw_of :: "metadata \<Rightarrow> raw_release" where
  "raw_of m = \<lparr>raw_id = md_Id m, raw_version = md_Version m, raw_platform = md_Platform m, raw_channel = md_Channel m,
     raw_runtime_version = md_RuntimeVersion m, raw_bundle_hash = md_BundleHash m, raw_signature = md_Signature m, raw_size = md_Size m\<rparr>"

definition to_http :: "request \<Rightarrow> http_request" where
  "to_http q = \<lparr>rq_method = ''GET'', rq_path = comps (q_path q), rq_query = q_query q, rq_upload = no_upload\<rparr>"

definition list_answer :: "http_response \<Rightarrow> raw_release list option response" where
  "list_answer r = Response (h_status r) (case h_body r of JsonMetadataList ms \<Rightarrow> Some (map raw_of ms) | _ \<Rightarrow> None)"

definition bundle_answer :: "http_response \<Rightarrow> string response" where
  "bundle_answer r = Response (h_status r) (case h_body r of Bytes b \<Rightarrow> b | TextBody t \<Rightarrow> t | _ \<Rightarrow> [])"

lemma slash_free [simp]: "simple_name ''v1''" "simple_name ''updates''"
  by (simp_all add: simple_name_def)

lemma client_requests:
  "to_http (latest_request c) = get_updates [(''channel'', g_channel c), (''platform'', g_platform c), (''runtime_version'', g_runtimeVersion c)]"
  "simple_name (u_id u) \<Longrightarrow> to_http (bundle_request c u) = get_bundle (u_id u)"
proof -
  have "''/v1/updates'' = path_str [''v1'', ''updates'']" by (simp add: path_str_def)
  then show "to_http (latest_request c) = get_updates [(''channel'', g_channel c), (''platform'', g_platform c), (''runtime_version'', g_runtimeVersion c)]"
    by (simp add: to_http_def latest_request_def get_updates_def comps_path_str)
  assume "simple_name (u_id u)"
  moreover have "''/v1/updates/'' @ u_id u @ ''/bundle'' = path_str [''v1'', ''updates'', u_id u, ''bundle'']" by (simp add: path_str_def)
  ultimately show "to_http (bundle_request c u) = get_bundle (u_id u)"
    by (simp add: to_http_def bundle_request_def get_bundle_def comps_path_str)
qed

definition info_of :: "release \<Rightarrow> update_info" where
  "info_of rel = \<lparr>u_id = rel_ID rel, u_version = rel_Version rel, u_platform = rel_Platform rel, u_channel = rel_Channel rel,
     u_runtimeVersion = rel_RuntimeVersion rel, u_bundleHash = rel_BundleHash rel, u_signature = rel_Signature rel, u_size = rel_BundleSize rel\<rparr>"

lemma info_of_row: "rel_Signature rel \<noteq> [] \<Longrightarrow> toUpdateInfo (raw_of (toReleaseMetadata rel)) = Inr (info_of rel)"
  by (simp add: toUpdateInfo_def raw_of_def toReleaseMetadata_def info_of_def)

text \<open>What a client gets from \<open>checkForUpdate\<close> is the first of the offered rows.\<close>

definition config_filter :: "config \<Rightarrow> list_filter" where
  "config_filter c = \<lparr>lf_Channel = g_channel c, lf_Platform = g_platform c, lf_RuntimeVersion = g_runtimeVersion c\<rparr>"

lemma updates_handleList_cases:
  assumes "updates_handleList q w = (r, w')" and "h_status r = 200"
  shows "h_body r = JsonMetadataList (map toReleaseMetadata (newest_first (filter (offered
    \<lparr>lf_Channel = first_value q ''channel'', lf_Platform = first_value q ''platform'', lf_RuntimeVersion = first_value q ''runtime_version''\<rparr>) (v_rows w))))"
proof -
  let ?f = "\<lparr>lf_Channel = first_value q ''channel'', lf_Platform = first_value q ''platform'', lf_RuntimeVersion = first_value q ''runtime_version''\<rparr>"
  obtain y where y: "sql (select_updates ?f) w = (y, w')" and r: "r = (case y of Inl _ \<Rightarrow> http_Error ''failed to list updates'' 500
      | Inr rels \<Rightarrow> writeJSON 200 (JsonMetadataList (map toReleaseMetadata rels)))"
    using assms by (auto simp: updates_handleList_def Let_def ListUpdates_def rename_error_def http_Error_def split: if_splits prod.splits sum.splits)
  then obtain rels where "y = Inr rels" using assms(2) by (cases y) (simp_all add: http_Error_def)
  with sql_answer [OF y [unfolded this]] r show ?thesis by (auto simp: select_updates_def writeJSON_def)
qed

lemma latest_is_offered:
  assumes "serve L St i now (to_http (latest_request c)) w = (r, w')" and "fetchLatestUpdate (list_answer r) = Inr (Some u)"
  shows "\<exists>rel rest. newest_first (filter (offered (config_filter c)) (v_rows w)) = rel # rest \<and> toUpdateInfo (raw_of (toReleaseMetadata rel)) = Inr u"
proof -
  define q where "q = [(''channel'', g_channel c), (''platform'', g_platform c), (''runtime_version'', g_runtimeVersion c)]"
  define rows where "rows = newest_first (filter (offered (config_filter c)) (v_rows w))"
  have h: "updates_handleList q w = (r, w')" using assms(1) by (simp add: client_requests serve_requests q_def)
  have "h_status r = 200 \<or> \<not> ok_status (h_status r)"
    using h by (auto simp: updates_handleList_def Let_def http_Error_def writeJSON_def ok_status_def split: if_splits prod.splits sum.splits)
  moreover have "ok_status (h_status r)" using assms(2) by (auto simp: fetchLatestUpdate_def list_answer_def split: if_splits)
  ultimately have s: "h_status r = 200" by blast
  have f: "\<lparr>lf_Channel = first_value q ''channel'', lf_Platform = first_value q ''platform'', lf_RuntimeVersion = first_value q ''runtime_version''\<rparr> = config_filter c"
    by (simp add: q_def first_value_def config_filter_def)
  have "h_body r = JsonMetadataList (map toReleaseMetadata rows)"
    using updates_handleList_cases [OF h s] unfolding f rows_def .
  then have m: "fetchLatestUpdate (Response 200 (Some (map raw_of (map toReleaseMetadata rows)))) = Inr (Some u)"
    using assms(2) s by (simp add: list_answer_def)
  then show ?thesis unfolding rows_def [symmetric]
    by (cases rows) (auto simp: fetchLatestUpdate_def ok_status_def map_sum_def split: sum.splits)
qed

section \<open>Metadata comes from the table\<close>

definition metadata_in :: "body \<Rightarrow> metadata list" where
  "metadata_in b = (case b of JsonMetadata m \<Rightarrow> [m] | JsonMetadataList ms \<Rightarrow> ms | _ \<Rightarrow> [])"

definition from_row :: "metadata \<Rightarrow> release list \<Rightarrow> bool" where
  "from_row m rows \<longleftrightarrow> (\<exists>rel \<in> set rows. \<exists>t. m = (toReleaseMetadata rel)\<lparr>md_CreatedAt := t\<rparr>)"

lemma from_row_self: "rel \<in> set rows \<Longrightarrow> from_row (toReleaseMetadata rel) rows"
  unfolding from_row_def by (intro bexI exI [of _ "rel_CreatedAt rel"]) (simp_all add: toReleaseMetadata_def)

lemma no_metadata [simp]: "metadata_in (h_body (http_Error t n)) = []" "metadata_in (h_body (lookup_error a b c e)) = []"
  by (simp_all add: metadata_in_def http_Error_def lookup_error_def)

lemma json_metadata [simp]: "metadata_in (h_body (writeJSON n b)) = metadata_in b"
  by (simp add: writeJSON_def)

lemma Get_row:
  assumes "Get L i w = (Inr rel, w')"
  shows "rel \<in> set (v_rows w')"
proof -
  obtain j where "find (\<lambda>rel. rel_ID rel = j) (v_rows w) = Some rel" using Get_result [OF assms] by blast
  then have "rel \<in> set (v_rows w)" by (auto simp: find_Some_iff)
  then show ?thesis using readsD [OF reads_Get assms] by simp
qed

lemma Publish_row:
  assumes "Publish L i now w = (Inr rel, w')"
  shows "rel \<in> set (v_rows w')"
proof -
  have last: "then_io (Get L i) (Get L i) v = (Inr rel, w') \<Longrightarrow> \<exists>v'. Get L i v' = (Inr rel, w')" for v :: "'a server"
    by (auto simp: then_io_def bind_io_def split: prod.splits sum.splits)
  obtain y v where "sql (publish_release L i now) w = (y, v)" by fastforce
  then have "\<exists>v'. Get L i v' = (Inr rel, w')"
    using assms last by (auto simp: Publish_def bind_io_def rename_error_def split: if_splits sum.splits)
  then show ?thesis using Get_row by blast
qed

lemma create_row:
  assumes L: "go_lib_ok L" and i: "canonical_uuid i" and c: "Create L St i now inp w = (Inr rel, w')"
  shows "from_row (toReleaseMetadata rel) (v_rows w')"
proof -
  obtain w1 where s: "create_stored L St i now inp w = (Inr rel, w1)" and n: "create_inserted L rel w1 = (Inr rel, w')"
    using c by (auto simp: Create_def create_inserted_def bind_io_def then_io_def ret_def split: prod.splits sum.splits)
  from s have "rel_ID rel = i" by (auto simp: create_stored_def Let_def split: if_splits prod.splits sum.splits)
  then have u: "canonical_uuid (rel_ID rel)" using i by simp
  obtain a where "sql (insert_release L rel) w1 = (Inr a, w')"
    using n by (auto simp: create_inserted_def rename_error_def then_io_def bind_io_def split: prod.splits sum.splits)
  then have "insert_release L rel (v_rows w1) = Some (a, v_rows w')" by (auto dest: sql_answer)
  from insert_release_effect [OF L u this] obtain t where "v_rows w' = v_rows w1 @ [rel\<lparr>rel_PublishedAt := None, rel_CreatedAt := t\<rparr>]"
    by blast
  then show ?thesis unfolding from_row_def
    by (intro bexI [of _ "rel\<lparr>rel_PublishedAt := None, rel_CreatedAt := t\<rparr>"] exI [of _ "rel_CreatedAt rel"])
      (simp_all add: toReleaseMetadata_def)
qed

lemma rename_error_Inr: "rename_error e m s = (Inr a, s') \<longleftrightarrow> m s = (Inr a, s')"
  by (auto simp: rename_error_def split: prod.splits sum.splits)

lemma list_rows:
  "ListReleases_rows w = (Inr rels, w') \<Longrightarrow> set rels \<subseteq> set (v_rows w')"
  "ListUpdates f w = (Inr rels, w') \<Longrightarrow> set rels \<subseteq> set (v_rows w')"
  unfolding ListReleases_rows_def ListUpdates_def rename_error_Inr
  by (drule sql_answer, auto simp: select_all_def select_updates_def newest_first_props)+

lemma answers_come_from_rows:
  assumes L: "go_lib_ok L" and i: "canonical_uuid i" and s: "serve L St i now r w = (x, w')" and m: "m \<in> set (metadata_in (h_body x))"
  shows "from_row m (v_rows w')"
proof (cases "find_route (rq_method r) (rq_path r)")
  case None
  then show ?thesis using s m by (auto simp: serve_def split: if_splits)
next
  case (Some ex)
  obtain e y where ex: "ex = (e, y)" by fastforce
  have no: "metadata_in (h_body handleHealth) = []" "metadata_in (h_body handleServerIdentity) = []"
    "metadata_in (h_body handleChallenge) = []" "metadata_in (h_body notImplemented) = []"
    by (simp_all add: handleHealth_def handleServerIdentity_def handleChallenge_def notImplemented_def) (simp_all add: metadata_in_def)
  have one: "metadata_in (JsonMetadata k) = [k]" "metadata_in (JsonMetadataList ks) = ks" "metadata_in (Bytes b) = []" for k ks b
    by (simp_all add: metadata_in_def)
  have create: ?thesis if "handleCreate L St i now (rq_upload r) w = (x, w')"
  proof (cases "parse_create (rq_upload r)")
    case (Inl q)
    then show ?thesis using that m by (auto simp: handleCreate_def parse_create_def Let_def split: option.splits if_splits)
  next
    case (Inr inp)
    then show ?thesis
      using that m create_row [OF L i] by (auto simp: handleCreate_def one split: prod.splits sum.splits if_splits)
  qed
  from Some ex s m create show ?thesis
    by (cases e) (auto simp: serve_def no one releases_handleList_def releases_handleGet_def handlePublish_def
        updates_handleList_def updates_handleGet_def handleBundle_def Let_def
        dest: Get_row Publish_row list_rows [THEN subsetD] intro!: from_row_self split: prod.splits sum.splits if_splits)
qed

text \<open>What the protocol's schema and the client's types demand of a release.\<close>

definition schema :: "metadata \<Rightarrow> bool" where
  "schema m \<longleftrightarrow> canonical_uuid (md_Id m) \<and> md_Platform m \<in> {''ios'', ''android''} \<and> md_Version m \<noteq> [] \<and> md_Channel m \<noteq> []
     \<and> md_RuntimeVersion m \<noteq> [] \<and> md_BundleHash m \<noteq> [] \<and> (\<exists>s. md_Signature m = Some s \<and> s \<noteq> [])
     \<and> (\<exists>n. md_RolloutPercentage m = Some n \<and> 0 \<le> n \<and> n \<le> 100)"

section \<open>Properties\<close>

text \<open>C24. Well-typed answers: along every run of the server, each release in the answer to any request has all the fields
  the protocol's schema demands, with values in their ranges, and the client's \<open>toUpdateInfo\<close> accepts it.\<close>

theorem answers_are_well_typed:
  assumes "go_lib_ok L" and "server_run L (local_storage basePath) d (w, p)" and "fresh_id i (w, p)"
    and "serve L (local_storage basePath) i now r w = (x, w')" and "m \<in> set (metadata_in (h_body x))"
  shows "schema m \<and> (\<exists>u. toUpdateInfo (raw_of m) = Inr u)"
proof -
  have "canonical_uuid i" using assms(3) by (simp add: fresh_id_def)
  from answers_come_from_rows [OF assms(1) this assms(4,5)] obtain rel t
    where rel: "rel \<in> set (v_rows w')" and m: "m = (toReleaseMetadata rel)\<lparr>md_CreatedAt := t\<rparr>" by (auto simp: from_row_def)
  have "server_inv L (local_content basePath) (w', p)"
    by (rule on_disk.server_run_inv [OF assms(1) serve_run [OF assms(2-4)]])
  with rel have wf: "well_formed rel" "table_row rel" by (simp_all add: server_inv_def)
  have "raw_of m = raw_of (toReleaseMetadata rel)" by (simp add: m raw_of_def)
  with wf show ?thesis
    using info_of_row [of rel] by (auto simp: schema_def m toReleaseMetadata_def well_formed_def table_row_def)
qed

theorem answers_are_well_typed_witness:
  "\<exists>w x w' m. serve sample_go (local_storage sample_root) sample_id 5 (post_release sample_form) w = (x, w')
     \<and> m \<in> set (metadata_in (h_body x)) \<and> schema m"
proof -
  let ?start = "fst (empty_server server_disk)"
  obtain w where w: "handleCreate sample_go (local_storage sample_root) sample_id 5 sample_form ?start
      = (writeJSON 201 (JsonMetadata (toReleaseMetadata sample_release)), w)" using sample_server by blast
  have s: "serve sample_go (local_storage sample_root) sample_id 5 (post_release sample_form) ?start
      = (writeJSON 201 (JsonMetadata (toReleaseMetadata sample_release)), w)" by (simp add: serve_requests w)
  have e: "(?start, []) = empty_server server_disk" by (simp add: empty_server_def)
  have run: "server_run sample_go (local_storage sample_root) server_disk (?start, [])" unfolding e by (simp add: server_run_def)
  have f: "fresh_id sample_id (?start, [])" by (simp add: fresh_id_def empty_server_def)
  have m: "toReleaseMetadata sample_release \<in> set (metadata_in (h_body (writeJSON 201 (JsonMetadata (toReleaseMetadata sample_release)))))"
    by simp (simp add: metadata_in_def)
  from answers_are_well_typed [OF sample_go_ok run f s m] s m show ?thesis by blast
qed

text \<open>C14. An honest server: what \<open>checkForUpdate\<close> gets from this server is the newest of the published releases of the
  channel, platform and runtime version the app is configured with, with its own id, hash and signature.\<close>

theorem honest_server_offers_what_was_asked:
  assumes "go_lib_ok L" and "server_run L (local_storage basePath) d (w, p)"
    and "serve L (local_storage basePath) i now (to_http (latest_request c)) w = (r, w')"
    and "fetchLatestUpdate (list_answer r) = Inr (Some u)"
  shows "u_channel u = g_channel c \<and> u_platform u = g_platform c \<and> u_runtimeVersion u = g_runtimeVersion c
    \<and> (\<exists>rel \<in> set (v_rows w). u = info_of rel \<and> rel_PublishedAt rel \<noteq> None \<and> 0 < rel_RolloutPercentage rel
         \<and> (\<forall>rel' \<in> set (v_rows w). offered (config_filter c) rel' \<longrightarrow> rel_CreatedAt rel' \<le> rel_CreatedAt rel))"
proof -
  obtain rel rest where n: "newest_first (filter (offered (config_filter c)) (v_rows w)) = rel # rest"
    and t: "toUpdateInfo (raw_of (toReleaseMetadata rel)) = Inr u" using latest_is_offered [OF assms(3,4)] by blast
  have eq: "set (rel # rest) = {r \<in> set (v_rows w). offered (config_filter c) r}"
    unfolding n [symmetric] newest_first_props by auto
  then have rel: "rel \<in> set (v_rows w)" "offered (config_filter c) rel" by auto
  have "well_formed rel"
    using on_disk.server_run_inv [OF assms(1,2)] rel(1) by (simp add: server_inv_def)
  then have u: "u = info_of rel" using t info_of_row [of rel] by (simp add: well_formed_def)
  have "\<forall>r \<in> set rest. rel_CreatedAt r \<le> rel_CreatedAt rel"
    using newest_first_props(3) [of "filter (offered (config_filter c)) (v_rows w)"] unfolding n by simp
  then have "rel_CreatedAt r \<le> rel_CreatedAt rel" if "r \<in> set (v_rows w)" "offered (config_filter c) r" for r
    using that eq by auto
  with rel u show ?thesis by (auto simp: offered_def config_filter_def info_of_def)
qed

lemma sample_published:
  "\<exists>w. server_run sample_go (local_storage sample_root) server_disk (w, []) \<and> v_rows w = [published 9 sample_release] \<and> v_sql w = []"
proof -
  obtain w where w: "server_run sample_go (local_storage sample_root) server_disk (w, [])" "v_rows w = [sample_release]" "v_sql w = []"
    using sample_server by blast
  have r: "row_of sample_id (v_rows w) = Some sample_release" by (simp add: w(2) row_of_def sample_release_def)
  let ?new = "w\<lparr>v_rows := mark sample_id 9 (v_rows w)\<rparr>"
  have "server_run sample_go (local_storage sample_root) server_disk (?new, [])"
    using w(1) handlePublish_steps [OF publish_quiet [OF sample_go_ok w(3) sample_id_canonical r, of 9]]
    unfolding server_run_def by (rule rtranclp_trans)
  moreover have "v_rows ?new = [published 9 sample_release]" by (simp add: w(2) mark_def published_def sample_release_def)
  ultimately show ?thesis using w(3) by (intro exI [of _ ?new]) simp
qed

theorem honest_server_offers_what_was_asked_witness:
  "\<exists>u. toUpdateInfo (raw_of (toReleaseMetadata (published 9 sample_release))) = Inr u
     \<and> u_channel u = g_channel sample_config \<and> u_platform u = g_platform sample_config"
proof -
  obtain w where w: "server_run sample_go (local_storage sample_root) server_disk (w, [])" "v_rows w = [published 9 sample_release]" "v_sql w = []"
    using sample_published by blast
  define q where "q = [(''channel'', g_channel sample_config), (''platform'', g_platform sample_config), (''runtime_version'', g_runtimeVersion sample_config)]"
  have f: "first_value q ''channel'' = ''production''" "first_value q ''platform'' = ''ios''" "first_value q ''runtime_version'' = ''1.5''"
    by (simp_all add: q_def first_value_def sample_config_def)
  let ?r = "writeJSON 200 (JsonMetadataList [toReleaseMetadata (published 9 sample_release)])"
  have "updates_handleList q w = (?r, w)"
    using updates_quiet [OF w(3), of q] by (simp add: f w(2) newest_first_def offered_def published_def sample_release_def)
  then have s: "serve sample_go (local_storage sample_root) sample_id 0 (to_http (latest_request sample_config)) w = (?r, w)"
    by (simp add: client_requests serve_requests q_def)
  have i: "toUpdateInfo (raw_of (toReleaseMetadata (published 9 sample_release))) = Inr (info_of (published 9 sample_release))"
    by (rule info_of_row) (simp add: published_def sample_release_def)
  then have "fetchLatestUpdate (list_answer ?r) = Inr (Some (info_of (published 9 sample_release)))"
    by (simp add: fetchLatestUpdate_def list_answer_def writeJSON_def ok_status_def)
  from honest_server_offers_what_was_asked [OF sample_go_ok w(1) s this] i show ?thesis by blast
qed

text \<open>A release of the developer, and what it takes for the server to accept it.\<close>

definition publishable :: "build \<Rightarrow> bool" where
  "publishable e \<longleftrightarrow> e_platform e \<in> {''ios'', ''android''} \<and> e_version e \<noteq> [] \<and> e_channel e \<noteq> [] \<and> e_runtimeVersion e \<noteq> []"

text \<open>Hashes, signatures and the base64 text of a non-empty byte string are not empty.\<close>

definition outputs_ok :: "crypto \<Rightarrow> string \<Rightarrow> bool" where
  "outputs_ok C b \<longleftrightarrow> sha256Hex C b \<noteq> [] \<and> (\<forall>t. btoa C t = [] \<longrightarrow> t = [])
     \<and> (\<forall>m k s. length k = 32 \<longrightarrow> ed25519_sign C m k = Some s \<longrightarrow> s \<noteq> [])"

definition valid_rollout :: "nat option \<Rightarrow> bool" where
  "valid_rollout n \<longleftrightarrow> (case n of None \<Rightarrow> True | Some k \<Rightarrow> 1 \<le> k \<and> k \<le> 100)"

lemma newest_is_first:
  assumes "rel \<in> set rows" and "\<forall>r \<in> set rows. r \<noteq> rel \<longrightarrow> rel_CreatedAt r < rel_CreatedAt rel"
  shows "\<exists>rest. newest_first rows = rel # rest"
proof (cases "newest_first rows")
  case Nil
  then show ?thesis using assms(1) newest_first_props(2) [of rows] by simp
next
  case (Cons h rest)
  have "h \<in> set rows" using newest_first_props(2) [of rows] Cons by auto
  moreover have "rel_CreatedAt rel \<le> rel_CreatedAt h"
    using newest_first_props(2,3) [of rows] assms(1) Cons by auto
  ultimately have "h = rel" using assms(2) by fastforce
  with Cons show ?thesis by simp
qed

text \<open>The form of a signed build is accepted, and makes the draft of this build.\<close>

lemma form_accepted:
  assumes C: "crypto_ok C" and o: "outputs_ok C (e_bytes e)" and k: "length key = 32" and e: "publishable e" and n: "valid_rollout n"
    and h: "\<forall>b. bundle_hash L b = sha256Hex C b"
  shows "\<exists>payload s inp. buildReleasePayload C (bytesToBase64 C key) e = Some payload
    \<and> parse_create (release_form e n payload) = Inr inp \<and> accepted L inp \<and> 0 < in_RolloutPercentage inp
    \<and> rd_data (in_Bundle inp) = e_bytes e \<and> in_Version inp = e_version e \<and> in_Platform inp = e_platform e
    \<and> in_Channel inp = e_channel e \<and> in_RuntimeVersion inp = e_runtimeVersion e \<and> in_BundleHash inp = sha256Hex C (e_bytes e)
    \<and> in_Signature inp = s \<and> verifyRelease C (bytesToBase64 C (getPublicKey C key)) (build_input C e) s"
proof -
  obtain s where s: "signRelease C (bytesToBase64 C key) (build_input C e) = Some s"
    "verifyRelease C (bytesToBase64 C (getPublicKey C key)) (build_input C e) s" using sign_verify [OF C k] by blast
  have "atob C (btoa C key) = Some key" using C by (simp add: crypto_ok_def)
  then have "s \<noteq> []" using s(1) o k by (auto simp: signRelease_def Let_def outputs_ok_def)
  moreover have "sha256Hex C (e_bytes e) \<noteq> []" using o by (simp add: outputs_ok_def)
  moreover obtain j where r: "rollout_value (show_nat (case n of None \<Rightarrow> 100 | Some k \<Rightarrow> k)) = Some (int j)" "1 \<le> j" "j \<le> 100"
    using n rollout_show [of 100] rollout_show [of "the n"] by (cases n) (auto simp: valid_rollout_def)
  moreover have "buildReleasePayload C (bytesToBase64 C key) e = Some (sha256Hex C (e_bytes e), s, e_bytes e)"
    using s(1) by (simp add: buildReleasePayload_def Let_def del: base64_loops)
  ultimately show ?thesis
    using e h s(2) by (auto simp: parse_create_def release_form_def first_value_def Let_def publishable_def accepted_def filled_def)
qed

text \<open>The server's side: the build is uploaded, published, and the first of those offered to its clients.\<close>

lemma upload_and_publish:
  assumes C: "crypto_ok C" and L: "go_lib_ok L" and o: "outputs_ok C (e_bytes e)" and h: "\<forall>b. bundle_hash L b = sha256Hex C b"
    and k: "length key = 32" and e: "publishable e" and n: "valid_rollout rollout"
    and up: "local_up basePath (v_blobs w)" and q: "v_sql w = []" and i: "canonical_uuid i" "i \<notin> rel_ID ` set (v_rows w)"
    and new: "\<forall>rel \<in> set (v_rows w). rel_CreatedAt rel < pg_time L now"
    and f: "f = \<lparr>lf_Channel = e_channel e, lf_Platform = e_platform e, lf_RuntimeVersion = e_runtimeVersion e\<rparr>"
  shows "\<exists>m w1 w2 rel rest s. publishRelease C (serve L (local_storage basePath) i now) (bytesToBase64 C key) e rollout w = (Inr (JsonMetadata m), w1)
    \<and> md_Id m = i \<and> handlePublish L i later w1 = (writeJSON 200 (JsonMetadata (toReleaseMetadata rel)), w2)
    \<and> v_sql w2 = [] \<and> local_up basePath (v_blobs w2) \<and> local_content basePath (v_blobs w2) (storage_key i) = Some (e_bytes e)
    \<and> row_of i (v_rows w2) = Some rel \<and> newest_first (filter (offered f) (v_rows w2)) = rel # rest
    \<and> rel_ID rel = i \<and> rel_BundleStorageKey rel = storage_key i \<and> rel_BundleHash rel = sha256Hex C (e_bytes e)
    \<and> rel_Signature rel = s \<and> s \<noteq> [] \<and> signing_input_of (info_of rel) = build_input C e
    \<and> verifyRelease C (bytesToBase64 C (getPublicKey C key)) (build_input C e) s"
proof -
  obtain payload s inp where p: "buildReleasePayload C (bytesToBase64 C key) e = Some payload"
    "parse_create (release_form e rollout payload) = Inr inp" "accepted L inp" "0 < in_RolloutPercentage inp"
    "rd_data (in_Bundle inp) = e_bytes e" "in_Version inp = e_version e" "in_Platform inp = e_platform e"
    "in_Channel inp = e_channel e" "in_RuntimeVersion inp = e_runtimeVersion e" "in_BundleHash inp = sha256Hex C (e_bytes e)"
    "in_Signature inp = s" "verifyRelease C (bytesToBase64 C (getPublicKey C key)) (build_input C e) s"
    using form_accepted [OF C o k e n h] by blast
  let ?new = "draft L i (pg_time L now) inp"
  obtain b where b: "handleCreate L (local_storage basePath) i now (release_form e rollout payload) w
      = (writeJSON 201 (JsonMetadata (toReleaseMetadata (draft L i now inp))), w\<lparr>v_blobs := b, v_rows := v_rows w @ [?new]\<rparr>)"
    "local_up basePath b" "local_content basePath b (storage_key i) = Some (e_bytes e)"
    using on_disk.create_quiet [OF L up q i p(2,3)] unfolding p(5) by blast
  define w1 where "w1 = w\<lparr>v_blobs := b, v_rows := v_rows w @ [?new]\<rparr>"
  have p1: "publishRelease C (serve L (local_storage basePath) i now) (bytesToBase64 C key) e rollout w
      = (Inr (JsonMetadata (toReleaseMetadata (draft L i now inp))), w1)"
    unfolding publishRelease_def p(1) by (simp add: serve_requests b(1) w1_def writeJSON_def ok_status_def)
  have "row_of i (v_rows w) = None" using i(2) by (simp add: row_of_None)
  then have r1: "row_of i (v_rows w1) = Some ?new" by (simp add: w1_def row_of_append draft_def)
  define rel where "rel = published later ?new"
  define w2 where "w2 = w1\<lparr>v_rows := mark i later (v_rows w1)\<rparr>"
  have p2: "handlePublish L i later w1 = (writeJSON 200 (JsonMetadata (toReleaseMetadata rel)), w2)"
    unfolding rel_def w2_def by (rule publish_quiet [OF L _ i(1) r1]) (simp add: w1_def q)
  have r2: "row_of i (v_rows w2) = Some rel" by (simp add: w2_def rel_def row_of_mark r1 published_def)
  have fields: "rel_ID rel = i" "rel_BundleStorageKey rel = storage_key i" "rel_BundleHash rel = sha256Hex C (e_bytes e)"
    "rel_Signature rel = s" "signing_input_of (info_of rel) = build_input C e" "offered f rel" "rel_CreatedAt rel = pg_time L now"
    using p by (simp_all add: rel_def published_def draft_def offered_def f info_of_def signing_input_of_def build_input_def)
  have "rel \<in> set (v_rows w2)" using r2 by (auto simp: row_of_def find_Some_iff)
  moreover have "rel_CreatedAt r < rel_CreatedAt rel" if "r \<in> set (v_rows w2)" "r \<noteq> rel" for r
    using that new i(2) by (auto simp: w2_def w1_def mark_def fields(7) rel_def published_def draft_def)
  ultimately obtain rest where "newest_first (filter (offered f) (v_rows w2)) = rel # rest"
    using newest_is_first [of rel "filter (offered f) (v_rows w2)"] fields(6) by auto
  moreover have "s \<noteq> []" using p(3,11) by (simp add: accepted_def filled_def)
  moreover have "v_sql w2 = []" "v_blobs w2 = b" by (simp_all add: w2_def w1_def q)
  moreover have "md_Id (toReleaseMetadata (draft L i now inp)) = i" by (simp add: toReleaseMetadata_def draft_def)
  ultimately show ?thesis using p1 p2 r2 fields(1-5) b(2,3) p(12) by metis
qed

text \<open>The client's side: it finds the first release it is offered, and accepts its bundle.\<close>

lemma client_updates:
  assumes L: "go_lib_ok L" and q: "v_sql w = []" and up: "local_up basePath (v_blobs w)" and i: "canonical_uuid i"
    and b: "local_content basePath (v_blobs w) (storage_key i) = Some b" and r: "row_of i (v_rows w) = Some rel"
    and n: "newest_first (filter (offered (config_filter c)) (v_rows w)) = rel # rest"
    and fields: "rel_ID rel = i" "rel_BundleStorageKey rel = storage_key i" "rel_BundleHash rel = sha256Hex C b" "rel_Signature rel \<noteq> []"
    and v: "verifyRelease C (signingPublicKey c) (signing_input_of (info_of rel)) (rel_Signature rel)"
    and cf: "g_channel c \<noteq> []" "g_platform c \<noteq> []" "g_runtimeVersion c \<noteq> []"
  shows "\<exists>a. serve L (local_storage basePath) j later (to_http (latest_request c)) w = (a, w)
      \<and> fetchLatestUpdate (list_answer a) = Inr (Some (info_of rel))"
    "\<exists>a. serve L (local_storage basePath) j later (to_http (bundle_request c (info_of rel))) w = (a, w)
      \<and> downloadAndVerifyBundle C c (info_of rel) (bundle_answer a) = Inr b"
proof -
  have si: "simple_name i" by (rule canonical_simple [OF i])
  then have ne: "i \<noteq> []" by (auto simp: simple_name_def)
  have uid: "u_id (info_of rel) = i" by (simp add: info_of_def fields(1))
  define qs where "qs = [(''channel'', g_channel c), (''platform'', g_platform c), (''runtime_version'', g_runtimeVersion c)]"
  have fv: "first_value qs ''channel'' = g_channel c" "first_value qs ''platform'' = g_platform c" "first_value qs ''runtime_version'' = g_runtimeVersion c"
    by (simp_all add: qs_def first_value_def)
  have "serve L (local_storage basePath) j later (to_http (latest_request c)) w = (writeJSON 200 (JsonMetadataList (map toReleaseMetadata (rel # rest))), w)"
    using updates_quiet [OF q, of qs] cf n by (simp add: client_requests serve_requests fv config_filter_def) (simp add: qs_def)
  then show "\<exists>a. serve L (local_storage basePath) j later (to_http (latest_request c)) w = (a, w)
      \<and> fetchLatestUpdate (list_answer a) = Inr (Some (info_of rel))"
    using info_of_row [OF fields(4)] by (simp add: fetchLatestUpdate_def list_answer_def writeJSON_def ok_status_def)
  have "serve L (local_storage basePath) j later (to_http (bundle_request c (info_of rel))) w = handleBundle L (local_storage basePath) i w"
    using si ne uid by (simp add: client_requests serve_requests)
  then show "\<exists>a. serve L (local_storage basePath) j later (to_http (bundle_request c (info_of rel))) w = (a, w)
      \<and> downloadAndVerifyBundle C c (info_of rel) (bundle_answer a) = Inr b"
    using on_disk.download_quiet [OF L up q i r fields(2) b] v fields(3)
    by (simp add: downloadAndVerifyBundle_def bundle_answer_def ok_status_def Let_def) (simp add: info_of_def)
qed

text \<open>
  A client that talks to a server and to the storage of its device, call after call: \<open>turn\<close> completes the call that
  waits longest, with the server's answer to its request or the outcome of the installation.
\<close>

definition turn ::
    "crypto \<Rightarrow> (http_request \<Rightarrow> 'w \<Rightarrow> http_response \<times> 'w) \<Rightarrow> json_lib \<Rightarrow> path \<Rightarrow> client \<times> 'w \<times> disk \<Rightarrow> client \<times> 'w \<times> disk" where
  "turn C send J r s =
     (case s of (k, w, d) \<Rightarrow>
       (case k_waiting k of
          [] \<Rightarrow> (k, w, d)
        | call # ys \<Rightarrow>
            let k' = resumed [] ys k in
            (case call of
               AwaitLatest b \<Rightarrow>
                 (case send (to_http (latest_request (the (k_config k)))) w of (a, w') \<Rightarrow> (latest_arrived b (list_answer a) k', w', d))
             | AwaitBundle c u b \<Rightarrow>
                 (case send (to_http (bundle_request c u)) w of (a, w') \<Rightarrow> (bundle_arrived C c u b (bundle_answer a) k', w', d))
             | ResumeDownload u \<Rightarrow> (ts_downloadUpdate u True k', w, d)
             | ResumeInstall \<Rightarrow> (ts_installUpdate k', w, d)
             | AwaitNative \<Rightarrow>
                 (case last (k_native k) of (i, b) \<Rightarrow>
                   (case kt_installUpdate J r i b d of (x, d') \<Rightarrow> (native_settled (\<not> isl x) k', w, d'))))))"

lemma turn_is_step:
  assumes "turn C send J r (k, w, d) = (k', w', d')"
  shows "k' = k \<or> client_step C K UNIV k k'"
proof (cases "k_waiting k")
  case (Cons call ys)
  then have "k_waiting k = [] @ call # ys" by simp
  note step = client_step.intros(6-10) [where xs = "[]" and ys = ys and k = k and S = UNIV]
  show ?thesis
    using assms Cons step unfolding turn_def
    by (auto simp: Let_def known_signatures_def split: waiting.splits prod.splits response.splits option.splits)
qed (use assms in \<open>simp add: turn_def\<close>)

text \<open>When the server offers an update that verifies and the device can install it, \<open>sync\<close> takes five turns.\<close>

lemma sync_turns:
  assumes "send (to_http (latest_request c)) w = (a, w)" and "fetchLatestUpdate (list_answer a) = Inr (Some u)"
    and "send (to_http (bundle_request c u)) w = (a', w)" and "downloadAndVerifyBundle C c u (bundle_answer a') = Inr b"
    and "u_id u \<noteq> []" and "kt_installUpdate J r (u_id u) b d = (Inr (), d')"
  shows "(turn C send J r ^^ 5) (ts_sync (ts_configure c initial_client), w, d)
    = ((ts_configure c initial_client)\<lparr>k_native := [(u_id u, b)]\<rparr>, w, d')"
  using assms
  by (simp add: numeral_eq_Suc turn_def ts_sync_def ts_checkForUpdate_def ts_configure_def initial_client_def requireConfig_def
      await_call_def resumed_def latest_arrived_def ts_downloadUpdate_def bundle_arrived_def ts_installUpdate_def native_settled_def)

text \<open>What the device installs is what it boots.\<close>

lemma installed_boots:
  assumes "json_ok J" and "store_inv J r d" and "simple_name i" and "a_crash (store_abs J r d) \<noteq> Some True"
  shows "\<exists>d1 d2. kt_installUpdate J r i b d = (Inr (), d1) \<and> kt_resolveBundlePath J r d1 = (Inr (Some (bundle_string r i)), d2)
    \<and> dview d2 (bundle_file r i) = Some (File b)"
proof -
  let ?a = "a_install i b (store_abs J r d)"
  obtain d1 where d1: "kt_installUpdate J r i b d = (Inr (), d1)" "store_inv J r d1" "store_abs J r d1 = ?a"
    using kt_install [where P = "\<lambda>_. True" and c = b, OF assms(1-3) TrueI] by (auto simp: leads_def simp del: view_abs_sel)
  have a: "a_current ?a = Some i" "a_bundle ?a i = Some b" "a_crash ?a = a_crash (store_abs J r d)"
    by (simp_all add: a_install_def install_state_def keep_only_def del: view_abs_sel)
  then have p: "a_process_crash ?a = ?a\<lparr>a_crash := None\<rparr>" "a_boot (a_process_crash ?a) = Some i"
    using assms(4) by (simp_all add: a_process_crash_def a_boot_def Let_def del: view_abs_sel)
  obtain d2 where d2: "kt_resolveBundlePath J r d1 = (Inr (Some (bundle_string r i)), d2)" "store_abs J r d2 = ?a\<lparr>a_crash := None\<rparr>"
    using kt_resolve [OF assms(1) d1(2)] d1(3) p by (auto simp: leads_def simp del: view_abs_sel)
  have "file_text (dview d2 (bundle_file r i)) = Some b"
    using arg_cong [OF d2(2), of "\<lambda>a. a_bundle a i"] a(2) assms(3) by simp
  then have "dview d2 (bundle_file r i) = Some (File b)" by (auto simp: file_text_def split: option.splits node.splits)
  with d1(1) d2(1) show ?thesis by blast
qed

text \<open>C2. End to end: when the developer uploads a signed build from the command line and publishes it, and no release of
  the server is as new, \<open>sync\<close> of an app configured with the build's channel, platform, runtime version and public
  key, run against this server, finds this release, downloads, verifies and installs it, and the next start of the
  Android app boots exactly its bytes.\<close>

theorem released_bundle_boots:
  assumes "crypto_ok C" and "go_lib_ok L" and "outputs_ok C (e_bytes e)" and "\<forall>b. bundle_hash L b = sha256Hex C b"
    and "length key = 32" and "publishable e" and "valid_rollout rollout"
    and "local_up basePath (v_blobs w)" and "v_sql w = []" and "canonical_uuid i" and "i \<notin> rel_ID ` set (v_rows w)"
    and "\<forall>rel \<in> set (v_rows w). rel_CreatedAt rel < pg_time L now"
    and "config_filter c = \<lparr>lf_Channel = e_channel e, lf_Platform = e_platform e, lf_RuntimeVersion = e_runtimeVersion e\<rparr>"
    and "signingPublicKey (c :: config) = bytesToBase64 C (getPublicKey C key)"
    and "json_ok J" and "store_inv J r d" and "a_crash (store_abs J r d) \<noteq> Some True"
  shows "\<exists>m w1 a w2 k d1 d2. publishRelease C (serve L (local_storage basePath) i now) (bytesToBase64 C key) e rollout w = (Inr (JsonMetadata m), w1)
    \<and> serve L (local_storage basePath) j later (post_publish i) w1 = (a, w2) \<and> h_status a = 200
    \<and> (turn C (serve L (local_storage basePath) j later) J r ^^ 5) (ts_sync (ts_configure c initial_client), w2, d) = (k, w2, d1)
    \<and> k_native k = [(i, e_bytes e)] \<and> k_waiting k = [] \<and> k_errors k = []
    \<and> kt_resolveBundlePath J r d1 = (Inr (Some (bundle_string r i)), d2) \<and> dview d2 (bundle_file r i) = Some (File (e_bytes e))"
proof -
  obtain m w1 w2 rel rest s where p: "publishRelease C (serve L (local_storage basePath) i now) (bytesToBase64 C key) e rollout w = (Inr (JsonMetadata m), w1)"
    "md_Id m = i" "handlePublish L i later w1 = (writeJSON 200 (JsonMetadata (toReleaseMetadata rel)), w2)"
    and w2: "v_sql w2 = []" "local_up basePath (v_blobs w2)" "local_content basePath (v_blobs w2) (storage_key i) = Some (e_bytes e)"
    "row_of i (v_rows w2) = Some rel" "newest_first (filter (offered (config_filter c)) (v_rows w2)) = rel # rest"
    and rel: "rel_ID rel = i" "rel_BundleStorageKey rel = storage_key i" "rel_BundleHash rel = sha256Hex C (e_bytes e)"
    and s: "rel_Signature rel = s" "s \<noteq> []" "signing_input_of (info_of rel) = build_input C e"
    "verifyRelease C (signingPublicKey c) (build_input C e) s"
    using upload_and_publish [OF assms(1-13)] unfolding assms(14) by blast
  have si: "simple_name i" by (rule canonical_simple [OF assms(10)])
  have sig: "rel_Signature rel \<noteq> []" "verifyRelease C (signingPublicKey c) (signing_input_of (info_of rel)) (rel_Signature rel)"
    using s by simp_all
  have cf: "g_channel c \<noteq> []" "g_platform c \<noteq> []" "g_runtimeVersion c \<noteq> []"
    using assms(6,13) by (auto simp: publishable_def config_filter_def)
  have pub: "serve L (local_storage basePath) j later (post_publish i) w1 = (writeJSON 200 (JsonMetadata (toReleaseMetadata rel)), w2)"
    using si p(3) by (simp add: serve_requests simple_name_def)
  have id: "u_id (info_of rel) = i" "i \<noteq> []" using rel(1) si by (simp_all add: info_of_def simple_name_def)
  note up = client_updates [OF assms(2) w2(1,2) assms(10) w2(3-5) rel sig cf, of j later]
  obtain d1 d2 where d: "kt_installUpdate J r i (e_bytes e) d = (Inr (), d1)" "kt_resolveBundlePath J r d1 = (Inr (Some (bundle_string r i)), d2)"
    "dview d2 (bundle_file r i) = Some (File (e_bytes e))" using installed_boots [OF assms(15,16) si assms(17)] by blast
  obtain a a' where "serve L (local_storage basePath) j later (to_http (latest_request c)) w2 = (a, w2)"
    "fetchLatestUpdate (list_answer a) = Inr (Some (info_of rel))"
    "serve L (local_storage basePath) j later (to_http (bundle_request c (info_of rel))) w2 = (a', w2)"
    "downloadAndVerifyBundle C c (info_of rel) (bundle_answer a') = Inr (e_bytes e)" using up by blast
  from sync_turns [where send = "serve L (local_storage basePath) j later" and J = J and r = r and d = d and d' = d1, OF this] d(1) id
  have "(turn C (serve L (local_storage basePath) j later) J r ^^ 5) (ts_sync (ts_configure c initial_client), w2, d)
      = ((ts_configure c initial_client)\<lparr>k_native := [(i, e_bytes e)]\<rparr>, w2, d1)" by simp
  moreover have "k_native ((ts_configure c initial_client)\<lparr>k_native := [(i, e_bytes e)]\<rparr>) = [(i, e_bytes e)]
    \<and> k_waiting ((ts_configure c initial_client)\<lparr>k_native := [(i, e_bytes e)]\<rparr>) = []
    \<and> k_errors ((ts_configure c initial_client)\<lparr>k_native := [(i, e_bytes e)]\<rparr>) = []"
    by (simp add: ts_configure_def initial_client_def)
  moreover have "h_status (writeJSON 200 (JsonMetadata (toReleaseMetadata rel))) = 200" by (simp add: writeJSON_def)
  ultimately show ?thesis using p(1) pub d(2,3) by blast
qed

theorem released_bundle_boots_witness:
  "\<exists>m w1 a w2 k d1 d2. publishRelease sample_crypto (serve sample_go (local_storage sample_root) sample_id 5) sample_key sample_build None
       \<lparr>v_rows = [], v_blobs = server_disk, v_sql = []\<rparr> = (Inr (JsonMetadata m), w1)
     \<and> serve sample_go (local_storage sample_root) sample_id 9 (post_publish sample_id) w1 = (a, w2) \<and> h_status a = 200
     \<and> k_native (k :: client) = [(sample_id, ''ok'')]
     \<and> kt_resolveBundlePath sample_json [''data''] d1 = (Inr (Some (bundle_string [''data''] sample_id)), d2)
     \<and> dview d2 (bundle_file [''data''] sample_id) = Some (File ''ok'')"
proof -
  let ?start = "\<lparr>v_rows = [], v_blobs = server_disk, v_sql = []\<rparr>"
  let ?c = "sample_config\<lparr>g_channel := ''development''\<rparr>"
  have o: "outputs_ok sample_crypto (e_bytes sample_build)"
    by (auto simp: outputs_ok_def sample_crypto_def sample_build_def sha256Hex_def sample_hex_def)
  have h: "\<forall>b. bundle_hash sample_go b = sha256Hex sample_crypto b"
    by (simp add: bundle_hash_def sample_go_def sha256Hex_def sample_crypto_def hex_EncodeToString_def sample_hex_def)
  have k: "length sample_key = 32" "publishable sample_build" "valid_rollout None"
    by (simp_all add: sample_key_def publishable_def sample_build_def valid_rollout_def)
  have w: "local_up sample_root (v_blobs ?start)" "v_sql ?start = []" "sample_id \<notin> rel_ID ` set (v_rows ?start)"
    "\<forall>rel \<in> set (v_rows ?start). rel_CreatedAt rel < pg_time sample_go 5"
    using server_disk_up by simp_all
  have c: "config_filter ?c = \<lparr>lf_Channel = e_channel sample_build, lf_Platform = e_platform sample_build, lf_RuntimeVersion = e_runtimeVersion sample_build\<rparr>"
    "signingPublicKey ?c = bytesToBase64 sample_crypto (getPublicKey sample_crypto sample_key)"
    by (simp_all add: config_filter_def sample_config_def sample_build_def) (simp add: sample_crypto_def)
  have ids: "bytesToBase64 sample_crypto sample_key = sample_key" "signingPublicKey ?c = sample_key" "e_bytes sample_build = ''ok''"
    by (simp_all add: sample_config_def sample_build_def) (simp add: sample_crypto_def)
  note dev = new_device_store [OF sample_new_device, of sample_json]
  have n: "a_crash (store_abs sample_json [''data''] sample_disk) \<noteq> Some True" unfolding dev(2) by (simp add: a_empty_def)
  from released_bundle_boots [OF sample_crypto_ok sample_go_ok o h k w(1,2) sample_id_canonical w(3,4) c sample_json_ok dev(1) n, of sample_id 9]
  show ?thesis unfolding ids by blast
qed

text \<open>Without the second step a release stays a draft: after \<open>publishRelease\<close>, whatever it reports, no listing has changed.\<close>

lemma publishRelease_leaves_a_draft:
  assumes "go_lib_ok L" and "canonical_uuid i" and "publishRelease C (serve L St i now) key e n w = (x, w')"
  shows "filter (offered f) (v_rows w') = filter (offered f) (v_rows w)"
proof (cases "buildReleasePayload C key e")
  case (Some payload)
  obtain r where "handleCreate L St i now (release_form e n payload) w = (r, w')"
    using assms(3) Some by (auto simp: publishRelease_def serve_requests split: prod.splits if_splits)
  from create_outcome [OF assms(1,2) this] show ?thesis by simp
qed (use assms(3) in \<open>simp add: publishRelease_def\<close>)

text \<open>The rollout percentage is a switch: all positive percentages offer a release to every client.\<close>

lemma rollout_is_a_switch:
  assumes "0 < rel_RolloutPercentage rel" and "0 < n"
  shows "offered f (rel\<lparr>rel_RolloutPercentage := n\<rparr>) = offered f rel"
  using assms by (simp add: offered_def)

end
