(* ===== verification/Spec2Isabelle.thy ===== *)
theory Spec2Isabelle
  imports CrashProps KotlinApp SwiftApp CrashBridges NitroProps NitroRuns NitroLoading NitroCalls ClientProps
    KotlinRaces ServerMain EndToEnd
begin

text \<open>
  \<^bold>\<open>Salve Push: the SDK for React Native, the signature of releases, the release server and its command line.\<close>

  Salve Push updates the JavaScript bundle of a React Native app over the air. A developer signs a bundle and uploads it
  with the command line tool (\<open>src/packages/cli\<close>); the server (\<open>src/server\<close>) stores it and, once it is published, offers
  it to apps; the SDK on the device (\<open>src/packages/sdk-react-native\<close>) verifies updates, stores the installed
  releases, decides at start-up which bundle to boot, undoes a release that crashes before it confirmed its boot,
  and connects JavaScript to all this through C++ generated by nitrogen.

  \<^bold>\<open>The parts and how they meet.\<close>
  The TypeScript client finds, downloads and verifies an update. It calls \<open>installUpdate\<close>, \<open>notifyAppReady\<close> and \<open>getCurrentReleaseId\<close> on the object registered as
  \<open>SalvePushNative\<close>. The generated C++ (\<open>nitrogen/generated\<close>) dispatches the call to Kotlin or Swift
  (\<open>HybridSalvePushNative\<close>), which run the storage operation in the background and settle a promise. The storage
  (\<open>SalvePushStorage\<close>) keeps \<open>state.json\<close>, \<open>mount.marker\<close> and the bundles. The next start of the app asks
  \<open>resolveBundlePath\<close> for the bundle. The crash layer consists of POSIX signal handlers in C++
  (\<open>cpp/salve_push_crash_handler.cpp\<close>), which leave \<open>crash.marker\<close> for the next start, and of hooks for
  exceptions of the platform's runtime, which roll back at once.

  \<^bold>\<open>Theories.\<close>
  \<^item> \<open>Prelude\<close>: decimal printing, path strings, the algebra of throwing state computations
    (\<open>bind_io\<close>, \<open>catch_io\<close>, ...) shared by the Kotlin and Swift models.
  \<^item> \<open>FileSystem\<close>: the sandboxed disk all parts share: files and directories, permissions, room on the device,
    and the history of its states, one per system call, from which a killed process may resume.
  \<^item> \<open>Posix\<close>, \<open>CrashHandler\<close>: descriptors, signal dispositions, mask and pending signals; every function of
    \<open>salve_push_crash_handler.cpp\<close> under its own name. \<open>CrashMarker\<close>, \<open>CrashInstall\<close>, \<open>CrashSignal\<close> hold the
    lemmas on the marker, the installation and the delivery, \<open>CrashProps\<close> the properties: what a crash leaves on
    disk, when the signal still ends the process and when its delivery never ends, which buffers are touched, and four flaws.
  \<^item> \<open>JsonText\<close>: JSON values, the JSON libraries as a parameter, and a sample library with the required behaviour.
  \<^item> \<open>ReleaseSpec\<close>: the specification of the storage, a machine over \<open>astate\<close> (current and previous release, boot
    status, pending crash, bundles), with its invariant and what its histories satisfy.
  \<^item> \<open>StoreView\<close>, \<open>StoreModel\<close>, \<open>StoreUpdate\<close>, \<open>StoreLogic\<close>: the disk as a map, the layout of the storage
    directory, the abstraction function \<open>store_abs\<close> and the representation invariant \<open>store_inv\<close>, and the proof rules
    \<open>does\<close> and \<open>leads\<close> for chains of file operations, which also follow every state a kill can leave.
  \<^item> \<open>KotlinStorage\<close>, \<open>SwiftStorage\<close>: \<open>SalvePushStorage\<close>, \<open>SalvePushState\<close> and \<open>SalvePushBundleResolver\<close> of the two
    platforms, one definition per function (prefix \<open>kt_\<close> or \<open>sw_\<close>); \<open>KotlinRefine\<close>, \<open>SwiftRefine\<close>: each
    operation implements its specification.
  \<^item> \<open>Lifecycle\<close>: the life of a device as a step relation (boots, installations, confirmations, exceptions, and
    signals that run the C++ handler of \<open>CrashHandler\<close>), and the locale \<open>release_store\<close>: what a storage promises
    and what follows for the app. \<open>KotlinApp\<close> and \<open>SwiftApp\<close> interpret it on the two models and hold the properties.
  \<^item> \<open>KotlinBlocks\<close>: calls that overlap: the background blocks of Android taking turns, what still holds then and what
    does not, reading the current release while an installation runs, and a kill while the current release is installed again. \<open>KotlinRaces\<close>: two calls inside
    \<open>writeState\<close> at once.
  \<^item> \<open>CrashBridges\<close>: how the apps install the crash layer (\<open>salve_push_crash_bridge.cpp\<close>,
    \<open>SalvePushCrashHandler.kt\<close>, \<open>SalvePushCrashHandlerBridge.mm\<close>) and how its hooks chain.
  \<^item> \<open>NitroBridge\<close>, \<open>NitroProps\<close>: the three calls from JavaScript through the generated C++ to the storage, and the
    promises on the way back, as a step relation with its invariant.
  \<^item> \<open>NitroObjects\<close>: the C++, Swift and Java objects of the module with their reference counts, the
    conversions of \<open>SalvePushNative-Swift-Cxx-Bridge\<close>, \<open>HybridSalvePushNativeSpecSwift\<close>, \<open>JHybridSalvePushNativeSpec\<close> and the
    closures. \<open>NitroOwnership\<close>, \<open>NitroLifetime\<close>: exactness of the counts, operation by operation; \<open>NitroRuns\<close>: what holds
    along every run. \<open>NitroLoading\<close>: \<open>JNI_OnLoad\<close>, \<open>registerAllNatives\<close>, the iOS \<open>load\<close>, the prototype and the virtual
    dispatch. \<open>NitroCalls\<close>: calls across the language border that can go wrong.

  \<^item> \<open>Signing\<close>: \<open>packages/protocol/src/signing.ts\<close>, the canonical message of a release, its signature and its
    verification. \<open>Client\<close>: \<open>src/SalvePush.ts\<close> and \<open>src/update.ts\<close>, the TypeScript client, as a step relation from one
    \<open>await\<close> to the next, with its invariant. \<open>ClientProps\<close>: the developer's side (\<open>packages/cli/src/release.ts\<close>) and what
    the signature protects, from the upload to the bundle that boots, and what it does not.

  \<^item> \<open>ServerStorage\<close>: \<open>internal/storage\<close>, the interface \<open>Storage\<close> as the locale \<open>blob_store\<close>, with \<open>Local\<close> on the disk of
    \<open>FileSystem\<close>, which interprets it, and \<open>S3\<close>. \<open>ServerReleases\<close>: \<open>internal/releases\<close>, the table, the SQL statements and the
    operations of \<open>Service\<close>. \<open>ServerApi\<close>: \<open>internal/api\<close>, the handlers and the router (\<open>serve\<close>).
  \<^item> \<open>ServerRuns\<close>: the runs of the server as a step relation, its invariant, and the catalog, the abstract machine it
    implements step by step. \<open>ServerProps\<close>: the properties of bundles, listings, creation and publication, and the
    confinement of the disk storage to its root. \<open>ServerStart\<close>: the
    migrations of \<open>internal/database\<close>. \<open>ServerMain\<close>: the configuration, the choice of the storage and \<open>main\<close>.
  \<^item> \<open>CommandLine\<close>: \<open>keys.ts\<close> and \<open>release.ts\<close> of the command line tool. \<open>EndToEnd\<close>: command line, server and client
    together, from the developer's build to the bundle that boots; that the server's answers fit the
    client; what a rollout percentage and an upload without publication amount to.

  \<^bold>\<open>How code is rendered.\<close>
  A C++ function that changes the process is a function on the record \<open>process\<close>; a read outside a buffer is the
  value \<open>Inl OutOfBounds\<close>; the handler, which may call itself through the table of previous handlers, is a
  \<open>partial_function\<close> with \<open>None\<close> for a call that never returns. Kotlin and Swift functions are state
  computations whose result is \<open>Inl\<close> of a thrown error or \<open>Inr\<close> of the value. Signal numbers are 32-bit words,
  read with \<open>sint\<close>; file contents and bundles are strings of bytes. Reference counts are natural numbers; a
  failed dynamic cast, a null dereference and an empty function are values of \<open>fault\<close> and \<open>call_fault\<close>. Handlers of the
  server turn a parsed request into a response and a new state. An SQL statement is a function on the rows of the
  table with one of three outcomes: executed, refused, or executed with its answer lost; the outcomes to come are
  part of the state. Between the bundle and the row of a creation other requests may run, or the process may be
  killed. New UUIDs and the clock are arguments. No fuel is used: every other function is total by structural
  recursion.

  \<^bold>\<open>Parameters.\<close> Code outside the repository is an argument with a named hypothesis about its documented behaviour:
  the JSON libraries (\<open>json_ok\<close>), handlers of other libraries (\<open>foreign\<close> in \<open>env\<close>), the promises and results of
  NitroModules (\<open>promise_ok\<close>, \<open>source_ok\<close>, \<open>result_ok\<close>), \<open>getJHybridObject\<close> (\<open>hybrid_lib_ok\<close>), the tables of the registry,
  the prototype and the JNI methods (\<open>table_ok\<close>), \<open>jni::initialize\<close> (\<open>jni_init_ok\<close>), the cryptographic
  library (\<open>crypto_ok\<close>; \<open>unforgeable\<close> and \<open>no_second_preimage\<close> state its security for the signatures and hashes at hand),
  UUIDs, SHA-256 and the conversions of Postgres (\<open>go_lib_ok\<close>), the client of the AWS library (\<open>s3_ok\<close>), that hashes and
  signatures are not empty (\<open>outputs_ok\<close>), the network between the command line tool and a server (\<open>send\<close>), and the process around the server (\<open>host\<close>). Each has a sample instance, on
  which the witnesses apply the properties.

  \<^bold>\<open>Bounds.\<close> The storage theorems assume a disk that does not fail (\<open>good\<close>), except \<open>sw_full_disk_rollback\<close>, and release ids
  that are one ordinary path component (\<open>simple_name\<close>); the sources do not check the latter. The end-to-end theorems
  on signals assume a base directory of at most 498 characters, the room the path buffers leave
  (\<open>install_paths_exact\<close>), and no other handler to chain to. The counts of \<open>NitroObjects\<close> do not wrap. Texts that reach
  the database are ones it can store: valid UTF-8 without NUL characters. Rows with the same creation time come in the
  order of the table, which a step of \<open>server_step\<close> may change at any time.

  \<^bold>\<open>Not modelled.\<close>
  Every C++ function with a body has a definition, except \<open>initHybrid\<close>, which only forwards to fbjni. Two background blocks
  on Android take turns between the methods of the storage (\<open>KotlinBlocks\<close>), and inside one only for \<open>writeState\<close>
  (\<open>KotlinRaces\<close>); in all other theories a block runs whole, as on the serial queue of iOS.
  \<open>HybridSalvePushNativeSpecSwift.cpp\<close>, the umbrella header and the other
  headers, which hold no code to run. Of the client, network and JSON
  parsing: an answer of the server is any status with any release list or bytes. Of the server, the parsing of URLs
  and multipart forms, the database driver, the AWS library and logging. Of the
  command line tool, the parsing of arguments, the output on the console (\<open>index.ts\<close>) and the permissions of the key
  file. Of signals, system calls that are restarted. The demo app and the
  end-to-end tests.
\<close>

end
